(* ===== verification/Mu_Prelude.thy ===== *)
theory Mu_Prelude
  imports Main "HOL-Library.Word" "HOL-Library.AList"
begin

text \<open>
  Shared vocabulary of the development: machine integers, Rust's two arithmetic modes
  (overflow checks on or off), \<open>Result\<close> values with the \<open>?\<close> operator, and hash maps and
  hash sets as association lists and lists. A hash map is an association list: lookups go
  through \<^const>\<open>map_of\<close>, insertion is \<^const>\<open>AList.update\<close>, removal \<^const>\<open>AList.delete\<close>, and
  iterating over the map is iterating over the list. The order of the list is arbitrary, as
  the iteration order of Rust's \<open>HashMap\<close> is, so every theorem holds for all orders. A hash
  set is a list with \<^const>\<open>List.insert\<close> and \<^const>\<open>removeAll\<close>.
\<close>

type_synonym u8 = "8 word"
type_synonym u16 = "16 word"
type_synonym u32 = "32 word"
type_synonym u64 = "64 word"
type_synonym u128 = "128 word"
type_synonym bytes = "u8 list"
type_synonym ('k, 'v) hash_map = "('k \<times> 'v) list"
type_synonym 'a hash_set = "'a list"

named_theorems hm_simps \<open>lookups after insertions and removals\<close>
named_theorems arith_simps \<open>exact results of machine arithmetic\<close>
named_theorems res_simps \<open>propagation of errors\<close>

section \<open>Results and the question mark operator\<close>

text \<open>
  \<open>Result<T, E>\<close> is the sum \<open>'e + 'a\<close> with the error on the left. \<open>res_bind\<close> is the early
  return of \<open>?\<close>, \<open>map_err\<close> the method of the same name, \<open>ok_or\<close> turns an option into a
  result and \<open>collect_res\<close> is \<open>collect::<Result<Vec<_>, _>>()\<close>: the first error wins.
\<close>

fun res_bind :: "'e + 'a \<Rightarrow> ('a \<Rightarrow> 'e + 'b) \<Rightarrow> 'e + 'b" where
  "res_bind (Inl e) f = Inl e"
| "res_bind (Inr x) f = f x"

fun map_err :: "('e \<Rightarrow> 'f) \<Rightarrow> 'e + 'a \<Rightarrow> 'f + 'a" where
  "map_err f (Inl e) = Inl (f e)"
| "map_err f (Inr x) = Inr x"

fun ok_or :: "'e \<Rightarrow> 'a option \<Rightarrow> 'e + 'a" where
  "ok_or e None = Inl e"
| "ok_or e (Some x) = Inr x"

fun collect_res :: "('a \<Rightarrow> 'e + 'b) \<Rightarrow> 'a list \<Rightarrow> 'e + 'b list" where
  "collect_res f [] = Inr []"
| "collect_res f (x # xs) = res_bind (f x) (\<lambda>y. res_bind (collect_res f xs) (\<lambda>ys. Inr (y # ys)))"

lemma res_bind_Inr [res_simps]: "res_bind m f = Inr y \<longleftrightarrow> (\<exists>x. m = Inr x \<and> f x = Inr y)"
  by (cases m) auto

lemma res_bind_Inl [res_simps]:
  "res_bind m f = Inl e \<longleftrightarrow> m = Inl e \<or> (\<exists>x. m = Inr x \<and> f x = Inl e)"
  by (cases m) auto

lemma map_err_Inl [res_simps]: "map_err f m = Inl e \<longleftrightarrow> (\<exists>d. m = Inl d \<and> e = f d)"
  by (cases m) auto

lemma map_err_Inr [res_simps]: "map_err f m = Inr y \<longleftrightarrow> m = Inr y"
  by (cases m) auto

lemma ok_or_Inr [res_simps]: "ok_or e m = Inr y \<longleftrightarrow> m = Some y"
  by (cases m) auto

lemma collect_res_all_Inr:
  "(\<And>x. x \<in> set xs \<Longrightarrow> f x = Inr (g x)) \<Longrightarrow> collect_res f xs = Inr (map g xs)"
  by (induction xs) auto

lemma collect_res_Inr_nth:
  "collect_res f xs = Inr ys \<longleftrightarrow> list_all2 (\<lambda>x y. f x = Inr y) xs ys"
  by (induction xs arbitrary: ys) (auto simp: res_bind_Inr list_all2_Cons1)

lemma collect_res_Inr_all:
  "collect_res f xs = Inr ys \<Longrightarrow> (\<And>x y. f x = Inr y \<Longrightarrow> P y) \<Longrightarrow> y \<in> set ys \<Longrightarrow> P y"
  by (induction xs arbitrary: ys) (auto simp: res_bind_Inr)

section \<open>Machine arithmetic\<close>

text \<open>
  Rust's \<open>+\<close>, \<open>-\<close> and \<open>*\<close> on unsigned integers. With overflow checks (the flag \<open>ovf\<close>) an
  overflowing operation panics, which is \<open>None\<close>; without them the result wraps around.
\<close>

definition arith_add :: "bool \<Rightarrow> 'a::len word \<Rightarrow> 'a word \<Rightarrow> 'a word option" where
  "arith_add ovf x y = (if ovf \<and> 2 ^ LENGTH('a) \<le> unat x + unat y then None else Some (x + y))"

definition arith_mul :: "bool \<Rightarrow> 'a::len word \<Rightarrow> 'a word \<Rightarrow> 'a word option" where
  "arith_mul ovf x y = (if ovf \<and> 2 ^ LENGTH('a) \<le> unat x * unat y then None else Some (x * y))"

definition arith_sub :: "bool \<Rightarrow> 'a::len word \<Rightarrow> 'a word \<Rightarrow> 'a word option" where
  "arith_sub ovf x y = (if ovf \<and> x < y then None else Some (x - y))"

lemma arith_add_exact [arith_simps]:
  fixes x y :: "'a::len word"
  assumes "unat x + unat y < 2 ^ LENGTH('a)"
  shows "arith_add ovf x y = Some (x + y)" and "unat (x + y) = unat x + unat y"
  using assms by (simp_all add: arith_add_def unat_word_ariths)

lemma arith_mul_exact [arith_simps]:
  fixes x y :: "'a::len word"
  assumes "unat x * unat y < 2 ^ LENGTH('a)"
  shows "arith_mul ovf x y = Some (x * y)" and "unat (x * y) = unat x * unat y"
  using assms by (simp_all add: arith_mul_def unat_word_ariths)

lemma arith_sub_exact [arith_simps]:
  assumes "y \<le> x"
  shows "arith_sub ovf x y = Some (x - y)" and "unat (x - y) = unat x - unat y"
  using assms by (auto simp: arith_sub_def unat_sub)

lemma arith_add_checked: "arith_add True x y = Some z \<Longrightarrow> unat z = unat x + unat y"
  using arith_add_exact(2) [of x y] by (auto simp: arith_add_def split: if_splits)

lemma arith_mul_checked: "arith_mul True x y = Some z \<Longrightarrow> unat z = unat x * unat y"
  using arith_mul_exact(2) [of x y] by (auto simp: arith_mul_def split: if_splits)

lemma arith_sub_checked: "arith_sub True x y = Some z \<Longrightarrow> y \<le> x \<and> unat z = unat x - unat y"
  by (auto simp: arith_sub_def unat_sub not_less split: if_splits)

text \<open>Casts: widening with \<open>as\<close> keeps the value, narrowing keeps it when it fits.\<close>

lemma unat_ucast_fits:
  fixes x :: "'a::len word"
  assumes "unat x < 2 ^ LENGTH('b)"
  shows "unat (ucast x :: 'b::len word) = unat x"
  using assms by (simp add: unsigned_ucast_eq take_bit_nat_eq_self)

lemma unat_ucast_widen:
  fixes x :: "'a::len word"
  assumes "LENGTH('a) \<le> LENGTH('b)"
  shows "unat (ucast x :: 'b::len word) = unat x"
proof -
  have "unat x < 2 ^ LENGTH('a)" by simp
  also have "(2::nat) ^ LENGTH('a) \<le> 2 ^ LENGTH('b)" using assms by simp
  finally show ?thesis by (rule unat_ucast_fits)
qed

section \<open>Hash maps and hash sets\<close>

text \<open>Lookups stay lookups: the simplifier must not turn them into membership in the list.\<close>

declare map_of_eq_Some_iff [simp del]

lemma hm_get_insert [hm_simps]:
  "map_of (AList.update k v m) k' = (if k' = k then Some v else map_of m k')"
  by (simp add: update_conv')

lemma hm_get_remove [hm_simps]:
  "map_of (AList.delete k m) k' = (if k' = k then None else map_of m k')"
  by (simp add: delete_conv')

lemma hm_keys_insert [hm_simps]: "fst ` set (AList.update k v m) = insert k (fst ` set m)"
  by (simp add: dom_update)

lemma hm_keys_remove [hm_simps]: "fst ` set (AList.delete k m) = fst ` set m - {k}"
  by (auto simp: hm_simps simp flip: dom_map_of_conv_image_fst split: if_splits)

lemma hm_distinct_insert [simp]: "distinct (map fst m) \<Longrightarrow> distinct (map fst (AList.update k v m))"
  by (rule distinct_update)

lemma hm_distinct_remove [simp]: "distinct (map fst m) \<Longrightarrow> distinct (map fst (AList.delete k m))"
  by (rule distinct_delete)

lemma update_values: "(k, v) \<in> set (AList.update a b m) \<Longrightarrow> (k, v) \<in> set m \<or> (k, v) = (a, b)"
  by (induction m) (auto split: if_splits)

lemma hm_get_Some_in: "map_of m k = Some v \<Longrightarrow> (k, v) \<in> set m"
  by (rule map_of_SomeD)

lemma hm_in_keys_iff: "k \<in> fst ` set m \<longleftrightarrow> (\<exists>v. map_of m k = Some v)"
  by (metis domD domI dom_map_of_conv_image_fst)

lemma hm_get_map_values:
  "map_of (map (\<lambda>(k, v). (k, f k v)) m) k = map_option (f k) (map_of m k)"
  by (induction m) auto

lemma hm_collect_keys [simp]: "map fst (map (\<lambda>(k, v). (k, f k v)) m) = map fst m"
  by auto

text \<open>Building a map from pairs: a later pair with the same key replaces an earlier one.\<close>

definition hm_from_pairs :: "('k \<times> 'v) list \<Rightarrow> ('k, 'v) hash_map" where
  "hm_from_pairs kvs = fold (\<lambda>(k, v). AList.update k v) kvs []"

lemma fold_update_get:
  "map_of (fold (\<lambda>(k, v). AList.update k v) kvs m) k =
     (case map_of (rev kvs) k of None \<Rightarrow> map_of m k | Some v \<Rightarrow> Some v)"
  by (induction kvs arbitrary: m) (auto simp: hm_simps map_add_def split: option.splits)

lemma fold_update_distinct:
  "distinct (map fst m) \<Longrightarrow> distinct (map fst (fold (\<lambda>(k, v). AList.update k v) kvs m))"
  by (induction kvs arbitrary: m) auto

lemma hm_from_pairs_get [hm_simps]: "map_of (hm_from_pairs kvs) k = map_of (rev kvs) k"
  by (simp add: hm_from_pairs_def fold_update_get split: option.splits)

lemma hm_from_pairs_distinct [simp]: "distinct (map fst (hm_from_pairs kvs))"
  by (simp add: hm_from_pairs_def fold_update_distinct)

lemma hm_from_pairs_subset: "set (hm_from_pairs kvs) \<subseteq> set kvs"
proof
  fix kv assume kv: "kv \<in> set (hm_from_pairs kvs)"
  then have "map_of (hm_from_pairs kvs) (fst kv) = Some (snd kv)" by simp
  then show "kv \<in> set kvs" by (auto simp: hm_simps dest!: map_of_SomeD)
qed

lemma hm_from_pairs_id:
  assumes "distinct (map fst m)"
  shows "hm_from_pairs m = m"
proof -
  have "fold (\<lambda>(k, v). AList.update k v) kvs acc = acc @ kvs"
    if "distinct (map fst (acc @ kvs))" for kvs acc :: "('a \<times> 'b) list"
    using that
  proof (induction kvs arbitrary: acc)
    case (Cons p kvs)
    obtain k v where p: "p = (k, v)" by (cases p)
    with Cons.prems have k: "k \<notin> fst ` set acc" by auto
    have "AList.update k v acc = acc @ [(k, v)]"
      using k by (induction acc) auto
    with Cons p show ?case by simp
  qed simp
  from this [of "[]" m] assms show ?thesis by (simp add: hm_from_pairs_def)
qed

lemma set_hs_insert [simp]: "set (List.insert x s) = insert x (set s)"
  by (rule set_insert)

lemma distinct_hs_insert [simp]: "distinct s \<Longrightarrow> distinct (List.insert x s)"
  by simp

text \<open>A filter-and-map over a list, Rust's \<open>filter_map\<close>.\<close>

definition filter_map :: "('a \<Rightarrow> 'b option) \<Rightarrow> 'a list \<Rightarrow> 'b list" where
  "filter_map f xs = concat (map (\<lambda>x. case f x of None \<Rightarrow> [] | Some y \<Rightarrow> [y]) xs)"

lemma filter_map_simps [simp]:
  "filter_map f [] = []"
  "filter_map f (x # xs) = (case f x of None \<Rightarrow> filter_map f xs | Some y \<Rightarrow> y # filter_map f xs)"
  "filter_map f (xs @ ys) = filter_map f xs @ filter_map f ys"
  by (auto simp: filter_map_def split: option.splits)

lemma set_filter_map: "set (filter_map f xs) = {y. \<exists>x \<in> set xs. f x = Some y}"
  by (induction xs) (auto split: option.splits)

lemma filter_map_map: "filter_map f (map g xs) = filter_map (\<lambda>x. f (g x)) xs"
  by (induction xs) (auto split: option.splits)

lemma map_filter_map: "map h (filter_map f xs) = filter_map (\<lambda>x. map_option h (f x)) xs"
  by (induction xs) (auto split: option.splits)

lemma filter_map_none: "(\<And>x. x \<in> set xs \<Longrightarrow> f x = None) \<Longrightarrow> filter_map f xs = []"
  by (induction xs) auto

section \<open>Conversions between a type and its wire form\<close>

text \<open>
  A pair of conversions: encoding never fails, decoding may, and decoding an encoded value
  gives its normal form. The contract lifts to lists, options of \<open>collect\<close> and to maps.
\<close>

locale conversion =
  fixes enc :: "'a \<Rightarrow> 'w"
    and dec :: "'w \<Rightarrow> 'e + 'a"
    and valid :: "'a \<Rightarrow> bool"
    and norm :: "'a \<Rightarrow> 'a"
  assumes dec_enc: "valid x \<Longrightarrow> dec (enc x) = Inr (norm x)"
begin

lemma dec_enc_list: "(\<And>x. x \<in> set xs \<Longrightarrow> valid x) \<Longrightarrow> collect_res dec (map enc xs) = Inr (map norm xs)"
  by (induction xs) (auto simp: dec_enc)

lemma enc_inj: "valid x \<Longrightarrow> valid y \<Longrightarrow> enc x = enc y \<Longrightarrow> norm x = norm y"
  by (metis dec_enc sum.inject(2))

end

text \<open>The exact case: the normal form of a value is the value itself.\<close>

locale exact_conversion = conversion enc dec valid "\<lambda>x. x"
  for enc :: "'a \<Rightarrow> 'w" and dec :: "'w \<Rightarrow> 'e + 'a" and valid :: "'a \<Rightarrow> bool"
begin

lemma enc_exact_inj: "valid x \<Longrightarrow> valid y \<Longrightarrow> enc x = enc y \<Longrightarrow> x = y"
  by (rule enc_inj)

lemma dec_enc_exact_list:
  "(\<And>x. x \<in> set xs \<Longrightarrow> valid x) \<Longrightarrow> collect_res dec (map enc xs) = Inr xs"
  using dec_enc_list [of xs] by simp

end

end
