(* ===== verification/Mailbox.thy ===== *)
theory Mailbox
  imports Mu_Prelude
begin

text \<open>
  The actor every component of the executor runs in: \<open>CallbackMailboxProcessor\<close> of
  \<open>src/rust-libs/mailbox_processor\<close>. A component is a step function
  \<open>step :: 'm \<Rightarrow> 's \<Rightarrow> 's \<times> 'o list\<close>: the message and the state go in, the new state and the
  replies and notifications it sends, in order, come out. Oneshot senders are numbered; a
  sender is either fired (\<open>mb_acks\<close>) or dropped without a value (\<open>mb_dropped\<close>), and its
  receiver learns of either. The theory proves the queue discipline once, and the locale
  \<open>mailbox_component\<close> lifts an invariant of a component's step function to every run of its
  mailbox.
\<close>

datatype 'm control_message =
    UserMessageAndAck 'm nat
  | UserMessage 'm
  | StopAndAck nat
  | Stop

datatype mailbox_error = MailboxStopped

record ('m, 's, 'o) mailbox =
  mb_queue :: "'m control_message list"
  mb_running :: bool
  mb_state :: 's
  mb_out :: "'o list"
  mb_acks :: "nat list"
  mb_dropped :: "nat list"
  mb_next :: nat

definition mailbox_start :: "'s \<Rightarrow> ('m, 's, 'o) mailbox" where
  "mailbox_start init_state =
     \<lparr>mb_queue = [], mb_running = True, mb_state = init_state, mb_out = [],
      mb_acks = [], mb_dropped = [], mb_next = 0\<rparr>"

text \<open>The oneshot senders a list of messages carries.\<close>

fun message_token :: "'m control_message \<Rightarrow> nat list" where
  "message_token (UserMessageAndAck m t) = [t]"
| "message_token (UserMessage m) = []"
| "message_token (StopAndAck t) = [t]"
| "message_token Stop = []"

text \<open>
  One iteration of the receive loop. \<open>rx.close()\<close> and leaving the loop drop the receiver and
  with it every message still queued, so the senders inside them are dropped.
\<close>

definition mailbox_recv ::
  "('m \<Rightarrow> 's \<Rightarrow> 's \<times> 'o list) \<Rightarrow> ('m, 's, 'o) mailbox \<Rightarrow> ('m, 's, 'o) mailbox" where
  "mailbox_recv step mb =
     (if \<not> mb_running mb then mb
      else case mb_queue mb of
        [] \<Rightarrow> mb
      | StopAndAck tx # rest \<Rightarrow>
          mb\<lparr>mb_queue := [], mb_running := False, mb_acks := mb_acks mb @ [tx],
             mb_dropped := mb_dropped mb @ concat (map message_token rest)\<rparr>
      | Stop # rest \<Rightarrow>
          mb\<lparr>mb_queue := [], mb_running := False,
             mb_dropped := mb_dropped mb @ concat (map message_token rest)\<rparr>
      | UserMessageAndAck msg tx # rest \<Rightarrow>
          (let (s, out) = step msg (mb_state mb) in
           mb\<lparr>mb_queue := rest, mb_state := s, mb_out := mb_out mb @ out,
              mb_acks := mb_acks mb @ [tx]\<rparr>)
      | UserMessage msg # rest \<Rightarrow>
          (let (s, out) = step msg (mb_state mb) in
           mb\<lparr>mb_queue := rest, mb_state := s, mb_out := mb_out mb @ out\<rparr>))"

text \<open>\<open>mpsc::Sender::send\<close>: fails once the receiver is closed.\<close>

definition mailbox_send ::
  "'m control_message \<Rightarrow> ('m, 's, 'o) mailbox \<Rightarrow> ('m, 's, 'o) mailbox \<times> bool" where
  "mailbox_send c mb =
     (if mb_running mb then (mb\<lparr>mb_queue := mb_queue mb @ [c]\<rparr>, True) else (mb, False))"

text \<open>
  The client side. \<open>post\<close> creates a oneshot pair and returns the receiver's number, or
  \<open>MailboxStopped\<close> when the send itself fails; \<open>stop\<close> does the same and ignores failures.
  \<open>post_and_forget\<close> and \<open>stop_and_forget\<close> send and forget; \<open>post_and_reply\<close> embeds its
  reply channel in the message, so it sends a plain user message.
\<close>

definition mailbox_post ::
  "'m \<Rightarrow> ('m, 's, 'o) mailbox \<Rightarrow> ('m, 's, 'o) mailbox \<times> (mailbox_error + nat)" where
  "mailbox_post msg mb =
     (let t = mb_next mb; (mb', sent) = mailbox_send (UserMessageAndAck msg t) (mb\<lparr>mb_next := Suc t\<rparr>)
      in (mb', if sent then Inr t else Inl MailboxStopped))"

definition mailbox_post_and_forget :: "'m \<Rightarrow> ('m, 's, 'o) mailbox \<Rightarrow> ('m, 's, 'o) mailbox" where
  "mailbox_post_and_forget msg mb = fst (mailbox_send (UserMessage msg) mb)"

definition mailbox_post_and_reply ::
  "'m \<Rightarrow> ('m, 's, 'o) mailbox \<Rightarrow> ('m, 's, 'o) mailbox \<times> (mailbox_error + unit)" where
  "mailbox_post_and_reply msg mb =
     (let (mb', sent) = mailbox_send (UserMessage msg) mb
      in (mb', if sent then Inr () else Inl MailboxStopped))"

definition mailbox_stop :: "('m, 's, 'o) mailbox \<Rightarrow> ('m, 's, 'o) mailbox" where
  "mailbox_stop mb =
     (let t = mb_next mb in fst (mailbox_send (StopAndAck t) (mb\<lparr>mb_next := Suc t\<rparr>)))"

definition mailbox_stop_and_forget :: "('m, 's, 'o) mailbox \<Rightarrow> ('m, 's, 'o) mailbox" where
  "mailbox_stop_and_forget mb = fst (mailbox_send Stop mb)"

text \<open>What a caller of \<open>post\<close> holding receiver \<open>t\<close> observes: nothing yet, success or a stopped mailbox.\<close>

definition await_ack :: "nat \<Rightarrow> ('m, 's, 'o) mailbox \<Rightarrow> (mailbox_error + unit) option" where
  "await_ack t mb =
     (if t \<in> set (mb_acks mb) then Some (Inr ())
      else if t \<in> set (mb_dropped mb) then Some (Inl MailboxStopped) else None)"

text \<open>Clients and the receive loop interleave freely: an execution is a list of events.\<close>

datatype 'm mailbox_event =
    EPost 'm | EPostAndForget 'm | EPostAndReply 'm | EStop | EStopAndForget | ERecv

fun mailbox_apply ::
  "('m \<Rightarrow> 's \<Rightarrow> 's \<times> 'o list) \<Rightarrow> 'm mailbox_event \<Rightarrow> ('m, 's, 'o) mailbox \<Rightarrow> ('m, 's, 'o) mailbox"
where
  "mailbox_apply step (EPost m) mb = fst (mailbox_post m mb)"
| "mailbox_apply step (EPostAndForget m) mb = mailbox_post_and_forget m mb"
| "mailbox_apply step (EPostAndReply m) mb = fst (mailbox_post_and_reply m mb)"
| "mailbox_apply step EStop mb = mailbox_stop mb"
| "mailbox_apply step EStopAndForget mb = mailbox_stop_and_forget mb"
| "mailbox_apply step ERecv mb = mailbox_recv step mb"

definition mailbox_run ::
  "('m \<Rightarrow> 's \<Rightarrow> 's \<times> 'o list) \<Rightarrow> 'm mailbox_event list \<Rightarrow> ('m, 's, 'o) mailbox \<Rightarrow> ('m, 's, 'o) mailbox"
where
  "mailbox_run step es mb = fold (mailbox_apply step) es mb"

section \<open>Reference behaviour: a fold over the messages\<close>

fun run_steps :: "('m \<Rightarrow> 's \<Rightarrow> 's \<times> 'o list) \<Rightarrow> 'm list \<Rightarrow> 's \<Rightarrow> 's \<times> 'o list" where
  "run_steps step [] s = (s, [])"
| "run_steps step (m # ms) s =
     (let (s', o1) = step m s; (s'', o2) = run_steps step ms s' in (s'', o1 @ o2))"

lemma run_steps_append:
  "run_steps step (ms @ ms') s =
     (let (s', o1) = run_steps step ms s; (s'', o2) = run_steps step ms' s' in (s'', o1 @ o2))"
  by (induction ms arbitrary: s) (auto simp: split_beta)

lemma fst_run_steps_Cons [simp]:
  "fst (run_steps step (m # ms) s) = fst (run_steps step ms (fst (step m s)))"
  by (simp add: split_beta)

lemma run_steps_snoc:
  "run_steps step (ms @ [m]) s =
     (fst (step m (fst (run_steps step ms s))),
      snd (run_steps step ms s) @ snd (step m (fst (run_steps step ms s))))"
  by (simp add: run_steps_append split_beta)

text \<open>The user messages of a queue that come before the first stop message.\<close>

fun before_stop :: "'m control_message list \<Rightarrow> 'm list" where
  "before_stop [] = []"
| "before_stop (UserMessageAndAck m t # q) = m # before_stop q"
| "before_stop (UserMessage m # q) = m # before_stop q"
| "before_stop (StopAndAck t # q) = []"
| "before_stop (Stop # q) = []"

fun has_stop :: "'m control_message list \<Rightarrow> bool" where
  "has_stop [] = False"
| "has_stop (UserMessageAndAck m t # q) = has_stop q"
| "has_stop (UserMessage m # q) = has_stop q"
| "has_stop (StopAndAck t # q) = True"
| "has_stop (Stop # q) = True"

lemma before_stop_append:
  "before_stop (q @ q') = (if has_stop q then before_stop q else before_stop q @ before_stop q')"
  by (induction q rule: before_stop.induct) auto

lemma has_stop_append [simp]: "has_stop (q @ q') \<longleftrightarrow> has_stop q \<or> has_stop q'"
  by (induction q rule: has_stop.induct) auto

text \<open>What the clients of an execution asked for: the messages posted before the first stop.\<close>

fun requested :: "'m mailbox_event list \<Rightarrow> 'm list" where
  "requested [] = []"
| "requested (EPost m # es) = m # requested es"
| "requested (EPostAndForget m # es) = m # requested es"
| "requested (EPostAndReply m # es) = m # requested es"
| "requested (EStop # es) = []"
| "requested (EStopAndForget # es) = []"
| "requested (ERecv # es) = requested es"

fun stop_requested :: "'m mailbox_event list \<Rightarrow> bool" where
  "stop_requested [] = False"
| "stop_requested (EStop # es) = True"
| "stop_requested (EStopAndForget # es) = True"
| "stop_requested (e # es) = stop_requested es"

lemma requested_append:
  "requested (es @ es') = (if stop_requested es then requested es else requested es @ requested es')"
  by (induction es rule: requested.induct) auto

lemma stop_requested_append [simp]:
  "stop_requested (es @ es') \<longleftrightarrow> stop_requested es \<or> stop_requested es'"
  by (induction es rule: requested.induct) auto

section \<open>Queue discipline\<close>

text \<open>
  The invariant of an execution: the messages processed so far, followed by those still
  queued before a stop, are exactly the messages requested, in order; the state and the
  outputs are the fold of the step function over the processed ones.
\<close>

definition mailbox_inv ::
  "('m \<Rightarrow> 's \<Rightarrow> 's \<times> 'o list) \<Rightarrow> 's \<Rightarrow> 'm mailbox_event list \<Rightarrow> ('m, 's, 'o) mailbox \<Rightarrow> bool" where
  "mailbox_inv step init es mb \<longleftrightarrow>
     (\<exists>ds. requested es = ds @ (if mb_running mb then before_stop (mb_queue mb) else [])
        \<and> run_steps step ds init = (mb_state mb, mb_out mb))
     \<and> (stop_requested es \<longleftrightarrow> \<not> mb_running mb \<or> has_stop (mb_queue mb))
     \<and> (\<not> mb_running mb \<longrightarrow> mb_queue mb = [])"

lemmas mailbox_op_defs =
  mailbox_post_def mailbox_post_and_forget_def mailbox_post_and_reply_def mailbox_stop_def
  mailbox_stop_and_forget_def mailbox_send_def

lemma mailbox_recv_inv:
  assumes "mailbox_inv step init es mb"
  shows "mailbox_inv step init (es @ [ERecv]) (mailbox_recv step mb)"
proof (cases "mb_running mb \<and> mb_queue mb \<noteq> []")
  case False
  then show ?thesis
    using assms by (auto simp: mailbox_recv_def mailbox_inv_def requested_append split: list.splits)
next
  case True
  then obtain c q where q: "mb_queue mb = c # q" and run: "mb_running mb"
    by (auto simp: neq_Nil_conv)
  from assms run obtain ds where d: "requested es = ds @ before_stop (mb_queue mb)"
    and r: "run_steps step ds init = (mb_state mb, mb_out mb)"
    and st: "stop_requested es \<longleftrightarrow> has_stop (mb_queue mb)"
    by (auto simp: mailbox_inv_def)
  have more: "run_steps step (ds @ [m]) init =
      (fst (step m (mb_state mb)), mb_out mb @ snd (step m (mb_state mb)))" for m
    by (simp add: run_steps_snoc r)
  show ?thesis
    using q run d r st more
    by (cases c) (force simp: mailbox_recv_def mailbox_inv_def requested_append split_beta)+
qed

lemma mailbox_apply_inv:
  assumes "mailbox_inv step init es mb"
  shows "mailbox_inv step init (es @ [e]) (mailbox_apply step e mb)"
proof (cases e)
  case ERecv
  then show ?thesis using mailbox_recv_inv [OF assms] by simp
qed (use assms in \<open>auto simp: mailbox_inv_def mailbox_op_defs requested_append before_stop_append Let_def\<close>)

lemma mailbox_run_inv: "mailbox_inv step init es (mailbox_run step es (mailbox_start init))"
proof (induction es rule: rev_induct)
  case Nil
  show ?case by (simp add: mailbox_inv_def mailbox_run_def mailbox_start_def)
next
  case (snoc e es)
  then show ?case by (simp add: mailbox_run_def mailbox_apply_inv)
qed

section \<open>Acknowledgements\<close>

text \<open>
  Every oneshot sender handed out by \<open>post\<close> is in one place only: fired, dropped, or inside
  a queued message.
\<close>

definition tokens_of :: "('m, 's, 'o) mailbox \<Rightarrow> nat set" where
  "tokens_of mb =
     set (mb_acks mb) \<union> set (mb_dropped mb) \<union> set (concat (map message_token (mb_queue mb)))"

lemma tokens_of_apply: "tokens_of mb \<subseteq> tokens_of (mailbox_apply step e mb)"
proof (cases e)
  case ERecv
  then show ?thesis
    by (auto simp: tokens_of_def mailbox_recv_def split_beta
        split: list.splits control_message.splits)
qed (auto simp: tokens_of_def mailbox_op_defs Let_def)

lemma tokens_of_run: "tokens_of mb \<subseteq> tokens_of (mailbox_run step es mb)"
  unfolding mailbox_run_def
  by (induction es arbitrary: mb) (use tokens_of_apply in \<open>auto, blast\<close>)

lemma post_token: "mailbox_post m mb = (mb', Inr t) \<Longrightarrow> t \<in> tokens_of mb'"
  by (auto simp: mailbox_post_def mailbox_send_def tokens_of_def Let_def split: if_splits)

lemma await_ack_resolved:
  "t \<in> tokens_of mb \<Longrightarrow> mb_queue mb = [] \<Longrightarrow> await_ack t mb \<noteq> None"
  by (auto simp: tokens_of_def await_ack_def)

text \<open>As many iterations as there are queued messages empty the queue of a running mailbox.\<close>

lemma mailbox_recv_queue:
  "mb_running mb \<Longrightarrow> length (mb_queue (mailbox_recv step mb)) \<le> length (mb_queue mb) - 1"
  by (auto simp: mailbox_recv_def split_beta split: list.splits control_message.splits)

lemma mailbox_drained:
  assumes "mb_running mb \<or> mb_queue mb = []" and "length (mb_queue mb) \<le> n"
  shows "mb_queue (mailbox_run step (replicate n ERecv) mb) = []"
  using assms
proof (induction n arbitrary: mb)
  case 0
  then show ?case by (simp add: mailbox_run_def)
next
  case (Suc n)
  let ?mb = "mailbox_recv step mb"
  have "mb_running ?mb \<or> mb_queue ?mb = []"
    using Suc.prems(1)
    by (auto simp: mailbox_recv_def split_beta split: list.splits control_message.splits)
  moreover have "length (mb_queue ?mb) \<le> n"
    using Suc.prems mailbox_recv_queue [of mb step] by (cases "mb_running mb") (auto simp: mailbox_recv_def)
  ultimately show ?case using Suc.IH [of ?mb] by (simp add: mailbox_run_def)
qed

section \<open>The contract of a component\<close>

text \<open>
  A component promises that its step function keeps an invariant of its state for every
  message that satisfies \<open>ok\<close>. Whatever the interleaving of clients and receive loop, the
  state of its mailbox then satisfies the invariant.
\<close>

fun event_message :: "'m mailbox_event \<Rightarrow> 'm list" where
  "event_message (EPost m) = [m]"
| "event_message (EPostAndForget m) = [m]"
| "event_message (EPostAndReply m) = [m]"
| "event_message e = []"

lemma set_requested: "set (requested es) \<subseteq> set (concat (map event_message es))"
  by (induction es rule: requested.induct) auto

locale guarded_component =
  fixes step :: "'m \<Rightarrow> 's \<Rightarrow> 's \<times> 'o list"
    and ok :: "'m \<Rightarrow> bool"
    and inv :: "'s \<Rightarrow> bool"
  assumes step_keeps: "inv s \<Longrightarrow> ok m \<Longrightarrow> inv (fst (step m s))"
begin

lemma run_keeps: "inv s \<Longrightarrow> (\<And>m. m \<in> set ms \<Longrightarrow> ok m) \<Longrightarrow> inv (fst (run_steps step ms s))"
  by (induction ms arbitrary: s) (simp_all add: split_beta step_keeps)

lemma mailbox_keeps:
  assumes "inv s" and "\<And>m. m \<in> set (concat (map event_message es)) \<Longrightarrow> ok m"
  shows "inv (mb_state (mailbox_run step es (mailbox_start s)))"
proof -
  obtain ds rest where req: "requested es = ds @ rest"
    and run: "run_steps step ds s = (mb_state (mailbox_run step es (mailbox_start s)),
      mb_out (mailbox_run step es (mailbox_start s)))"
    using mailbox_run_inv [of step s es] unfolding mailbox_inv_def by blast
  have "ok m" if "m \<in> set ds" for m
  proof (rule assms(2))
    show "m \<in> set (concat (map event_message es))"
      using that req set_requested [of es] by auto
  qed
  then show ?thesis using run_keeps [OF assms(1), of ds] run by simp
qed

end

locale mailbox_component =
  fixes step :: "'m \<Rightarrow> 's \<Rightarrow> 's \<times> 'o list"
    and inv :: "'s \<Rightarrow> bool"
  assumes step_keeps_always: "inv s \<Longrightarrow> inv (fst (step m s))"

sublocale mailbox_component \<subseteq> guarded_component step "\<lambda>_. True" inv
  by unfold_locales (rule step_keeps_always)

context mailbox_component
begin

lemma run_keeps_always: "inv s \<Longrightarrow> inv (fst (run_steps step ms s))"
  by (rule run_keeps) simp_all

lemma mailbox_keeps_always: "inv s \<Longrightarrow> inv (mb_state (mailbox_run step es (mailbox_start s)))"
  by (rule mailbox_keeps) simp_all

end

section \<open>Properties\<close>

text \<open>
  C34. Whatever clients do concurrently with the receive loop, the state and the outputs of a
  mailbox are those of applying the step function, once each and in order, to an initial
  segment of the messages posted before the first stop.
\<close>

theorem mailbox_fifo:
  "\<exists>n. (mb_state (mailbox_run step es (mailbox_start init)),
        mb_out (mailbox_run step es (mailbox_start init)))
      = run_steps step (take n (requested es)) init"
proof -
  obtain ds rest where "requested es = ds @ rest"
    and "run_steps step ds init = (mb_state (mailbox_run step es (mailbox_start init)),
      mb_out (mailbox_run step es (mailbox_start init)))"
    using mailbox_run_inv [of step init es] unfolding mailbox_inv_def by blast
  then show ?thesis by (intro exI [of _ "length ds"]) simp
qed

text \<open>
  A caller of \<open>post\<close> is never left hanging: whatever happens next, once the receive loop
  has run as many iterations as there are queued messages, its acknowledgement has been
  answered, with success or with \<open>MailboxStopped\<close>.
\<close>

theorem mailbox_post_answered:
  assumes "mailbox_post m mb = (mb', Inr t)"
    and "mb1 = mailbox_run step es mb'"
    and "mb_running mb1 \<or> mb_queue mb1 = []"
  shows "await_ack t (mailbox_run step (replicate (length (mb_queue mb1)) ERecv) mb1) \<noteq> None"
proof (rule await_ack_resolved)
  show "t \<in> tokens_of (mailbox_run step (replicate (length (mb_queue mb1)) ERecv) mb1)"
    using post_token [OF assms(1)] tokens_of_run assms(2) by blast
qed (rule mailbox_drained [OF assms(3)], simp)

definition counter_step :: "nat \<Rightarrow> nat \<Rightarrow> nat \<times> nat list" where
  "counter_step n s = (s + n, [s])"

theorem mailbox_post_answered_witness:
  "await_ack 0 (mailbox_run counter_step (replicate 2 ERecv)
     (mailbox_run counter_step [EPost 7] (fst (mailbox_post 5 (mailbox_start 0))))) \<noteq> None"
proof -
  have len: "length (mb_queue (mailbox_run counter_step [EPost 7]
      (fst (mailbox_post 5 (mailbox_start 0))))) = 2"
    by (simp add: mailbox_run_def mailbox_op_defs mailbox_start_def Let_def)
  show ?thesis
    by (rule mailbox_post_answered [where m = 5 and mb = "mailbox_start 0" and es = "[EPost 7]"
          and mb' = "fst (mailbox_post 5 (mailbox_start 0))" and step = counter_step, OF _ refl,
          unfolded len])
      (simp_all add: mailbox_run_def mailbox_op_defs mailbox_start_def Let_def)
qed

end
