(* ===== verification/Rust_Str.thy ===== *)
theory Rust_Str
  imports Mu_Prelude
begin

text \<open>
  Rust strings. A \<open>String\<close> or \<open>&str\<close> is the list of its UTF-8 bytes, kept as a HOL
  \<^typ>\<open>string\<close> so that literals can be written: \<open>len\<close> is the length of the list,
  \<open>as_bytes\<close> reads the bytes and \<open>from_utf8\<close> checks them. The standard library functions
  the sources use on strings are defined here.
\<close>

section \<open>Bytes and characters\<close>

definition byte_of_char :: "char \<Rightarrow> u8" where
  "byte_of_char c = word_of_nat (of_char c)"

definition char_of_byte :: "u8 \<Rightarrow> char" where
  "char_of_byte b = char_of (unat b)"

definition as_bytes :: "string \<Rightarrow> bytes" where
  "as_bytes s = map byte_of_char s"

definition str_of_bytes :: "bytes \<Rightarrow> string" where
  "str_of_bytes bs = map char_of_byte bs"

lemma char_of_byte_of_char [simp]: "char_of_byte (byte_of_char c) = c"
proof -
  have "unat (word_of_nat (of_char c) :: u8) = of_char c"
    using nat_of_char_less_256 [of c] by (simp add: unat_of_nat)
  then show ?thesis by (simp add: char_of_byte_def byte_of_char_def)
qed

lemma byte_of_char_of_byte [simp]: "byte_of_char (char_of_byte b) = b"
proof -
  have "unat b < 256" using unsigned_less [of b] by simp
  then show ?thesis by (simp add: char_of_byte_def byte_of_char_def)
qed

lemma length_as_bytes [simp]: "length (as_bytes s) = length s"
  by (simp add: as_bytes_def)

lemma str_of_as_bytes [simp]: "str_of_bytes (as_bytes s) = s"
  by (simp add: str_of_bytes_def as_bytes_def comp_def)

lemma as_bytes_of_str [simp]: "as_bytes (str_of_bytes b) = b"
  by (simp add: str_of_bytes_def as_bytes_def comp_def)

lemma as_bytes_inject [simp]: "as_bytes s = as_bytes t \<longleftrightarrow> s = t"
  by (metis str_of_as_bytes)

section \<open>UTF-8\<close>

text \<open>
  Well-formed UTF-8: the table of byte sequences of the Unicode standard, which excludes
  overlong forms, surrogates and code points above 10FFFF.
\<close>

definition utf8_cont :: "u8 \<Rightarrow> bool" where
  "utf8_cont b \<longleftrightarrow> 128 \<le> b \<and> b < 192"

fun utf8_valid :: "bytes \<Rightarrow> bool" where
  "utf8_valid [] = True"
| "utf8_valid (a # r) =
    (if a < 128 then utf8_valid r
     else if 194 \<le> a \<and> a < 224 then
       (case r of b # r' \<Rightarrow> utf8_cont b \<and> utf8_valid r' | _ \<Rightarrow> False)
     else if 224 \<le> a \<and> a < 240 then
       (case r of b # c # r' \<Rightarrow>
          utf8_cont b \<and> utf8_cont c \<and> (a = 224 \<longrightarrow> 160 \<le> b) \<and> (a = 237 \<longrightarrow> b < 160) \<and> utf8_valid r'
        | _ \<Rightarrow> False)
     else if 240 \<le> a \<and> a < 245 then
       (case r of b # c # d # r' \<Rightarrow>
          utf8_cont b \<and> utf8_cont c \<and> utf8_cont d \<and> (a = 240 \<longrightarrow> 144 \<le> b) \<and> (a = 244 \<longrightarrow> b < 144)
          \<and> utf8_valid r'
        | _ \<Rightarrow> False)
     else False)"

definition valid_str :: "string \<Rightarrow> bool" where
  "valid_str s \<longleftrightarrow> utf8_valid (as_bytes s)"

definition from_utf8 :: "bytes \<Rightarrow> string option" where
  "from_utf8 bs = (if utf8_valid bs then Some (str_of_bytes bs) else None)"

lemma from_utf8_as_bytes [simp]: "valid_str s \<Longrightarrow> from_utf8 (as_bytes s) = Some s"
  by (simp add: from_utf8_def valid_str_def)

lemma from_utf8_Some: "from_utf8 bs = Some s \<longleftrightarrow> utf8_valid bs \<and> bs = as_bytes s"
  by (auto simp: from_utf8_def)

text \<open>\<open>chars()\<close>: the code points, each as the list of its bytes.\<close>

function utf8_chars :: "string \<Rightarrow> string list" where
  "utf8_chars [] = []"
| "utf8_chars (c # cs) =
     (c # takeWhile (utf8_cont \<circ> byte_of_char) cs) # utf8_chars (dropWhile (utf8_cont \<circ> byte_of_char) cs)"
  by pat_completeness auto
termination
  by (relation "measure length") (auto simp: less_Suc_eq_le length_dropWhile_le)

definition chars_nth :: "nat \<Rightarrow> string \<Rightarrow> string option" where
  "chars_nth n s = (let cs = utf8_chars s in if n < length cs then Some (cs ! n) else None)"

lemma concat_utf8_chars [simp]: "concat (utf8_chars s) = s"
  by (induction s rule: utf8_chars.induct) auto

lemma utf8_chars_ascii: "list_all (\<lambda>c. of_char c < (128::nat)) s \<Longrightarrow> utf8_chars s = map (\<lambda>c. [c]) s"
proof (induction s)
  case (Cons c s)
  have "\<not> utf8_cont (byte_of_char d)" if "of_char d < (128::nat)" for d
  proof -
    have "unat (byte_of_char d) = of_char d"
      using that by (simp add: byte_of_char_def unat_of_nat)
    then show ?thesis using that by (simp add: utf8_cont_def word_le_nat_alt)
  qed
  with Cons show ?case by (cases s) auto
qed simp

section \<open>Prefixes and separators\<close>

definition str_strip_prefix :: "string \<Rightarrow> string \<Rightarrow> string option" where
  "str_strip_prefix p s = (if take (length p) s = p then Some (drop (length p) s) else None)"

definition split_once :: "char \<Rightarrow> string \<Rightarrow> (string \<times> string) option" where
  "split_once c s =
     (case dropWhile (\<lambda>x. x \<noteq> c) s of [] \<Rightarrow> None | _ # r \<Rightarrow> Some (takeWhile (\<lambda>x. x \<noteq> c) s, r))"

lemma split_once_Some: "split_once c s = Some (a, b) \<longleftrightarrow> s = a @ c # b \<and> c \<notin> set a"
proof
  assume *: "split_once c s = Some (a, b)"
  then obtain x where d: "dropWhile (\<lambda>x. x \<noteq> c) s = x # b" and a: "a = takeWhile (\<lambda>x. x \<noteq> c) s"
    by (auto simp: split_once_def split: list.splits)
  from d have "x = c" by (metis (mono_tags, lifting) hd_dropWhile list.distinct(1) list.sel(1))
  with d a show "s = a @ c # b \<and> c \<notin> set a"
    by (metis (mono_tags, lifting) set_takeWhileD takeWhile_dropWhile_id)
next
  assume "s = a @ c # b \<and> c \<notin> set a"
  moreover have "takeWhile (\<lambda>x. x \<noteq> c) (a @ c # b) = a"
    and "dropWhile (\<lambda>x. x \<noteq> c) (a @ c # b) = c # b" if "c \<notin> set a"
    using that by (induction a) auto
  ultimately show "split_once c s = Some (a, b)" by (simp add: split_once_def)
qed

lemma split_once_None: "split_once c s = None \<longleftrightarrow> c \<notin> set s"
proof
  assume "split_once c s = None"
  then have "dropWhile (\<lambda>x. x \<noteq> c) s = []" by (auto simp: split_once_def split: list.splits)
  then show "c \<notin> set s" by (auto simp: dropWhile_eq_Nil_conv)
next
  assume "c \<notin> set s"
  then have "dropWhile (\<lambda>x. x \<noteq> c) s = []" by (auto simp: dropWhile_eq_Nil_conv)
  then show "split_once c s = None" by (simp only: split_once_def list.case)
qed

text \<open>\<open>split(c)\<close>: always at least one part.\<close>

fun split_str :: "char \<Rightarrow> string \<Rightarrow> string list" where
  "split_str c [] = [[]]"
| "split_str c (x # s) =
     (if x = c then [] # split_str c s
      else case split_str c s of [] \<Rightarrow> [[x]] | p # ps \<Rightarrow> (x # p) # ps)"

fun join_str :: "string \<Rightarrow> string list \<Rightarrow> string" where
  "join_str sep [] = []"
| "join_str sep [s] = s"
| "join_str sep (s # t # ts) = s @ sep @ join_str sep (t # ts)"

lemma split_str_nonempty [simp]: "split_str c s \<noteq> []"
  by (induction s) (auto split: list.splits)

lemma join_split_str: "join_str [c] (split_str c s) = s"
proof (induction s)
  case (Cons x s)
  obtain p ps where "split_str c s = p # ps" by (meson neq_Nil_conv split_str_nonempty)
  with Cons show ?case by (cases ps) auto
qed simp

lemma split_str_no_sep: "c \<notin> set s \<Longrightarrow> split_str c s = [s]"
  by (induction s) auto

lemma split_str_append_sep: "c \<notin> set s \<Longrightarrow> split_str c (s @ c # t) = s # split_str c t"
  by (induction s) auto

lemma split_str_parts: "p \<in> set (split_str c s) \<Longrightarrow> c \<notin> set p"
  by (induction s arbitrary: p) (auto split: list.splits if_splits)

lemma split_join_str:
  assumes "ss \<noteq> []" and "\<And>s. s \<in> set ss \<Longrightarrow> c \<notin> set s"
  shows "split_str c (join_str [c] ss) = ss"
  using assms by (induction "[c]" ss rule: join_str.induct) (auto simp: split_str_no_sep split_str_append_sep)

end
