(* ===== verification/Mu_Stack.thy ===== *)
theory Mu_Stack
  imports Rust_Str
begin

text \<open>
  The data model of \<open>src/rust-libs/mu_stack/src/lib.rs\<close>: stack identifiers with their binary
  and textual forms, owners, and the stack manifest with its services. The base58 codec of
  the crate of that name is a pair of parameters.
\<close>

section \<open>Stack identifiers\<close>

definition SOLANA_PUBKEY_SIZE :: nat where
  "SOLANA_PUBKEY_SIZE = 32"

datatype StackID = SolanaPublicKey bytes

datatype StackOwner = Solana bytes

fun stack_id_get_bytes :: "StackID \<Rightarrow> bytes" where
  "stack_id_get_bytes (SolanaPublicKey key) = key"

fun owner_to_inner :: "StackOwner \<Rightarrow> bytes" where
  "owner_to_inner (Solana pk) = pk"

text \<open>The array type \<open>[u8; 32]\<close> as a predicate on lists.\<close>

definition pubkey :: "bytes \<Rightarrow> bool" where
  "pubkey b \<longleftrightarrow> length b = SOLANA_PUBKEY_SIZE"

definition stack_id_wf :: "StackID \<Rightarrow> bool" where
  "stack_id_wf i \<longleftrightarrow> pubkey (stack_id_get_bytes i)"

definition owner_wf :: "StackOwner \<Rightarrow> bool" where
  "owner_wf w \<longleftrightarrow> pubkey (owner_to_inner w)"

fun stack_id_to_bytes :: "StackID \<Rightarrow> bytes" where
  "stack_id_to_bytes (SolanaPublicKey key) = 1 # key"

datatype stack_id_bytes_error = IncorrectByteCount | UnknownDiscriminator u8

definition stack_id_try_from_bytes :: "bytes \<Rightarrow> stack_id_bytes_error + StackID" where
  "stack_id_try_from_bytes b =
     (if length b \<noteq> SOLANA_PUBKEY_SIZE + 1 then Inl IncorrectByteCount
      else if hd b = 1 then Inr (SolanaPublicKey (tl b))
      else Inl (UnknownDiscriminator (hd b)))"

lemma stack_id_try_from_bytes_Inr:
  "stack_id_try_from_bytes b = Inr i \<longleftrightarrow> stack_id_wf i \<and> b = stack_id_to_bytes i"
  by (cases i; cases b) (auto simp: stack_id_try_from_bytes_def stack_id_wf_def pubkey_def)

lemma length_stack_id_to_bytes [simp]: "stack_id_wf i \<Longrightarrow> length (stack_id_to_bytes i) = 33"
  by (cases i) (simp add: stack_id_wf_def pubkey_def SOLANA_PUBKEY_SIZE_def)

lemma stack_id_to_bytes_inject [simp]: "stack_id_to_bytes i = stack_id_to_bytes j \<longleftrightarrow> i = j"
  by (cases i; cases j) simp

lemma stack_id_get_bytes_inject: "stack_id_get_bytes i = stack_id_get_bytes j \<longleftrightarrow> i = j"
  by (cases i; cases j) simp

section \<open>Textual form of identifiers and owners\<close>

text \<open>\<open>b58\<close> and \<open>unb58\<close> stand for \<open>to_base58\<close> and \<open>from_base58\<close> of the \<open>base58\<close> crate.\<close>

datatype parse_id_error = InvalidFormat | UnknownVariant | BadBase58 | LengthMismatch

fun stack_id_to_string :: "(bytes \<Rightarrow> string) \<Rightarrow> StackID \<Rightarrow> string" where
  "stack_id_to_string b58 (SolanaPublicKey pk) = ''s_'' @ b58 pk"

fun owner_to_string :: "(bytes \<Rightarrow> string) \<Rightarrow> StackOwner \<Rightarrow> string" where
  "owner_to_string b58 (Solana pk) = ''s_'' @ b58 pk"

definition parse_pubkey :: "(string \<Rightarrow> bytes option) \<Rightarrow> string \<Rightarrow> parse_id_error + bytes" where
  "parse_pubkey unb58 s =
     (if length s < 3 \<or> chars_nth 1 s \<noteq> Some ''_'' then Inl InvalidFormat
      else if chars_nth 0 s = Some ''s'' then
        (case unb58 (drop 2 s) of
           None \<Rightarrow> Inl BadBase58
         | Some b \<Rightarrow> if length b = SOLANA_PUBKEY_SIZE then Inr b else Inl LengthMismatch)
      else Inl UnknownVariant)"

definition stack_id_from_str :: "(string \<Rightarrow> bytes option) \<Rightarrow> string \<Rightarrow> parse_id_error + StackID" where
  "stack_id_from_str unb58 s = res_bind (parse_pubkey unb58 s) (\<lambda>b. Inr (SolanaPublicKey b))"

definition owner_from_str :: "(string \<Rightarrow> bytes option) \<Rightarrow> string \<Rightarrow> parse_id_error + StackOwner" where
  "owner_from_str unb58 s = res_bind (parse_pubkey unb58 s) (\<lambda>b. Inr (Solana b))"

text \<open>What the code relies on of the base58 crate.\<close>

definition base58_contract :: "(bytes \<Rightarrow> string) \<Rightarrow> (string \<Rightarrow> bytes option) \<Rightarrow> bool" where
  "base58_contract b58 unb58 \<longleftrightarrow>
     (\<forall>b. unb58 (b58 b) = Some b) \<and> (\<forall>b. b \<noteq> [] \<longrightarrow> b58 b \<noteq> [])
     \<and> (\<forall>b. list_all (\<lambda>c. of_char c < (128::nat)) (b58 b))"

lemma parse_pubkey_printed:
  assumes "base58_contract b58 unb58" and "pubkey b"
  shows "parse_pubkey unb58 (''s_'' @ b58 b) = Inr b"
proof -
  have "b \<noteq> []" using assms(2) by (auto simp: pubkey_def SOLANA_PUBKEY_SIZE_def)
  then have ne: "b58 b \<noteq> []" using assms(1) by (simp add: base58_contract_def)
  have "list_all (\<lambda>c. of_char c < (128::nat)) (''s_'' @ b58 b)"
    using assms(1) by (simp add: base58_contract_def)
  from utf8_chars_ascii [OF this] have "utf8_chars (''s_'' @ b58 b) = map (\<lambda>c. [c]) (''s_'' @ b58 b)" .
  then have "chars_nth 1 (''s_'' @ b58 b) = Some ''_''" and "chars_nth 0 (''s_'' @ b58 b) = Some ''s''"
    by (simp_all add: chars_nth_def)
  then show ?thesis
    using ne assms by (simp add: parse_pubkey_def base58_contract_def pubkey_def Suc_le_eq not_less)
qed

lemma parse_pubkey_Inr: "parse_pubkey unb58 s = Inr b \<Longrightarrow> pubkey b \<and> unb58 (drop 2 s) = Some b"
  by (auto simp: parse_pubkey_def pubkey_def split: if_splits option.splits)

text \<open>A stand-in codec for witnesses: each byte as two characters of a sixteen letter alphabet.\<close>

definition nibble_char :: "u8 \<Rightarrow> char" where
  "nibble_char b = char_of (97 + unat b)"

definition hex_encode :: "bytes \<Rightarrow> string" where
  "hex_encode bs = concat (map (\<lambda>b. [nibble_char (b div 16), nibble_char (b mod 16)]) bs)"

fun hex_decode :: "string \<Rightarrow> bytes option" where
  "hex_decode [] = Some []"
| "hex_decode [c] = None"
| "hex_decode (c # d # s) =
     map_option (\<lambda>bs. ((byte_of_char c - 97) * 16 + (byte_of_char d - 97)) # bs) (hex_decode s)"

lemma byte_of_nibble_char: "b < 16 \<Longrightarrow> byte_of_char (nibble_char b) = 97 + b"
proof -
  assume "b < 16"
  then have u: "unat b < 16" by (simp add: word_less_nat_alt)
  then have "of_char (nibble_char b) = 97 + unat b" by (simp add: nibble_char_def)
  then show ?thesis by (simp add: byte_of_char_def)
qed

lemma hex_contract: "base58_contract hex_encode hex_decode"
proof -
  have u: "unat b < 256" for b :: u8 using unsigned_less [of b] by simp
  have lt: "b div 16 < 16" "b mod 16 < 16" for b :: u8
    using u [of b] by (auto simp: word_less_nat_alt unat_div unat_mod)
  have dm: "b div 16 * 16 + b mod 16 = b" for b :: u8
    by (simp add: div_mult_mod_eq)
  have "hex_decode (hex_encode b) = Some b" for b
    by (induction b) (simp_all add: hex_encode_def byte_of_nibble_char lt dm)
  moreover have "of_char (nibble_char b) < (128::nat)" if "b < 16" for b :: u8
  proof -
    from that have "unat b < 16" by (simp add: word_less_nat_alt)
    then show ?thesis by (simp add: nibble_char_def)
  qed
  ultimately show ?thesis
    by (auto simp: base58_contract_def hex_encode_def list_all_iff lt)
qed

section \<open>The stack manifest\<close>

datatype HttpMethod = Get | Head | Post | Put | Patch | Delete | Options

datatype AssemblyRuntime = Wasi1_0

record AssemblyID =
  aid_stack_id :: StackID
  aid_assembly_name :: string

record FunctionID =
  fid_assembly_id :: AssemblyID
  fid_function_name :: string

definition function_id_stack_id :: "FunctionID \<Rightarrow> StackID" where
  "function_id_stack_id f = aid_stack_id (fid_assembly_id f)"

definition assembly_id_to_string :: "(bytes \<Rightarrow> string) \<Rightarrow> AssemblyID \<Rightarrow> string" where
  "assembly_id_to_string b58 a = stack_id_to_string b58 (aid_stack_id a) @ '':'' @ aid_assembly_name a"

definition function_id_to_string :: "(bytes \<Rightarrow> string) \<Rightarrow> FunctionID \<Rightarrow> string" where
  "function_id_to_string b58 f =
     assembly_id_to_string b58 (fid_assembly_id f) @ ''.'' @ fid_function_name f"

record AssemblyAndFunction =
  af_assembly :: string
  af_function :: string

record NameAndDelete =
  nd_name :: string
  nd_delete :: "bool option"

record Gateway =
  gw_name :: string
  gw_endpoints :: "(string, (HttpMethod, AssemblyAndFunction) hash_map) hash_map"

record Function =
  fn_name :: string
  fn_binary :: string
  fn_runtime :: AssemblyRuntime
  fn_env :: "(string, string) hash_map"
  fn_memory_limit :: u64

datatype Service = KeyValueTable NameAndDelete | Storage NameAndDelete
  | GatewayService Gateway | FunctionService Function

record Stack =
  st_name :: string
  st_version :: string
  st_services :: "Service list"

definition key_value_tables :: "Stack \<Rightarrow> NameAndDelete list" where
  "key_value_tables s = filter_map (\<lambda>x. case x of KeyValueTable t \<Rightarrow> Some t | _ \<Rightarrow> None) (st_services s)"

definition storages :: "Stack \<Rightarrow> NameAndDelete list" where
  "storages s = filter_map (\<lambda>x. case x of Storage t \<Rightarrow> Some t | _ \<Rightarrow> None) (st_services s)"

definition stack_functions :: "Stack \<Rightarrow> Function list" where
  "stack_functions s = filter_map (\<lambda>x. case x of FunctionService f \<Rightarrow> Some f | _ \<Rightarrow> None) (st_services s)"

definition gateways :: "Stack \<Rightarrow> Gateway list" where
  "gateways s = filter_map (\<lambda>x. case x of GatewayService g \<Rightarrow> Some g | _ \<Rightarrow> None) (st_services s)"

definition service_wf :: "Service \<Rightarrow> bool" where
  "service_wf v \<longleftrightarrow> (case v of
      GatewayService g \<Rightarrow> distinct (map fst (gw_endpoints g))
        \<and> (\<forall>(p, eps) \<in> set (gw_endpoints g). distinct (map fst eps))
    | FunctionService f \<Rightarrow> distinct (map fst (fn_env f))
    | _ \<Rightarrow> True)"

text \<open>A stack as Rust can hold it: the association lists that stand for hash maps have distinct keys.\<close>

definition stack_wf :: "Stack \<Rightarrow> bool" where
  "stack_wf s \<longleftrightarrow> (\<forall>v \<in> set (st_services s). service_wf v)"

lemma in_gateways: "g \<in> set (gateways s) \<longleftrightarrow> GatewayService g \<in> set (st_services s)"
  unfolding gateways_def set_filter_map
  by (auto split: Service.split_asm intro!: bexI [of _ "GatewayService g"])

lemma in_stack_functions: "f \<in> set (stack_functions s) \<longleftrightarrow> FunctionService f \<in> set (st_services s)"
  unfolding stack_functions_def set_filter_map
  by (auto split: Service.split_asm intro!: bexI [of _ "FunctionService f"])

text \<open>Normalisation strips one leading slash from every path and reinserts it into a new map.\<close>

definition normalize_url :: "string \<Rightarrow> string" where
  "normalize_url url = (case str_strip_prefix ''/'' url of Some stripped \<Rightarrow> stripped | None \<Rightarrow> url)"

definition clone_normalized :: "Gateway \<Rightarrow> Gateway" where
  "clone_normalized g =
     \<lparr>gw_name = gw_name g,
      gw_endpoints = hm_from_pairs (map (\<lambda>(url, ep). (normalize_url url, ep)) (gw_endpoints g))\<rparr>"

section \<open>References to functions\<close>

definition af_serialize :: "AssemblyAndFunction \<Rightarrow> string" where
  "af_serialize a = af_assembly a @ ''.'' @ af_function a"

definition af_visit_str :: "string \<Rightarrow> AssemblyAndFunction option" where
  "af_visit_str v =
     (case split_once (CHR ''.'') v of
        None \<Rightarrow> None
      | Some (asm, f) \<Rightarrow> Some \<lparr>af_assembly = asm, af_function = f\<rparr>)"

fun http_method_to_string :: "HttpMethod \<Rightarrow> string" where
  "http_method_to_string Get = ''Get''"
| "http_method_to_string Head = ''Head''"
| "http_method_to_string Post = ''Post''"
| "http_method_to_string Put = ''Put''"
| "http_method_to_string Patch = ''Patch''"
| "http_method_to_string Delete = ''Delete''"
| "http_method_to_string Options = ''Options''"

lemma http_method_to_string_inject: "http_method_to_string a = http_method_to_string b \<longleftrightarrow> a = b"
  by (cases a; cases b) simp_all

lemma af_visit_serialize:
  "af_visit_str (af_serialize a) = Some a \<longleftrightarrow> CHR ''.'' \<notin> set (af_assembly a)"
proof
  assume "af_visit_str (af_serialize a) = Some a"
  then have "split_once (CHR ''.'') (af_serialize a) = Some (af_assembly a, af_function a)"
    by (auto simp: af_visit_str_def split: option.splits)
  then show "CHR ''.'' \<notin> set (af_assembly a)" by (simp add: split_once_Some)
next
  assume "CHR ''.'' \<notin> set (af_assembly a)"
  then have "split_once (CHR ''.'') (af_serialize a) = Some (af_assembly a, af_function a)"
    by (simp add: split_once_Some af_serialize_def)
  then show "af_visit_str (af_serialize a) = Some a" by (simp add: af_visit_str_def)
qed

section \<open>Properties\<close>

text \<open>
  Binary stack identifiers round trip, and only the 33 bytes of an identifier are
  accepted: the decoder answers \<open>i\<close> exactly on the encoding of a 32 byte key \<open>i\<close>.
\<close>

theorem stack_id_bytes_roundtrip:
  "stack_id_try_from_bytes b = Inr i \<longleftrightarrow>
     length (stack_id_get_bytes i) = 32 \<and> b = stack_id_to_bytes i"
  by (simp add: stack_id_try_from_bytes_Inr stack_id_wf_def pubkey_def SOLANA_PUBKEY_SIZE_def)

text \<open>
  Textual identifiers and owners round trip: parsing what \<open>Display\<close> printed gives the
  identifier back, whenever base58 decoding inverts base58 encoding.
\<close>

theorem stack_id_string_roundtrip:
  assumes "base58_contract b58 unb58" and "pubkey k"
  shows "stack_id_from_str unb58 (stack_id_to_string b58 (SolanaPublicKey k)) = Inr (SolanaPublicKey k)
     \<and> owner_from_str unb58 (owner_to_string b58 (Solana k)) = Inr (Solana k)"
  using parse_pubkey_printed [OF assms] by (simp add: stack_id_from_str_def owner_from_str_def)

theorem stack_id_string_roundtrip_witness:
  "stack_id_from_str hex_decode (stack_id_to_string hex_encode (SolanaPublicKey (replicate 32 7)))
     = Inr (SolanaPublicKey (replicate 32 7))
   \<and> owner_from_str hex_decode (owner_to_string hex_encode (Solana (replicate 32 7)))
     = Inr (Solana (replicate 32 7))"
  by (rule stack_id_string_roundtrip [OF hex_contract]) (simp add: pubkey_def SOLANA_PUBKEY_SIZE_def)

end
