(* ===== verification/Stack_Validation.thy ===== *)
theory Stack_Validation
  imports Mu_Stack
begin

text \<open>
  Validation of stack manifests, \<open>src/rust-libs/mu_stack/src/validation.rs\<close>: the checks in
  the order the code makes them, each with its error.
\<close>

datatype StackValidationError =
    DuplicateFunctionName string
  | DuplicateTableName string
  | DuplicateGatewayName string
  | DuplicateStorageName string
  | UnknownFunctionInGateway string string
  | DuplicateEndpointInGateway string string HttpMethod

datatype ValidatedStack = ValidatedStack Stack

fun into_inner :: "ValidatedStack \<Rightarrow> Stack" where
  "into_inner (ValidatedStack s) = s"

fun unique_loop :: "'a hash_set \<Rightarrow> 'a list \<Rightarrow> 'a + unit" where
  "unique_loop hashset [] = Inr ()"
| "unique_loop hashset (i # it) =
     (if i \<in> set hashset then Inl i else unique_loop (List.insert i hashset) it)"

definition ensure_all_unique :: "'a list \<Rightarrow> 'a + unit" where
  "ensure_all_unique it = unique_loop [] it"

fun check_endpoints :: "string list \<Rightarrow> string \<Rightarrow> AssemblyAndFunction list \<Rightarrow> StackValidationError + unit" where
  "check_endpoints fs gw [] = Inr ()"
| "check_endpoints fs gw (ep # eps) =
     (if af_assembly ep \<in> set fs then check_endpoints fs gw eps
      else Inl (UnknownFunctionInGateway (af_assembly ep) gw))"

fun check_gateways :: "string list \<Rightarrow> Gateway list \<Rightarrow> StackValidationError + unit" where
  "check_gateways fs [] = Inr ()"
| "check_gateways fs (gw # gws) =
     res_bind (check_endpoints fs (gw_name gw) (concat (map (\<lambda>(path, eps). map snd eps) (gw_endpoints gw))))
       (\<lambda>_. check_gateways fs gws)"

definition ensure_gateway_functions_correct :: "Stack \<Rightarrow> StackValidationError + unit" where
  "ensure_gateway_functions_correct stack =
     check_gateways (map fn_name (stack_functions stack)) (gateways stack)"

definition gateway_paths :: "Gateway \<Rightarrow> (string \<times> HttpMethod) list" where
  "gateway_paths gw = concat (map (\<lambda>(path, eps). map (\<lambda>ep. (path, fst ep)) eps) (gw_endpoints gw))"

text \<open>The last gateway with a repeated endpoint is reported: \<open>err\<close> is overwritten in the loop.\<close>

fun duplicate_endpoint :: "StackValidationError option \<Rightarrow> Gateway list \<Rightarrow> StackValidationError option" where
  "duplicate_endpoint err [] = err"
| "duplicate_endpoint err (gw # gws) =
     (case ensure_all_unique (gateway_paths gw) of
        Inl (path, method) \<Rightarrow>
          duplicate_endpoint (Some (DuplicateEndpointInGateway (gw_name gw) path method)) gws
      | Inr _ \<Rightarrow> duplicate_endpoint err gws)"

definition attempt_with ::
  "Stack \<Rightarrow> ('x \<Rightarrow> StackValidationError) \<Rightarrow> 'x + unit \<Rightarrow> (Stack \<times> StackValidationError) + unit" where
  "attempt_with stack mk_err ex = map_err (\<lambda>e. (stack, mk_err e)) ex"

definition validate :: "Stack \<Rightarrow> (Stack \<times> StackValidationError) + ValidatedStack" where
  "validate stack =
     res_bind (attempt_with stack DuplicateFunctionName
                 (ensure_all_unique (map fn_name (stack_functions stack)))) (\<lambda>_.
     res_bind (attempt_with stack DuplicateTableName
                 (ensure_all_unique (map nd_name (key_value_tables stack)))) (\<lambda>_.
     res_bind (attempt_with stack DuplicateGatewayName
                 (ensure_all_unique (map gw_name (gateways stack)))) (\<lambda>_.
     res_bind (attempt_with stack DuplicateStorageName
                 (ensure_all_unique (map nd_name (storages stack)))) (\<lambda>_.
     res_bind (attempt_with stack id (ensure_gateway_functions_correct stack)) (\<lambda>_.
     (case duplicate_endpoint None (gateways stack) of
        Some err \<Rightarrow> Inl (stack, err)
      | None \<Rightarrow> Inr (ValidatedStack stack)))))))"

section \<open>What the checks decide\<close>

lemma unique_loop_Inr:
  "unique_loop hs it = Inr () \<longleftrightarrow> distinct it \<and> set it \<inter> set hs = {}"
  by (induction hs it rule: unique_loop.induct) auto

lemma ensure_all_unique_Inr: "ensure_all_unique it = Inr u \<longleftrightarrow> distinct it"
  by (simp add: ensure_all_unique_def unique_loop_Inr)

lemma unique_loop_Inl:
  "unique_loop hs it = Inl x \<Longrightarrow>
     \<exists>pre post. it = pre @ x # post \<and> x \<in> set hs \<union> set pre \<and> distinct pre \<and> set pre \<inter> set hs = {}"
proof (induction hs it arbitrary: x rule: unique_loop.induct)
  case (2 hs i it)
  show ?case
  proof (cases "i \<in> set hs")
    case True
    with 2 show ?thesis by (intro exI [of _ "[]"] exI [of _ it]) auto
  next
    case False
    with 2 obtain pre post where "it = pre @ x # post" "x \<in> insert i (set hs) \<union> set pre"
      "distinct pre" "set pre \<inter> insert i (set hs) = {}"
      by fastforce
    with False show ?thesis by (intro exI [of _ "i # pre"] exI [of _ post]) auto
  qed
qed simp

lemma ensure_all_unique_Inl:
  assumes "ensure_all_unique it = Inl x"
  shows "2 \<le> count_list it x"
proof -
  from assms obtain pre post where it: "it = pre @ x # post" and "x \<in> set pre"
    unfolding ensure_all_unique_def by (auto dest: unique_loop_Inl)
  then have "0 < count_list pre x" using count_list_0_iff by fastforce
  with it show ?thesis by simp
qed

lemma attempt_with_Inr [res_simps]: "attempt_with s f r = Inr u \<longleftrightarrow> r = Inr u"
  by (cases r) (auto simp: attempt_with_def)

lemma check_endpoints_Inr:
  "check_endpoints fs gw eps = Inr u \<longleftrightarrow> (\<forall>ep \<in> set eps. af_assembly ep \<in> set fs)"
  by (induction eps) auto

lemma check_gateways_Inr:
  "check_gateways fs gws = Inr u \<longleftrightarrow>
     (\<forall>gw \<in> set gws. \<forall>(p, eps) \<in> set (gw_endpoints gw). \<forall>(m, ep) \<in> set eps. af_assembly ep \<in> set fs)"
  by (induction gws) (fastforce simp: res_bind_Inr check_endpoints_Inr)+

lemma attempt_with_Inl [res_simps]: "attempt_with s f r = Inl e \<longleftrightarrow> (\<exists>x. r = Inl x \<and> e = (s, f x))"
  by (cases r) (auto simp: attempt_with_def)

lemma check_endpoints_Inl:
  "check_endpoints fs gw eps = Inl e \<Longrightarrow> \<exists>f. e = UnknownFunctionInGateway f gw \<and> f \<notin> set fs"
  by (induction eps) (auto split: if_splits)

lemma check_gateways_Inl:
  "check_gateways fs gws = Inl e \<Longrightarrow>
     \<exists>f g. e = UnknownFunctionInGateway f g \<and> f \<notin> set fs \<and> g \<in> gw_name ` set gws"
  by (induction gws) (auto simp: res_bind_Inl dest!: check_endpoints_Inl)

lemma distinct_gateway_paths:
  assumes "distinct (map fst (gw_endpoints g))"
    and "\<forall>(p, eps) \<in> set (gw_endpoints g). distinct (map fst eps)"
  shows "distinct (gateway_paths g)"
proof -
  have "distinct (concat (map (\<lambda>(path, eps). map (\<lambda>ep. (path, fst ep)) eps) xs))"
    if "distinct (map fst xs)" "\<forall>(p, eps) \<in> set xs. distinct (map fst eps)"
    for xs :: "(string \<times> (HttpMethod \<times> AssemblyAndFunction) list) list"
    using that
  proof (induction xs)
    case (Cons x xs)
    obtain p eps where x: "x = (p, eps)" by (cases x)
    with Cons.prems have "distinct (map fst eps)" by simp
    then have "distinct (map (\<lambda>ep. (p, fst ep)) eps)"
      by (auto simp: distinct_map inj_on_def)
    with Cons x show ?case by force
  qed simp
  with assms show ?thesis by (simp add: gateway_paths_def)
qed

lemma duplicate_endpoint_None:
  "(\<And>g. g \<in> set gws \<Longrightarrow> distinct (gateway_paths g)) \<Longrightarrow> duplicate_endpoint err gws = err"
proof (induction gws)
  case (Cons g gws)
  then have "ensure_all_unique (gateway_paths g) = Inr ()" by (simp add: ensure_all_unique_Inr)
  with Cons show ?case by simp
qed simp

lemma stack_wf_no_duplicate_endpoint:
  assumes "stack_wf s"
  shows "duplicate_endpoint None (gateways s) = None"
proof (rule duplicate_endpoint_None)
  fix g assume "g \<in> set (gateways s)"
  then have "service_wf (GatewayService g)"
    using assms by (simp add: in_gateways stack_wf_def)
  then show "distinct (gateway_paths g)"
    by (intro distinct_gateway_paths) (simp_all add: service_wf_def)
qed

text \<open>What a validated stack guarantees to the components that deploy it.\<close>

definition names_unique :: "Stack \<Rightarrow> bool" where
  "names_unique s \<longleftrightarrow>
     distinct (map fn_name (stack_functions s)) \<and> distinct (map nd_name (key_value_tables s))
     \<and> distinct (map gw_name (gateways s)) \<and> distinct (map nd_name (storages s))"

definition endpoints_resolve :: "Stack \<Rightarrow> bool" where
  "endpoints_resolve s \<longleftrightarrow>
     (\<forall>g \<in> set (gateways s). \<forall>(p, eps) \<in> set (gw_endpoints g). \<forall>(m, ep) \<in> set eps.
        af_assembly ep \<in> set (map fn_name (stack_functions s)))"

lemma validate_correct:
  assumes "stack_wf s"
  shows "validate s = Inr v \<longleftrightarrow> v = ValidatedStack s \<and> names_unique s \<and> endpoints_resolve s"
  using stack_wf_no_duplicate_endpoint [OF assms]
  by (auto simp: validate_def res_simps ensure_all_unique_Inr ensure_gateway_functions_correct_def
      check_gateways_Inr names_unique_def endpoints_resolve_def)

section \<open>Properties\<close>

text \<open>
  C27. Validation decides exactly this: a stack is accepted if and only if function, table,
  gateway and storage names are unique and every gateway endpoint routes to a function of the
  stack; the accepted stack is the one given.
\<close>

theorem validate_accepts_iff:
  assumes "stack_wf s"
  shows "validate s = Inr v \<longleftrightarrow> v = ValidatedStack s \<and> names_unique s \<and> endpoints_resolve s"
  by (rule validate_correct [OF assms])

definition sample_function :: Function where
  "sample_function = \<lparr>fn_name = ''f'', fn_binary = ''f.wasm'', fn_runtime = Wasi1_0, fn_env = [],
     fn_memory_limit = 1000\<rparr>"

definition sample_gateway :: Gateway where
  "sample_gateway = \<lparr>gw_name = ''g'',
     gw_endpoints = [(''/hello'', [(Get, \<lparr>af_assembly = ''f'', af_function = ''hello''\<rparr>)])]\<rparr>"

definition sample_stack :: Stack where
  "sample_stack = \<lparr>st_name = ''s'', st_version = ''1'',
     st_services = [FunctionService sample_function, GatewayService sample_gateway,
       KeyValueTable \<lparr>nd_name = ''t'', nd_delete = None\<rparr>]\<rparr>"

lemma sample_stack_wf: "stack_wf sample_stack"
  by (simp add: sample_stack_def stack_wf_def service_wf_def sample_gateway_def sample_function_def)

theorem validate_accepts_iff_witness:
  "validate sample_stack = Inr (ValidatedStack sample_stack)"
  by (subst validate_accepts_iff [OF sample_stack_wf])
    (simp add: sample_stack_def sample_gateway_def sample_function_def names_unique_def
      endpoints_resolve_def stack_functions_def gateways_def key_value_tables_def storages_def)

text \<open>
  Every rejection is justified: the error returned comes with the unchanged stack and
  names a duplicate or an unresolved function that is really there; the duplicate endpoint
  error is never produced.
\<close>

theorem validate_error_justified:
  assumes "stack_wf s" and "validate s = Inl (s', e)"
  shows "s' = s \<and> (case e of
      DuplicateFunctionName n \<Rightarrow> 2 \<le> count_list (map fn_name (stack_functions s)) n
    | DuplicateTableName n \<Rightarrow> 2 \<le> count_list (map nd_name (key_value_tables s)) n
    | DuplicateGatewayName n \<Rightarrow> 2 \<le> count_list (map gw_name (gateways s)) n
    | DuplicateStorageName n \<Rightarrow> 2 \<le> count_list (map nd_name (storages s)) n
    | UnknownFunctionInGateway f g \<Rightarrow> f \<notin> fn_name ` set (stack_functions s) \<and> g \<in> gw_name ` set (gateways s)
    | DuplicateEndpointInGateway g p m \<Rightarrow> False)"
  using assms(2) stack_wf_no_duplicate_endpoint [OF assms(1)]
  by (auto simp: validate_def res_simps ensure_gateway_functions_correct_def
      dest!: ensure_all_unique_Inl check_gateways_Inl)

definition clashing_stack :: Stack where
  "clashing_stack = sample_stack\<lparr>st_services := st_services sample_stack @ [FunctionService sample_function]\<rparr>"

theorem validate_error_justified_witness:
  "validate clashing_stack = Inl (clashing_stack, DuplicateFunctionName ''f'')
   \<and> 2 \<le> count_list (map fn_name (stack_functions clashing_stack)) ''f''"
proof -
  have wf: "stack_wf clashing_stack"
    using sample_stack_wf by (simp add: clashing_stack_def stack_wf_def service_wf_def sample_function_def)
  have "validate clashing_stack = Inl (clashing_stack, DuplicateFunctionName ''f'')"
    by (simp add: validate_def attempt_with_def ensure_all_unique_def stack_functions_def clashing_stack_def
        sample_stack_def sample_function_def)
  with validate_error_justified [OF wf this] show ?thesis by simp
qed

end
