(* ===== verification/Stack_Proto.thy ===== *)
theory Stack_Proto
  imports Stack_Validation
begin

text \<open>
  Conversion of stacks to and from their protobuf messages,
  \<open>src/rust-libs/mu_stack/src/protobuf.rs\<close> with the messages of
  \<open>src/rust-libs/mu_stack/protos/stack.proto\<close>. An \<open>EnumOrUnknown\<close> is the integer on the
  wire. The byte encoding of the generated message classes is a pair of parameters.
\<close>

section \<open>Messages\<close>

datatype PbHttpMethod = GET | HEAD | POST | PUT | PATCH | DELETE | OPTIONS

datatype PbFunctionRuntime = WASI1_0

type_synonym enum_or_unknown = int

fun pb_method_value :: "PbHttpMethod \<Rightarrow> enum_or_unknown" where
  "pb_method_value GET = 0"
| "pb_method_value HEAD = 1"
| "pb_method_value POST = 2"
| "pb_method_value PUT = 3"
| "pb_method_value PATCH = 4"
| "pb_method_value DELETE = 5"
| "pb_method_value OPTIONS = 6"

definition pb_method_enum_value :: "enum_or_unknown \<Rightarrow> int + PbHttpMethod" where
  "pb_method_enum_value i =
     (case find (\<lambda>m. pb_method_value m = i) [GET, HEAD, POST, PUT, PATCH, DELETE, OPTIONS] of
        Some m \<Rightarrow> Inr m | None \<Rightarrow> Inl i)"

definition pb_runtime_enum_value :: "enum_or_unknown \<Rightarrow> int + PbFunctionRuntime" where
  "pb_runtime_enum_value i = (if i = 0 then Inr WASI1_0 else Inl i)"

record PbNameAndDelete =
  pnd_name :: string
  pnd_delete :: bool

record PbGatewayEndpoint =
  pge_method :: enum_or_unknown
  pge_route_to_assembly :: string
  pge_route_to_function :: string

record PbGatewayEndpoints =
  pges_path :: string
  pges_endpoints :: "PbGatewayEndpoint list"

record PbGateway =
  pgw_name :: string
  pgw_endpoints :: "PbGatewayEndpoints list"

record PbEnvVar =
  pev_name :: string
  pev_value :: string

record PbFunction =
  pfn_name :: string
  pfn_binary :: string
  pfn_runtime :: enum_or_unknown
  pfn_env :: "PbEnvVar list"
  pfn_memoryLimit :: u64

datatype PbServiceKind = PbGatewayService PbGateway | PbFunctionService PbFunction
  | PbKeyValueTable PbNameAndDelete | PbStorageName PbNameAndDelete

type_synonym PbService = "PbServiceKind option"

record PbStack =
  pst_name :: string
  pst_version :: string
  pst_services :: "PbService list"

section \<open>To protobuf\<close>

fun convert_http_method :: "HttpMethod \<Rightarrow> enum_or_unknown" where
  "convert_http_method Get = pb_method_value GET"
| "convert_http_method Post = pb_method_value POST"
| "convert_http_method Patch = pb_method_value PATCH"
| "convert_http_method Put = pb_method_value PUT"
| "convert_http_method Delete = pb_method_value DELETE"
| "convert_http_method Head = pb_method_value HEAD"
| "convert_http_method Options = pb_method_value OPTIONS"

fun convert_function_runtime :: "AssemblyRuntime \<Rightarrow> enum_or_unknown" where
  "convert_function_runtime Wasi1_0 = 0"

definition endpoint_to_proto :: "HttpMethod \<times> AssemblyAndFunction \<Rightarrow> PbGatewayEndpoint" where
  "endpoint_to_proto ep =
     \<lparr>pge_method = convert_http_method (fst ep), pge_route_to_assembly = af_assembly (snd ep),
      pge_route_to_function = af_function (snd ep)\<rparr>"

definition endpoints_to_proto ::
  "string \<times> (HttpMethod, AssemblyAndFunction) hash_map \<Rightarrow> PbGatewayEndpoints" where
  "endpoints_to_proto pe =
     \<lparr>pges_path = fst pe, pges_endpoints = map endpoint_to_proto (snd pe)\<rparr>"

definition env_to_proto :: "string \<times> string \<Rightarrow> PbEnvVar" where
  "env_to_proto nv = \<lparr>pev_name = fst nv, pev_value = snd nv\<rparr>"

fun service_to_proto :: "Service \<Rightarrow> PbService" where
  "service_to_proto (KeyValueTable t) =
     Some (PbKeyValueTable \<lparr>pnd_name = nd_name t, pnd_delete = (nd_delete t = Some True)\<rparr>)"
| "service_to_proto (Storage s) =
     Some (PbStorageName \<lparr>pnd_name = nd_name s, pnd_delete = (nd_delete s = Some True)\<rparr>)"
| "service_to_proto (GatewayService g) =
     Some (PbGatewayService \<lparr>pgw_name = gw_name g, pgw_endpoints = map endpoints_to_proto (gw_endpoints g)\<rparr>)"
| "service_to_proto (FunctionService f) =
     Some (PbFunctionService \<lparr>pfn_name = fn_name f, pfn_binary = fn_binary f,
       pfn_runtime = convert_function_runtime (fn_runtime f), pfn_env = map env_to_proto (fn_env f),
       pfn_memoryLimit = fn_memory_limit f\<rparr>)"

definition stack_to_proto :: "Stack \<Rightarrow> PbStack" where
  "stack_to_proto s =
     \<lparr>pst_name = st_name s, pst_version = st_version s, pst_services = map service_to_proto (st_services s)\<rparr>"

section \<open>From protobuf\<close>

datatype proto_error = UnknownHttpMethod int | UnknownFunctionRuntime int | BlankService | ProtoParse

fun method_of_pb :: "PbHttpMethod \<Rightarrow> HttpMethod" where
  "method_of_pb GET = Get"
| "method_of_pb POST = Post"
| "method_of_pb PATCH = Patch"
| "method_of_pb PUT = Put"
| "method_of_pb DELETE = Delete"
| "method_of_pb HEAD = Head"
| "method_of_pb OPTIONS = Options"

definition convert_http_method_back :: "enum_or_unknown \<Rightarrow> proto_error + HttpMethod" where
  "convert_http_method_back m =
     map_err UnknownHttpMethod (res_bind (pb_method_enum_value m) (\<lambda>e. Inr (method_of_pb e)))"

definition convert_function_runtime_back :: "enum_or_unknown \<Rightarrow> proto_error + AssemblyRuntime" where
  "convert_function_runtime_back r =
     map_err UnknownFunctionRuntime (res_bind (pb_runtime_enum_value r) (\<lambda>_. Inr Wasi1_0))"

definition endpoint_from_proto :: "PbGatewayEndpoint \<Rightarrow> proto_error + (HttpMethod \<times> AssemblyAndFunction)" where
  "endpoint_from_proto ep =
     res_bind (convert_http_method_back (pge_method ep)) (\<lambda>m.
       Inr (m, \<lparr>af_assembly = pge_route_to_assembly ep, af_function = pge_route_to_function ep\<rparr>))"

definition endpoints_from_proto ::
  "PbGatewayEndpoints \<Rightarrow> proto_error + (string \<times> (HttpMethod, AssemblyAndFunction) hash_map)" where
  "endpoints_from_proto eps =
     res_bind (collect_res endpoint_from_proto (pges_endpoints eps)) (\<lambda>es.
       Inr (pges_path eps, hm_from_pairs es))"

fun service_from_proto :: "PbService \<Rightarrow> proto_error + Service" where
  "service_from_proto None = Inl BlankService"
| "service_from_proto (Some (PbKeyValueTable d)) =
     Inr (KeyValueTable \<lparr>nd_name = pnd_name d, nd_delete = Some (pnd_delete d)\<rparr>)"
| "service_from_proto (Some (PbStorageName s)) =
     Inr (Storage \<lparr>nd_name = pnd_name s, nd_delete = Some (pnd_delete s)\<rparr>)"
| "service_from_proto (Some (PbGatewayService g)) =
     res_bind (collect_res endpoints_from_proto (pgw_endpoints g)) (\<lambda>eps.
       Inr (GatewayService \<lparr>gw_name = pgw_name g, gw_endpoints = hm_from_pairs eps\<rparr>))"
| "service_from_proto (Some (PbFunctionService f)) =
     res_bind (convert_function_runtime_back (pfn_runtime f)) (\<lambda>r.
       Inr (FunctionService \<lparr>fn_name = pfn_name f, fn_binary = pfn_binary f, fn_runtime = r,
         fn_env = hm_from_pairs (map (\<lambda>e. (pev_name e, pev_value e)) (pfn_env f)),
         fn_memory_limit = pfn_memoryLimit f\<rparr>))"

definition stack_from_proto :: "PbStack \<Rightarrow> proto_error + Stack" where
  "stack_from_proto s =
     res_bind (collect_res service_from_proto (pst_services s)) (\<lambda>vs.
       Inr \<lparr>st_name = pst_name s, st_version = pst_version s, st_services = vs\<rparr>)"

text \<open>
  The byte level: \<open>pb_write\<close> and \<open>pb_parse\<close> stand for \<open>write_to_bytes\<close> and
  \<open>parse_from_bytes\<close> of the generated message class; both may fail.
\<close>

definition serialize_to_proto :: "(PbStack \<Rightarrow> bytes option) \<Rightarrow> Stack \<Rightarrow> proto_error + bytes" where
  "serialize_to_proto pb_write s = ok_or ProtoParse (pb_write (stack_to_proto s))"

definition try_deserialize_proto :: "(bytes \<Rightarrow> PbStack option) \<Rightarrow> bytes \<Rightarrow> proto_error + Stack" where
  "try_deserialize_proto pb_parse b = res_bind (ok_or ProtoParse (pb_parse b)) stack_from_proto"

section \<open>Round trips\<close>

text \<open>An absent \<open>delete\<close> flag comes back as an explicit \<open>false\<close>; nothing else changes.\<close>

fun norm_delete :: "NameAndDelete \<Rightarrow> NameAndDelete" where
  "norm_delete t = t\<lparr>nd_delete := Some (nd_delete t = Some True)\<rparr>"

fun norm_service :: "Service \<Rightarrow> Service" where
  "norm_service (KeyValueTable t) = KeyValueTable (norm_delete t)"
| "norm_service (Storage t) = Storage (norm_delete t)"
| "norm_service v = v"

definition norm_stack :: "Stack \<Rightarrow> Stack" where
  "norm_stack s = s\<lparr>st_services := map norm_service (st_services s)\<rparr>"

lemma convert_http_method_roundtrip: "convert_http_method_back (convert_http_method m) = Inr m"
  by (cases m) (simp_all add: convert_http_method_back_def pb_method_enum_value_def)

lemma convert_runtime_roundtrip: "convert_function_runtime_back (convert_function_runtime r) = Inr r"
  by (cases r) (simp_all add: convert_function_runtime_back_def pb_runtime_enum_value_def)

interpretation endpoint_conv: exact_conversion endpoint_to_proto endpoint_from_proto "\<lambda>_. True"
  by unfold_locales
    (simp add: endpoint_to_proto_def endpoint_from_proto_def convert_http_method_roundtrip prod_eq_iff)

interpretation endpoints_conv: exact_conversion endpoints_to_proto endpoints_from_proto
  "\<lambda>pe. distinct (map fst (snd pe))"
  by unfold_locales
    (simp add: endpoints_to_proto_def endpoints_from_proto_def endpoint_conv.dec_enc_exact_list hm_from_pairs_id)

interpretation service_conv: conversion service_to_proto service_from_proto service_wf norm_service
proof
  fix v assume wf: "service_wf v"
  show "service_from_proto (service_to_proto v) = Inr (norm_service v)"
  proof (cases v)
    case (GatewayService g)
    have "collect_res endpoints_from_proto (map endpoints_to_proto (gw_endpoints g)) = Inr (gw_endpoints g)"
      by (rule endpoints_conv.dec_enc_exact_list) (use wf GatewayService in \<open>auto simp: service_wf_def\<close>)
    then show ?thesis using wf GatewayService by (simp add: service_wf_def hm_from_pairs_id)
  next
    case (FunctionService f)
    then show ?thesis
      using wf by (simp add: service_wf_def env_to_proto_def comp_def hm_from_pairs_id convert_runtime_roundtrip)
  qed simp_all
qed

interpretation stack_conv: conversion stack_to_proto stack_from_proto stack_wf norm_stack
  by unfold_locales
    (simp add: stack_wf_def stack_to_proto_def stack_from_proto_def norm_stack_def service_conv.dec_enc_list)

text \<open>The decoder only builds maps with distinct keys, whatever the message holds.\<close>

lemma endpoints_from_proto_wf:
  "endpoints_from_proto e = Inr pe \<Longrightarrow> distinct (map fst (snd pe))"
  by (auto simp: endpoints_from_proto_def res_simps)

lemma service_from_proto_wf: "service_from_proto p = Inr v \<Longrightarrow> service_wf v"
proof (induction p rule: service_from_proto.induct)
  case (4 g)
  then obtain eps where c: "collect_res endpoints_from_proto (pgw_endpoints g) = Inr eps"
    and v: "v = GatewayService \<lparr>gw_name = pgw_name g, gw_endpoints = hm_from_pairs eps\<rparr>"
    by (auto simp: res_simps)
  have "distinct (map fst (snd pe))" if "pe \<in> set eps" for pe
    by (rule collect_res_Inr_all [OF c endpoints_from_proto_wf that])
  with v hm_from_pairs_subset [of eps] show ?case by (auto simp: service_wf_def)
qed (auto simp: service_wf_def res_simps)

lemma stack_from_proto_wf: "stack_from_proto p = Inr s \<Longrightarrow> stack_wf s"
  by (auto simp: stack_from_proto_def stack_wf_def res_simps intro: collect_res_Inr_all service_from_proto_wf)

lemma norm_service_views:
  "(case norm_service x of FunctionService f \<Rightarrow> Some f | _ \<Rightarrow> None) =
     (case x of FunctionService f \<Rightarrow> Some f | _ \<Rightarrow> None)"
  "(case norm_service x of GatewayService g \<Rightarrow> Some g | _ \<Rightarrow> None) =
     (case x of GatewayService g \<Rightarrow> Some g | _ \<Rightarrow> None)"
  "map_option nd_name (case norm_service x of KeyValueTable t \<Rightarrow> Some t | _ \<Rightarrow> None) =
     map_option nd_name (case x of KeyValueTable t \<Rightarrow> Some t | _ \<Rightarrow> None)"
  "map_option nd_name (case norm_service x of Storage t \<Rightarrow> Some t | _ \<Rightarrow> None) =
     map_option nd_name (case x of Storage t \<Rightarrow> Some t | _ \<Rightarrow> None)"
  by (cases x; simp)+

lemma norm_stack_views:
  "stack_functions (norm_stack s) = stack_functions s"
  "gateways (norm_stack s) = gateways s"
  "map nd_name (key_value_tables (norm_stack s)) = map nd_name (key_value_tables s)"
  "map nd_name (storages (norm_stack s)) = map nd_name (storages s)"
  by (simp_all add: stack_functions_def gateways_def key_value_tables_def storages_def norm_stack_def
      filter_map_map map_filter_map norm_service_views)

lemma service_wf_norm [simp]: "service_wf (norm_service v) = service_wf v"
  by (cases v) (simp_all add: service_wf_def)

lemma stack_wf_norm: "stack_wf s \<Longrightarrow> stack_wf (norm_stack s)"
  by (auto simp: stack_wf_def norm_stack_def)

lemma norm_stack_valid:
  "names_unique (norm_stack s) \<and> endpoints_resolve (norm_stack s) \<longleftrightarrow> names_unique s \<and> endpoints_resolve s"
  by (simp add: names_unique_def endpoints_resolve_def norm_stack_views)

section \<open>Properties\<close>

text \<open>
  C35. A stack survives the round trip through its protobuf form: deserializing what was
  serialized gives the same stack, with absent \<open>delete\<close> flags made explicit.
\<close>

theorem stack_proto_roundtrip:
  assumes "stack_wf s"
    and "\<And>p b. pb_write p = Some b \<Longrightarrow> pb_parse b = Some p"
    and "serialize_to_proto pb_write s = Inr b"
  shows "try_deserialize_proto pb_parse b = Inr (norm_stack s)"
  using assms(2,3) stack_conv.dec_enc [OF assms(1)]
  by (auto simp: serialize_to_proto_def try_deserialize_proto_def ok_or_Inr)

definition pb_write_sample :: "PbStack \<Rightarrow> bytes option" where
  "pb_write_sample p = (if p = stack_to_proto sample_stack then Some [42] else None)"

definition pb_parse_sample :: "bytes \<Rightarrow> PbStack option" where
  "pb_parse_sample b = (if b = [42] then Some (stack_to_proto sample_stack) else None)"

theorem stack_proto_roundtrip_witness:
  "try_deserialize_proto pb_parse_sample [42] = Inr (norm_stack sample_stack)
   \<and> norm_stack sample_stack \<noteq> sample_stack"
proof
  show "try_deserialize_proto pb_parse_sample [42] = Inr (norm_stack sample_stack)"
    by (rule stack_proto_roundtrip [OF sample_stack_wf, where pb_write = pb_write_sample])
      (simp_all add: pb_write_sample_def pb_parse_sample_def serialize_to_proto_def split: if_splits)
qed (simp add: norm_stack_def sample_stack_def)



end
