(* ===== verification/Marketplace.thy ===== *)
theory Marketplace
  imports Rust_Str
begin

text \<open>
  The Solana program \<open>src/marketplace/programs/marketplace/src/lib.rs\<close>: pricing of usage, the
  accounts of the program and every instruction with the constraints of its account struct.

  An instruction is a function from the keys the caller names and its arguments to a new
  ledger or an error; a failed instruction leaves the ledger as it was. The runtime around the
  program is a parameter \<open>'t solana\<close>: program address derivation, the SPL token program with
  its own state \<open>'t\<close>, and whether overflow checks are compiled in. \<open>signers\<close> are the keys that
  signed the transaction. Rent and lamports are not modelled; account sizes are.
\<close>

type_synonym pubkey = bytes

section \<open>The runtime\<close>

record 't solana =
  ovf_checks :: bool
  create_pda :: "bytes list \<Rightarrow> u8 \<Rightarrow> pubkey option"
  find_pda :: "bytes list \<Rightarrow> pubkey \<times> u8"
  tok_is_mint :: "'t \<Rightarrow> pubkey \<Rightarrow> bool"
  tok_is_account :: "'t \<Rightarrow> pubkey \<Rightarrow> bool"
  tok_init :: "pubkey \<Rightarrow> pubkey \<Rightarrow> pubkey \<Rightarrow> 't \<Rightarrow> 't option"
  tok_transfer :: "pubkey \<Rightarrow> pubkey \<Rightarrow> pubkey \<Rightarrow> u64 \<Rightarrow> 't \<Rightarrow> 't option"
  tok_balance :: "'t \<Rightarrow> pubkey \<Rightarrow> nat"
  tok_may_spend :: "'t \<Rightarrow> pubkey \<Rightarrow> pubkey \<Rightarrow> bool"

definition le_bytes :: "nat \<Rightarrow> 'a::len word \<Rightarrow> bytes" where
  "le_bytes n w = map (\<lambda>i. ucast (drop_bit (8 * i) w)) [0..<n]"

lemma length_le_bytes [simp]: "length (le_bytes n w) = n"
  by (simp add: le_bytes_def)

section \<open>Accounts\<close>

record MuState =
  ms_authority :: pubkey
  ms_mint :: pubkey
  ms_deposit_token :: pubkey
  ms_commission_token :: pubkey
  ms_commission_rate_micros :: u32
  ms_provider_deposit :: u64
  ms_bump :: u8

record ProviderAuthorizer =
  pa_authorizer :: pubkey
  pa_bump :: u8

record Provider =
  pr_owner :: pubkey
  pr_authorized :: bool
  pr_name :: string
  pr_deposit :: u64
  pr_bump :: u8

record ServiceRates =
  function_mb_tera_instructions :: u64
  db_gigabyte_months :: u64
  million_db_reads :: u64
  million_db_writes :: u64
  million_gateway_requests :: u64
  gigabytes_gateway_traffic :: u64

record ServiceUsage =
  su_function_mb_instructions :: u128
  su_db_bytes_seconds :: u128
  su_db_reads :: u64
  su_db_writes :: u64
  su_gateway_requests :: u64
  su_gateway_traffic_bytes :: u64

record ProviderRegion =
  rg_provider :: pubkey
  rg_region_num :: u32
  rg_rates :: ServiceRates
  rg_min_escrow_balance :: u64
  rg_max_giga_instructions_per_call :: u32
  rg_bump :: u8
  rg_name :: string
  rg_base_url :: string

datatype StackState = StackActive u32 string bytes | StackDeleted

record StackAccount =
  sk_user :: pubkey
  sk_region :: pubkey
  sk_seed :: u64
  sk_bump :: u8
  sk_state :: StackState

record ApiRequestSigner =
  rs_signer :: pubkey
  rs_user :: pubkey
  rs_region :: pubkey
  rs_bump :: u8
  rs_active :: bool

record AuthorizedUsageSigner =
  us_signer :: pubkey
  us_token_account :: pubkey

record UsageUpdate =
  uu_region :: pubkey
  uu_stack :: pubkey
  uu_seed :: u128
  uu_usage :: ServiceUsage

datatype account =
    AMuState MuState
  | AAuthorizer ProviderAuthorizer
  | AProvider Provider
  | ARegion ProviderRegion
  | AStack StackAccount
  | ARequestSigner ApiRequestSigner
  | AUsageSigner AuthorizedUsageSigner
  | AUsageUpdate UsageUpdate

text \<open>The ledger: the accounts the program owns and the state of the token program.\<close>

record 't ledger =
  accts :: "pubkey \<Rightarrow> account option"
  toks :: 't

text \<open>The borsh encoding of an account occupies this many bytes, after an 8 byte discriminator.\<close>

fun stack_state_size :: "StackState \<Rightarrow> nat" where
  "stack_state_size (StackActive revision name stack_data) = 1 + 4 + (4 + length name) + (4 + length stack_data)"
| "stack_state_size StackDeleted = 1"

fun borsh_size :: "account \<Rightarrow> nat" where
  "borsh_size (AMuState s) = 32 + 32 + 32 + 32 + 4 + 8 + 1"
| "borsh_size (AAuthorizer a) = 32 + 1"
| "borsh_size (AProvider p) = 32 + 1 + (4 + length (pr_name p)) + 8 + 1"
| "borsh_size (ARegion r) = 32 + 4 + 6 * 8 + 8 + 4 + 1 + (4 + length (rg_name r)) + (4 + length (rg_base_url r))"
| "borsh_size (AStack s) = 32 + 32 + 8 + 1 + stack_state_size (sk_state s)"
| "borsh_size (ARequestSigner r) = 32 + 32 + 32 + 1 + 1"
| "borsh_size (AUsageSigner u) = 32 + 32"
| "borsh_size (AUsageUpdate u) = 32 + 32 + 16 + (16 + 16 + 8 + 8 + 8 + 8)"

section \<open>Errors and account loading\<close>

datatype market_error =
    ProviderNotAuthorized
  | CommissionRateOutOfBounds
  | CannotOperateOnDeletedStack
  | ConstraintViolated
  | AccountDidNotSerialize
  | TokenError
  | Panicked

definition ensure :: "bool \<Rightarrow> market_error \<Rightarrow> market_error + unit" where
  "ensure b e = (if b then Inr () else Inl e)"

definition load_state :: "'t ledger \<Rightarrow> pubkey \<Rightarrow> market_error + MuState" where
  "load_state l k = (case accts l k of Some (AMuState s) \<Rightarrow> Inr s | _ \<Rightarrow> Inl ConstraintViolated)"

definition load_authorizer :: "'t ledger \<Rightarrow> pubkey \<Rightarrow> market_error + ProviderAuthorizer" where
  "load_authorizer l k = (case accts l k of Some (AAuthorizer s) \<Rightarrow> Inr s | _ \<Rightarrow> Inl ConstraintViolated)"

definition load_provider :: "'t ledger \<Rightarrow> pubkey \<Rightarrow> market_error + Provider" where
  "load_provider l k = (case accts l k of Some (AProvider s) \<Rightarrow> Inr s | _ \<Rightarrow> Inl ConstraintViolated)"

definition load_region :: "'t ledger \<Rightarrow> pubkey \<Rightarrow> market_error + ProviderRegion" where
  "load_region l k = (case accts l k of Some (ARegion s) \<Rightarrow> Inr s | _ \<Rightarrow> Inl ConstraintViolated)"

definition load_stack :: "'t ledger \<Rightarrow> pubkey \<Rightarrow> market_error + StackAccount" where
  "load_stack l k = (case accts l k of Some (AStack s) \<Rightarrow> Inr s | _ \<Rightarrow> Inl ConstraintViolated)"

definition load_request_signer :: "'t ledger \<Rightarrow> pubkey \<Rightarrow> market_error + ApiRequestSigner" where
  "load_request_signer l k =
     (case accts l k of Some (ARequestSigner s) \<Rightarrow> Inr s | _ \<Rightarrow> Inl ConstraintViolated)"

definition load_usage_signer :: "'t ledger \<Rightarrow> pubkey \<Rightarrow> market_error + AuthorizedUsageSigner" where
  "load_usage_signer l k =
     (case accts l k of Some (AUsageSigner s) \<Rightarrow> Inr s | _ \<Rightarrow> Inl ConstraintViolated)"

text \<open>
  Anchor's constraints. \<open>seeds, bump = b\<close> recomputes the address with the given bump, \<open>init\<close>
  derives the canonical address, requires it to be unused and returns its bump; \<open>store\<close> writes
  an account back into the space reserved for it.
\<close>

definition seeds_ok :: "'t solana \<Rightarrow> bytes list \<Rightarrow> u8 \<Rightarrow> pubkey \<Rightarrow> bool" where
  "seeds_ok sol seeds b k \<longleftrightarrow> create_pda sol seeds b = Some k"

definition init_pda :: "'t solana \<Rightarrow> bytes list \<Rightarrow> pubkey \<Rightarrow> 't ledger \<Rightarrow> market_error + u8" where
  "init_pda sol seeds k l =
     (let (addr, bump) = find_pda sol seeds in
      if addr = k \<and> accts l k = None \<and> \<not> tok_is_account sol (toks l) k \<and> \<not> tok_is_mint sol (toks l) k
      then Inr bump else Inl ConstraintViolated)"

definition store :: "nat \<Rightarrow> pubkey \<Rightarrow> account \<Rightarrow> 't ledger \<Rightarrow> market_error + 't ledger" where
  "store space k a l =
     (if 8 + borsh_size a \<le> space then Inr (l\<lparr>accts := (accts l)(k \<mapsto> a)\<rparr>) else Inl AccountDidNotSerialize)"

definition init_token ::
  "'t solana \<Rightarrow> bytes list \<Rightarrow> pubkey \<Rightarrow> pubkey \<Rightarrow> pubkey \<Rightarrow> 't ledger \<Rightarrow> market_error + 't ledger" where
  "init_token sol seeds k mint authority l =
     res_bind (init_pda sol seeds k l) (\<lambda>_.
       case tok_init sol k mint authority (toks l) of
         None \<Rightarrow> Inl ConstraintViolated | Some t \<Rightarrow> Inr (l\<lparr>toks := t\<rparr>))"

definition transfer ::
  "'t solana \<Rightarrow> pubkey \<Rightarrow> pubkey \<Rightarrow> pubkey \<Rightarrow> u64 \<Rightarrow> 't ledger \<Rightarrow> market_error + 't ledger" where
  "transfer sol from_k to_k authority amount l =
     (case tok_transfer sol from_k to_k authority amount (toks l) of
        None \<Rightarrow> Inl TokenError | Some t \<Rightarrow> Inr (l\<lparr>toks := t\<rparr>))"

section \<open>Pricing\<close>

text \<open>
  The sum is evaluated from left to right. Two of its terms are computed in 128 bits and cut
  to 64 bits by \<open>as u64\<close>; the others are 64 bit products.
\<close>

definition price_u128 :: "bool \<Rightarrow> u64 \<Rightarrow> u128 \<Rightarrow> u128 \<Rightarrow> u64 option" where
  "price_u128 ovf rate amount unit =
     Option.bind (arith_mul ovf (ucast rate) amount) (\<lambda>p. Some (ucast (p div unit)))"

definition price_u64 :: "bool \<Rightarrow> u64 \<Rightarrow> u64 \<Rightarrow> u64 \<Rightarrow> u64 option" where
  "price_u64 ovf rate amount unit = Option.bind (arith_mul ovf rate amount) (\<lambda>p. Some (p div unit))"

definition add_price :: "bool \<Rightarrow> u64 option \<Rightarrow> u64 option \<Rightarrow> u64 option" where
  "add_price ovf m n = Option.bind m (\<lambda>x. Option.bind n (\<lambda>y. arith_add ovf x y))"

definition calc_usage :: "bool \<Rightarrow> ServiceRates \<Rightarrow> ServiceUsage \<Rightarrow> u64 option" where
  "calc_usage ovf rates usage =
     add_price ovf (add_price ovf (add_price ovf (add_price ovf (add_price ovf
       (price_u128 ovf (function_mb_tera_instructions rates) (su_function_mb_instructions usage) 1000000000000)
       (price_u128 ovf (db_gigabyte_months rates) (su_db_bytes_seconds usage)
          (1024 * 1024 * 1024 * 60 * 60 * 24 * 30)))
       (price_u64 ovf (million_db_reads rates) (su_db_reads usage) 1000000))
       (price_u64 ovf (million_db_writes rates) (su_db_writes usage) 1000000))
       (price_u64 ovf (million_gateway_requests rates) (su_gateway_requests usage) 1000000))
       (price_u64 ovf (gigabytes_gateway_traffic rates) (su_gateway_traffic_bytes usage) (1024 * 1024 * 1024))"

text \<open>The split of a price between the provider and the commission account.\<close>

definition split_price :: "bool \<Rightarrow> u32 \<Rightarrow> u64 \<Rightarrow> (u64 \<times> u64) option" where
  "split_price ovf rate usage_tokens =
     Option.bind (arith_mul ovf usage_tokens (ucast rate :: u64)) (\<lambda>p.
     Option.bind (arith_sub ovf usage_tokens (p div 1000000)) (\<lambda>provider_tokens.
     Some (provider_tokens, p div 1000000)))"

section \<open>Instructions\<close>

definition state_seeds :: "bytes list" where
  "state_seeds = [as_bytes ''state'']"

definition authorizer_seeds :: "pubkey \<Rightarrow> bytes list" where
  "authorizer_seeds k = [as_bytes ''authorizer'', k]"

definition provider_seeds :: "pubkey \<Rightarrow> bytes list" where
  "provider_seeds k = [as_bytes ''provider'', k]"

definition region_seeds :: "pubkey \<Rightarrow> u32 \<Rightarrow> bytes list" where
  "region_seeds owner n = [as_bytes ''region'', owner, le_bytes 4 n]"

definition escrow_seeds :: "pubkey \<Rightarrow> pubkey \<Rightarrow> bytes list" where
  "escrow_seeds user provider = [as_bytes ''escrow'', user, provider]"

definition stack_seeds :: "pubkey \<Rightarrow> pubkey \<Rightarrow> u64 \<Rightarrow> bytes list" where
  "stack_seeds user region seed = [as_bytes ''stack'', user, region, le_bytes 8 seed]"

definition signer_seeds :: "pubkey \<Rightarrow> pubkey \<Rightarrow> pubkey \<Rightarrow> bytes list" where
  "signer_seeds user signer region = [as_bytes ''request_signer'', user, signer, region]"

definition usage_signer_seeds :: "pubkey \<Rightarrow> bytes list" where
  "usage_signer_seeds region = [as_bytes ''authorized_signer'', region]"

definition update_seeds :: "pubkey \<Rightarrow> pubkey \<Rightarrow> u128 \<Rightarrow> bytes list" where
  "update_seeds stack region seed = [as_bytes ''update'', stack, region, le_bytes 16 seed]"

text \<open>Loading the singleton state account, as most account structs do.\<close>

definition get_state :: "'t solana \<Rightarrow> pubkey \<Rightarrow> 't ledger \<Rightarrow> market_error + MuState" where
  "get_state sol state l =
     res_bind (load_state l state) (\<lambda>s.
     res_bind (ensure (seeds_ok sol state_seeds (ms_bump s) state) ConstraintViolated) (\<lambda>_. Inr s))"

text \<open>
  Each instruction has a definition for its account struct, which checks the constraints in
  the order of the fields and returns what the handler reads, and one for its handler.

  By the time the token accounts of \<open>Initialize\<close> are created the address of \<open>state\<close> is taken,
  so neither of them can be that address.
\<close>

definition Initialize_accounts ::
  "'t solana \<Rightarrow> pubkey list \<Rightarrow> pubkey \<Rightarrow> pubkey \<Rightarrow> pubkey \<Rightarrow> pubkey \<Rightarrow> pubkey \<Rightarrow>
     't ledger \<Rightarrow> market_error + u8 \<times> 't ledger" where
  "Initialize_accounts sol signers state mint deposit_token commission_token authority l =
     res_bind (init_pda sol state_seeds state l) (\<lambda>bump.
     res_bind (ensure (tok_is_mint sol (toks l) mint) ConstraintViolated) (\<lambda>_.
     res_bind (ensure (deposit_token \<noteq> state \<and> commission_token \<noteq> state) ConstraintViolated) (\<lambda>_.
     res_bind (init_token sol [as_bytes ''deposit''] deposit_token mint state l) (\<lambda>l.
     res_bind (init_token sol [as_bytes ''commission''] commission_token mint authority l) (\<lambda>l.
     res_bind (ensure (authority \<in> set signers) ConstraintViolated) (\<lambda>_.
     Inr (bump, l)))))))"

definition initialize ::
  "'t solana \<Rightarrow> pubkey list \<Rightarrow> pubkey \<Rightarrow> pubkey \<Rightarrow> pubkey \<Rightarrow> pubkey \<Rightarrow> pubkey \<Rightarrow> u32 \<Rightarrow> u64 \<Rightarrow>
     't ledger \<Rightarrow> market_error + 't ledger" where
  "initialize sol signers state mint deposit_token commission_token authority
     commission_rate_micros provider_deposit l =
     res_bind (Initialize_accounts sol signers state mint deposit_token commission_token authority l) (\<lambda>(bump, l).
     res_bind (ensure (commission_rate_micros \<le> 1000000) CommissionRateOutOfBounds) (\<lambda>_.
     store (8 + 32 + 32 + 32 + 32 + 4 + 8 + 1) state (AMuState
       \<lparr>ms_authority = authority, ms_mint = mint, ms_deposit_token = deposit_token,
        ms_commission_token = commission_token, ms_commission_rate_micros = commission_rate_micros,
        ms_provider_deposit = provider_deposit, ms_bump = bump\<rparr>) l))"

definition UpdateProviderDeposit_accounts ::
  "'t solana \<Rightarrow> pubkey list \<Rightarrow> pubkey \<Rightarrow> pubkey \<Rightarrow> 't ledger \<Rightarrow> market_error + MuState" where
  "UpdateProviderDeposit_accounts sol signers state authority l =
     res_bind (get_state sol state l) (\<lambda>s.
     res_bind (ensure (authority \<in> set signers) ConstraintViolated) (\<lambda>_. Inr s))"

definition update_provider_deposit ::
  "'t solana \<Rightarrow> pubkey list \<Rightarrow> pubkey \<Rightarrow> pubkey \<Rightarrow> u64 \<Rightarrow> 't ledger \<Rightarrow> market_error + 't ledger" where
  "update_provider_deposit sol signers state authority provider_deposit l =
     res_bind (UpdateProviderDeposit_accounts sol signers state authority l) (\<lambda>s.
     store (8 + borsh_size (AMuState s)) state (AMuState (s\<lparr>ms_provider_deposit := provider_deposit\<rparr>)) l)"

definition CreateProviderAuthorizer_accounts ::
  "'t solana \<Rightarrow> pubkey list \<Rightarrow> pubkey \<Rightarrow> pubkey \<Rightarrow> pubkey \<Rightarrow> pubkey \<Rightarrow> 't ledger \<Rightarrow> market_error + u8" where
  "CreateProviderAuthorizer_accounts sol signers state provider_authorizer authority authorizer l =
     res_bind (get_state sol state l) (\<lambda>s.
     res_bind (ensure (ms_authority s = authority) ConstraintViolated) (\<lambda>_.
     res_bind (init_pda sol (authorizer_seeds authorizer) provider_authorizer l) (\<lambda>bump.
     res_bind (ensure (authority \<in> set signers \<and> authorizer \<in> set signers) ConstraintViolated) (\<lambda>_.
     Inr bump))))"

definition create_provider_authorizer ::
  "'t solana \<Rightarrow> pubkey list \<Rightarrow> pubkey \<Rightarrow> pubkey \<Rightarrow> pubkey \<Rightarrow> pubkey \<Rightarrow> 't ledger \<Rightarrow> market_error + 't ledger"
where
  "create_provider_authorizer sol signers state provider_authorizer authority authorizer l =
     res_bind (CreateProviderAuthorizer_accounts sol signers state provider_authorizer authority authorizer l)
       (\<lambda>bump. store (8 + 32 + 1) provider_authorizer
          (AAuthorizer \<lparr>pa_authorizer = authorizer, pa_bump = bump\<rparr>) l)"

definition CreateProvider_accounts ::
  "'t solana \<Rightarrow> pubkey list \<Rightarrow> pubkey \<Rightarrow> pubkey \<Rightarrow> pubkey \<Rightarrow> pubkey \<Rightarrow> pubkey \<Rightarrow> 't ledger \<Rightarrow>
     market_error + MuState \<times> u8" where
  "CreateProvider_accounts sol signers state provider deposit_token owner owner_token l =
     res_bind (get_state sol state l) (\<lambda>s.
     res_bind (ensure (ms_deposit_token s = deposit_token) ConstraintViolated) (\<lambda>_.
     res_bind (init_pda sol (provider_seeds owner) provider l) (\<lambda>bump.
     res_bind (ensure (tok_is_account sol (toks l) deposit_token \<and> owner \<in> set signers
                 \<and> tok_is_account sol (toks l) owner_token) ConstraintViolated) (\<lambda>_.
     Inr (s, bump)))))"

definition create_provider ::
  "'t solana \<Rightarrow> pubkey list \<Rightarrow> pubkey \<Rightarrow> pubkey \<Rightarrow> pubkey \<Rightarrow> pubkey \<Rightarrow> pubkey \<Rightarrow> string \<Rightarrow>
     't ledger \<Rightarrow> market_error + 't ledger" where
  "create_provider sol signers state provider deposit_token owner owner_token name l =
     res_bind (CreateProvider_accounts sol signers state provider deposit_token owner owner_token l) (\<lambda>(s, bump).
     res_bind (transfer sol owner_token deposit_token owner (ms_provider_deposit s) l) (\<lambda>l.
     store (8 + 32 + 1 + 4 + length (as_bytes name) + 8 + 1) provider (AProvider
       \<lparr>pr_owner = owner, pr_authorized = False, pr_name = name,
        pr_deposit = ms_provider_deposit s, pr_bump = bump\<rparr>) l))"

definition AuthorizeProvider_accounts ::
  "'t solana \<Rightarrow> pubkey list \<Rightarrow> pubkey \<Rightarrow> pubkey \<Rightarrow> pubkey \<Rightarrow> pubkey \<Rightarrow> 't ledger \<Rightarrow> market_error + Provider" where
  "AuthorizeProvider_accounts sol signers provider_authorizer authorizer provider owner l =
     res_bind (load_authorizer l provider_authorizer) (\<lambda>a.
     res_bind (ensure (seeds_ok sol (authorizer_seeds authorizer) (pa_bump a) provider_authorizer
                 \<and> pa_authorizer a = authorizer \<and> authorizer \<in> set signers) ConstraintViolated) (\<lambda>_.
     res_bind (load_provider l provider) (\<lambda>p.
     res_bind (ensure (seeds_ok sol (provider_seeds owner) (pr_bump p) provider) ConstraintViolated) (\<lambda>_.
     Inr p))))"

definition authorize_provider ::
  "'t solana \<Rightarrow> pubkey list \<Rightarrow> pubkey \<Rightarrow> pubkey \<Rightarrow> pubkey \<Rightarrow> pubkey \<Rightarrow> 't ledger \<Rightarrow> market_error + 't ledger"
where
  "authorize_provider sol signers provider_authorizer authorizer provider owner l =
     res_bind (AuthorizeProvider_accounts sol signers provider_authorizer authorizer provider owner l) (\<lambda>p.
     store (8 + borsh_size (AProvider p)) provider (AProvider (p\<lparr>pr_authorized := True\<rparr>)) l)"

definition CreateRegion_accounts ::
  "'t solana \<Rightarrow> pubkey list \<Rightarrow> pubkey \<Rightarrow> pubkey \<Rightarrow> pubkey \<Rightarrow> u32 \<Rightarrow> 't ledger \<Rightarrow> market_error + Provider \<times> u8"
where
  "CreateRegion_accounts sol signers provider region owner region_num l =
     res_bind (load_provider l provider) (\<lambda>p.
     res_bind (ensure (pr_owner p = owner) ConstraintViolated) (\<lambda>_.
     res_bind (init_pda sol (region_seeds owner region_num) region l) (\<lambda>bump.
     res_bind (ensure (owner \<in> set signers) ConstraintViolated) (\<lambda>_.
     Inr (p, bump)))))"

definition create_region ::
  "'t solana \<Rightarrow> pubkey list \<Rightarrow> pubkey \<Rightarrow> pubkey \<Rightarrow> pubkey \<Rightarrow> u32 \<Rightarrow> string \<Rightarrow> string \<Rightarrow> ServiceRates \<Rightarrow>
     u64 \<Rightarrow> u32 \<Rightarrow> 't ledger \<Rightarrow> market_error + 't ledger" where
  "create_region sol signers provider region owner region_num name base_url rates
     min_escrow_balance max_giga_instructions_per_call l =
     res_bind (CreateRegion_accounts sol signers provider region owner region_num l) (\<lambda>(p, bump).
     res_bind (ensure (pr_authorized p) ProviderNotAuthorized) (\<lambda>_.
     store (8 + 32 + 4 + (8 + 8 + 8 + 8 + 8 + 8) + 8 + 4 + 1 + 4 + length (as_bytes name)
              + 4 + length (as_bytes base_url)) region (ARegion
       \<lparr>rg_provider = provider, rg_region_num = region_num, rg_rates = rates,
        rg_min_escrow_balance = min_escrow_balance,
        rg_max_giga_instructions_per_call = max_giga_instructions_per_call, rg_bump = bump,
        rg_name = name, rg_base_url = base_url\<rparr>) l))"

definition CreateStack_accounts ::
  "'t solana \<Rightarrow> pubkey list \<Rightarrow> pubkey \<Rightarrow> pubkey \<Rightarrow> pubkey \<Rightarrow> pubkey \<Rightarrow> u64 \<Rightarrow> 't ledger \<Rightarrow>
     market_error + Provider \<times> u8" where
  "CreateStack_accounts sol signers provider region stack user stack_seed l =
     res_bind (load_provider l provider) (\<lambda>p.
     res_bind (load_region l region) (\<lambda>r.
     res_bind (ensure (rg_provider r = provider) ConstraintViolated) (\<lambda>_.
     res_bind (init_pda sol (stack_seeds user region stack_seed) stack l) (\<lambda>bump.
     res_bind (ensure (user \<in> set signers) ConstraintViolated) (\<lambda>_.
     Inr (p, bump))))))"

definition create_stack ::
  "'t solana \<Rightarrow> pubkey list \<Rightarrow> pubkey \<Rightarrow> pubkey \<Rightarrow> pubkey \<Rightarrow> pubkey \<Rightarrow> u64 \<Rightarrow> bytes \<Rightarrow> string \<Rightarrow>
     't ledger \<Rightarrow> market_error + 't ledger" where
  "create_stack sol signers provider region stack user stack_seed stack_data name l =
     res_bind (CreateStack_accounts sol signers provider region stack user stack_seed l) (\<lambda>(p, bump).
     res_bind (ensure (pr_authorized p) ProviderNotAuthorized) (\<lambda>_.
     store (8 + 32 + 32 + 8 + 1 + 1 + 4 + 4 + length name + 4 + length stack_data) stack (AStack
       \<lparr>sk_user = user, sk_region = region, sk_seed = stack_seed, sk_bump = bump,
        sk_state = StackActive 1 name stack_data\<rparr>) l))"

text \<open>\<open>UpdateStack\<close> and \<open>DeleteStack\<close> have the same constraints and differ in the size they resize to.\<close>

definition UpdateStack_accounts ::
  "'t solana \<Rightarrow> pubkey list \<Rightarrow> pubkey \<Rightarrow> pubkey \<Rightarrow> pubkey \<Rightarrow> u64 \<Rightarrow> 't ledger \<Rightarrow> market_error + StackAccount" where
  "UpdateStack_accounts sol signers region stack user stack_seed l =
     res_bind (load_region l region) (\<lambda>r.
     res_bind (load_stack l stack) (\<lambda>s.
     res_bind (ensure (seeds_ok sol (stack_seeds user region stack_seed) (sk_bump s) stack
                 \<and> sk_user s = user \<and> user \<in> set signers) ConstraintViolated) (\<lambda>_.
     Inr s)))"

definition DeleteStack_accounts ::
  "'t solana \<Rightarrow> pubkey list \<Rightarrow> pubkey \<Rightarrow> pubkey \<Rightarrow> pubkey \<Rightarrow> u64 \<Rightarrow> 't ledger \<Rightarrow> market_error + StackAccount" where
  "DeleteStack_accounts sol signers region stack user stack_seed l =
     res_bind (load_region l region) (\<lambda>r.
     res_bind (load_stack l stack) (\<lambda>s.
     res_bind (ensure (seeds_ok sol (stack_seeds user region stack_seed) (sk_bump s) stack
                 \<and> sk_user s = user \<and> user \<in> set signers) ConstraintViolated) (\<lambda>_.
     Inr s)))"

definition update_stack ::
  "'t solana \<Rightarrow> pubkey list \<Rightarrow> pubkey \<Rightarrow> pubkey \<Rightarrow> pubkey \<Rightarrow> u64 \<Rightarrow> bytes \<Rightarrow> string \<Rightarrow>
     't ledger \<Rightarrow> market_error + 't ledger" where
  "update_stack sol signers region stack user stack_seed stack_data name l =
     res_bind (UpdateStack_accounts sol signers region stack user stack_seed l) (\<lambda>s.
     case sk_state s of
       StackDeleted \<Rightarrow> Inl CannotOperateOnDeletedStack
     | StackActive revision old_name old_data \<Rightarrow>
         res_bind (ok_or Panicked (arith_add (ovf_checks sol) revision 1)) (\<lambda>revision'.
         store (8 + 32 + 32 + 8 + 1 + 1 + 4 + 4 + length name + 4 + length stack_data) stack
           (AStack (s\<lparr>sk_state := StackActive revision' name stack_data\<rparr>)) l))"

definition delete_stack ::
  "'t solana \<Rightarrow> pubkey list \<Rightarrow> pubkey \<Rightarrow> pubkey \<Rightarrow> pubkey \<Rightarrow> u64 \<Rightarrow> 't ledger \<Rightarrow> market_error + 't ledger" where
  "delete_stack sol signers region stack user stack_seed l =
     res_bind (DeleteStack_accounts sol signers region stack user stack_seed l) (\<lambda>s.
     if sk_state s = StackDeleted then Inl CannotOperateOnDeletedStack
     else store (8 + 32 + 32 + 8 + 1 + 1) stack (AStack (s\<lparr>sk_state := StackDeleted\<rparr>)) l)"

definition CreateApiRequestSigner_accounts ::
  "'t solana \<Rightarrow> pubkey list \<Rightarrow> pubkey \<Rightarrow> pubkey \<Rightarrow> pubkey \<Rightarrow> pubkey \<Rightarrow> 't ledger \<Rightarrow> market_error + u8" where
  "CreateApiRequestSigner_accounts sol signers request_signer user signer region l =
     res_bind (init_pda sol (signer_seeds user signer region) request_signer l) (\<lambda>bump.
     res_bind (ensure (user \<in> set signers \<and> signer \<in> set signers) ConstraintViolated) (\<lambda>_.
     res_bind (load_region l region) (\<lambda>r. Inr bump)))"

definition create_api_request_signer ::
  "'t solana \<Rightarrow> pubkey list \<Rightarrow> pubkey \<Rightarrow> pubkey \<Rightarrow> pubkey \<Rightarrow> pubkey \<Rightarrow> 't ledger \<Rightarrow> market_error + 't ledger"
where
  "create_api_request_signer sol signers request_signer user signer region l =
     res_bind (CreateApiRequestSigner_accounts sol signers request_signer user signer region l) (\<lambda>bump.
     store (8 + 32 + 32 + 32 + 1 + 1) request_signer (ARequestSigner
       \<lparr>rs_signer = signer, rs_user = user, rs_region = region, rs_bump = bump, rs_active = True\<rparr>) l)"

text \<open>To deactivate a request signer its own signature is not needed.\<close>

definition DeactivateApiRequestSigner_accounts ::
  "'t solana \<Rightarrow> pubkey list \<Rightarrow> pubkey \<Rightarrow> pubkey \<Rightarrow> pubkey \<Rightarrow> pubkey \<Rightarrow> 't ledger \<Rightarrow>
     market_error + ApiRequestSigner" where
  "DeactivateApiRequestSigner_accounts sol signers request_signer user signer region l =
     res_bind (load_request_signer l request_signer) (\<lambda>rs.
     res_bind (load_region l region) (\<lambda>r.
     res_bind (ensure (rs_user rs = user \<and> rs_signer rs = signer \<and> rs_region rs = region
                 \<and> seeds_ok sol (signer_seeds (rs_user rs) (rs_signer rs) (rs_region rs)) (rs_bump rs) request_signer
                 \<and> user \<in> set signers) ConstraintViolated) (\<lambda>_.
     Inr rs)))"

definition ActivateApiRequestSigner_accounts ::
  "'t solana \<Rightarrow> pubkey list \<Rightarrow> pubkey \<Rightarrow> pubkey \<Rightarrow> pubkey \<Rightarrow> pubkey \<Rightarrow> 't ledger \<Rightarrow>
     market_error + ApiRequestSigner" where
  "ActivateApiRequestSigner_accounts sol signers request_signer user signer region l =
     res_bind (load_request_signer l request_signer) (\<lambda>rs.
     res_bind (load_region l region) (\<lambda>r.
     res_bind (ensure (rs_user rs = user \<and> rs_signer rs = signer \<and> rs_region rs = region
                 \<and> seeds_ok sol (signer_seeds (rs_user rs) (rs_signer rs) (rs_region rs)) (rs_bump rs) request_signer
                 \<and> user \<in> set signers \<and> signer \<in> set signers) ConstraintViolated) (\<lambda>_.
     Inr rs)))"

definition activate_api_request_signer ::
  "'t solana \<Rightarrow> pubkey list \<Rightarrow> pubkey \<Rightarrow> pubkey \<Rightarrow> pubkey \<Rightarrow> pubkey \<Rightarrow> 't ledger \<Rightarrow> market_error + 't ledger"
where
  "activate_api_request_signer sol signers request_signer user signer region l =
     res_bind (ActivateApiRequestSigner_accounts sol signers request_signer user signer region l) (\<lambda>rs.
     store (8 + borsh_size (ARequestSigner rs)) request_signer (ARequestSigner (rs\<lparr>rs_active := True\<rparr>)) l)"

definition deactivate_api_request_signer ::
  "'t solana \<Rightarrow> pubkey list \<Rightarrow> pubkey \<Rightarrow> pubkey \<Rightarrow> pubkey \<Rightarrow> pubkey \<Rightarrow> 't ledger \<Rightarrow> market_error + 't ledger"
where
  "deactivate_api_request_signer sol signers request_signer user signer region l =
     res_bind (DeactivateApiRequestSigner_accounts sol signers request_signer user signer region l) (\<lambda>rs.
     store (8 + borsh_size (ARequestSigner rs)) request_signer (ARequestSigner (rs\<lparr>rs_active := False\<rparr>)) l)"

definition CreateAuthorizedUsageSigner_accounts ::
  "'t solana \<Rightarrow> pubkey list \<Rightarrow> pubkey \<Rightarrow> pubkey \<Rightarrow> pubkey \<Rightarrow> pubkey \<Rightarrow> 't ledger \<Rightarrow> market_error + unit" where
  "CreateAuthorizedUsageSigner_accounts sol signers provider region authorized_signer owner l =
     res_bind (load_provider l provider) (\<lambda>p.
     res_bind (ensure (pr_owner p = owner) ConstraintViolated) (\<lambda>_.
     res_bind (load_region l region) (\<lambda>r.
     res_bind (ensure (rg_provider r = provider) ConstraintViolated) (\<lambda>_.
     res_bind (init_pda sol (usage_signer_seeds region) authorized_signer l) (\<lambda>_.
     ensure (owner \<in> set signers) ConstraintViolated)))))"

definition create_authorized_usage_signer ::
  "'t solana \<Rightarrow> pubkey list \<Rightarrow> pubkey \<Rightarrow> pubkey \<Rightarrow> pubkey \<Rightarrow> pubkey \<Rightarrow> pubkey \<Rightarrow> pubkey \<Rightarrow>
     't ledger \<Rightarrow> market_error + 't ledger" where
  "create_authorized_usage_signer sol signers provider region authorized_signer owner signer token_account l =
     res_bind (CreateAuthorizedUsageSigner_accounts sol signers provider region authorized_signer owner l) (\<lambda>_.
     store (8 + 32 + 32) authorized_signer
       (AUsageSigner \<lparr>us_signer = signer, us_token_account = token_account\<rparr>) l)"

text \<open>The handler of \<open>create_provider_escrow_account\<close> is empty: its struct creates the token account.\<close>

definition CreateProviderEscrowAccount_accounts ::
  "'t solana \<Rightarrow> pubkey list \<Rightarrow> pubkey \<Rightarrow> pubkey \<Rightarrow> pubkey \<Rightarrow> pubkey \<Rightarrow> pubkey \<Rightarrow>
     't ledger \<Rightarrow> market_error + 't ledger" where
  "CreateProviderEscrowAccount_accounts sol signers state mint escrow_account provider user l =
     res_bind (get_state sol state l) (\<lambda>s.
     res_bind (ensure (ms_mint s = mint \<and> tok_is_mint sol (toks l) mint) ConstraintViolated) (\<lambda>_.
     res_bind (init_token sol (escrow_seeds user provider) escrow_account mint state l) (\<lambda>l'.
     res_bind (load_provider l provider) (\<lambda>_.
     res_bind (ensure (user \<in> set signers) ConstraintViolated) (\<lambda>_.
     Inr l')))))"

definition create_provider_escrow_account ::
  "'t solana \<Rightarrow> pubkey list \<Rightarrow> pubkey \<Rightarrow> pubkey \<Rightarrow> pubkey \<Rightarrow> pubkey \<Rightarrow> pubkey \<Rightarrow>
     't ledger \<Rightarrow> market_error + 't ledger" where
  "create_provider_escrow_account sol signers state mint escrow_account provider user l =
     res_bind (CreateProviderEscrowAccount_accounts sol signers state mint escrow_account provider user l)
       (\<lambda>l'. Inr l')"

definition WithdrawEscrow_accounts ::
  "'t solana \<Rightarrow> pubkey list \<Rightarrow> pubkey \<Rightarrow> pubkey \<Rightarrow> pubkey \<Rightarrow> pubkey \<Rightarrow> pubkey \<Rightarrow> 't ledger \<Rightarrow>
     market_error + unit" where
  "WithdrawEscrow_accounts sol signers state escrow_account withdraw_to provider user l =
     res_bind (get_state sol state l) (\<lambda>s.
     res_bind (ensure (fst (find_pda sol (escrow_seeds user provider)) = escrow_account
                 \<and> tok_is_account sol (toks l) escrow_account
                 \<and> tok_is_account sol (toks l) withdraw_to) ConstraintViolated) (\<lambda>_.
     res_bind (load_provider l provider) (\<lambda>_.
     ensure (user \<in> set signers) ConstraintViolated)))"

definition withdraw_escrow_balance ::
  "'t solana \<Rightarrow> pubkey list \<Rightarrow> pubkey \<Rightarrow> pubkey \<Rightarrow> pubkey \<Rightarrow> pubkey \<Rightarrow> pubkey \<Rightarrow> u64 \<Rightarrow>
     't ledger \<Rightarrow> market_error + 't ledger" where
  "withdraw_escrow_balance sol signers state escrow_account withdraw_to provider user amount l =
     res_bind (WithdrawEscrow_accounts sol signers state escrow_account withdraw_to provider user l) (\<lambda>_.
     transfer sol escrow_account withdraw_to state amount l)"

definition UpdateUsage_accounts ::
  "'t solana \<Rightarrow> pubkey list \<Rightarrow> pubkey \<Rightarrow> pubkey \<Rightarrow> pubkey \<Rightarrow> pubkey \<Rightarrow> pubkey \<Rightarrow> pubkey \<Rightarrow> pubkey \<Rightarrow>
     pubkey \<Rightarrow> pubkey \<Rightarrow> u128 \<Rightarrow> u8 \<Rightarrow> 't ledger \<Rightarrow> market_error + MuState \<times> ProviderRegion" where
  "UpdateUsage_accounts sol signers state commission_token authorized_signer region token_account
     usage_update escrow_account stack signer update_seed escrow_bump l =
     res_bind (get_state sol state l) (\<lambda>s.
     res_bind (ensure (ms_commission_token s = commission_token) ConstraintViolated) (\<lambda>_.
     res_bind (load_usage_signer l authorized_signer) (\<lambda>a.
     res_bind (ensure (us_signer a = signer \<and> us_token_account a = token_account
                 \<and> fst (find_pda sol (usage_signer_seeds region)) = authorized_signer) ConstraintViolated) (\<lambda>_.
     res_bind (load_region l region) (\<lambda>r.
     res_bind (init_pda sol (update_seeds stack region update_seed) usage_update l) (\<lambda>_.
     res_bind (load_stack l stack) (\<lambda>k.
     res_bind (ensure (seeds_ok sol (escrow_seeds (sk_user k) (rg_provider r)) escrow_bump escrow_account
                 \<and> sk_region k = region \<and> signer \<in> set signers) ConstraintViolated) (\<lambda>_.
     Inr (s, r)))))))))"

definition update_usage ::
  "'t solana \<Rightarrow> pubkey list \<Rightarrow> pubkey \<Rightarrow> pubkey \<Rightarrow> pubkey \<Rightarrow> pubkey \<Rightarrow> pubkey \<Rightarrow> pubkey \<Rightarrow> pubkey \<Rightarrow>
     pubkey \<Rightarrow> pubkey \<Rightarrow> u128 \<Rightarrow> u8 \<Rightarrow> ServiceUsage \<Rightarrow> 't ledger \<Rightarrow> market_error + 't ledger" where
  "update_usage sol signers state commission_token authorized_signer region token_account
     usage_update escrow_account stack signer update_seed escrow_bump usage l =
     res_bind (UpdateUsage_accounts sol signers state commission_token authorized_signer region token_account
       usage_update escrow_account stack signer update_seed escrow_bump l) (\<lambda>(s, r).
     res_bind (ok_or Panicked (calc_usage (ovf_checks sol) (rg_rates r) usage)) (\<lambda>usage_tokens.
     res_bind (ok_or Panicked (split_price (ovf_checks sol) (ms_commission_rate_micros s) usage_tokens))
       (\<lambda>(provider_tokens, commission_tokens).
     res_bind (transfer sol escrow_account token_account state provider_tokens l) (\<lambda>l.
     res_bind (transfer sol escrow_account commission_token state commission_tokens l) (\<lambda>l.
     store (8 + 32 + 32 + 16 + (16 + 16 + 8 + 8 + 8 + 8)) usage_update (AUsageUpdate
       \<lparr>uu_region = region, uu_stack = stack, uu_seed = update_seed, uu_usage = usage\<rparr>) l)))))"

section \<open>Transactions\<close>

datatype instruction =
    Initialize pubkey pubkey pubkey pubkey pubkey u32 u64
  | UpdateProviderDeposit pubkey pubkey u64
  | CreateProviderAuthorizer pubkey pubkey pubkey pubkey
  | CreateProvider pubkey pubkey pubkey pubkey pubkey string
  | AuthorizeProvider pubkey pubkey pubkey pubkey
  | CreateRegion pubkey pubkey pubkey u32 string string ServiceRates u64 u32
  | CreateStack pubkey pubkey pubkey pubkey u64 bytes string
  | UpdateStack pubkey pubkey pubkey u64 bytes string
  | DeleteStack pubkey pubkey pubkey u64
  | CreateApiRequestSigner pubkey pubkey pubkey pubkey
  | ActivateApiRequestSigner pubkey pubkey pubkey pubkey
  | DeactivateApiRequestSigner pubkey pubkey pubkey pubkey
  | CreateAuthorizedUsageSigner pubkey pubkey pubkey pubkey pubkey pubkey
  | CreateProviderEscrowAccount pubkey pubkey pubkey pubkey pubkey
  | WithdrawEscrow pubkey pubkey pubkey pubkey pubkey u64
  | UpdateUsage pubkey pubkey pubkey pubkey pubkey pubkey pubkey pubkey pubkey u128 u8 ServiceUsage

fun exec :: "'t solana \<Rightarrow> pubkey list \<Rightarrow> instruction \<Rightarrow> 't ledger \<Rightarrow> market_error + 't ledger" where
  "exec sol sg (Initialize st mi dt ct au rate dep) = initialize sol sg st mi dt ct au rate dep"
| "exec sol sg (UpdateProviderDeposit st au dep) = update_provider_deposit sol sg st au dep"
| "exec sol sg (CreateProviderAuthorizer st pa au az) = create_provider_authorizer sol sg st pa au az"
| "exec sol sg (CreateProvider st pr dt ow ot nm) = create_provider sol sg st pr dt ow ot nm"
| "exec sol sg (AuthorizeProvider pa az pr ow) = authorize_provider sol sg pa az pr ow"
| "exec sol sg (CreateRegion pr rg ow n nm url rates me mg) = create_region sol sg pr rg ow n nm url rates me mg"
| "exec sol sg (CreateStack pr rg sk us sd dat nm) = create_stack sol sg pr rg sk us sd dat nm"
| "exec sol sg (UpdateStack rg sk us sd dat nm) = update_stack sol sg rg sk us sd dat nm"
| "exec sol sg (DeleteStack rg sk us sd) = delete_stack sol sg rg sk us sd"
| "exec sol sg (CreateApiRequestSigner rs us sn rg) = create_api_request_signer sol sg rs us sn rg"
| "exec sol sg (ActivateApiRequestSigner rs us sn rg) = activate_api_request_signer sol sg rs us sn rg"
| "exec sol sg (DeactivateApiRequestSigner rs us sn rg) = deactivate_api_request_signer sol sg rs us sn rg"
| "exec sol sg (CreateAuthorizedUsageSigner pr rg asg ow sn ta) =
     create_authorized_usage_signer sol sg pr rg asg ow sn ta"
| "exec sol sg (CreateProviderEscrowAccount st mi es pr us) = create_provider_escrow_account sol sg st mi es pr us"
| "exec sol sg (WithdrawEscrow st es wt pr us am) = withdraw_escrow_balance sol sg st es wt pr us am"
| "exec sol sg (UpdateUsage st ct asg rg ta uu es sk sn sd bp u) =
     update_usage sol sg st ct asg rg ta uu es sk sn sd bp u"

text \<open>A step of the ledger: one successful instruction. Failed ones leave no trace.\<close>

inductive market_step :: "'t solana \<Rightarrow> 't ledger \<Rightarrow> 't ledger \<Rightarrow> bool" for sol where
  market_exec: "exec sol signers ins l = Inr l' \<Longrightarrow> market_step sol l l'"

inductive_cases market_stepE: "market_step sol l l'"

inductive market_reachable :: "'t solana \<Rightarrow> 't ledger \<Rightarrow> 't ledger \<Rightarrow> bool" for sol l0 where
  reach_refl: "market_reachable sol l0 l0"
| reach_step: "market_reachable sol l0 l \<Longrightarrow> market_step sol l l' \<Longrightarrow> market_reachable sol l0 l'"

end
