(* ===== verification/Marketplace_Effects.thy ===== *)
theory Marketplace_Effects
  imports Marketplace
begin

text \<open>
  What an instruction of the marketplace can do to the ledger. Every instruction leaves the
  accounts alone, creates one account at an unused address, or rewrites one existing account
  within the bounds of \<open>evolves\<close>; the lemma \<open>exec_effect\<close> says so for all of them and the
  theorems about histories of the ledger follow from it by rule induction.
\<close>

named_theorems market_simps \<open>what a successful constraint or load says about the ledger\<close>

section \<open>Successful loads and constraints\<close>

lemmas load_defs = load_state_def load_authorizer_def load_provider_def load_region_def load_stack_def
  load_request_signer_def load_usage_signer_def

lemma ensure_Inr [market_simps]: "ensure b e = Inr u \<longleftrightarrow> b"
  by (simp add: ensure_def)

lemma ensure_Inl [market_simps]: "ensure b e = Inl f \<longleftrightarrow> \<not> b \<and> f = e"
  by (auto simp: ensure_def)

lemma load_Inr [market_simps]:
  "load_state l k = Inr s \<longleftrightarrow> accts l k = Some (AMuState s)"
  "load_authorizer l k = Inr a \<longleftrightarrow> accts l k = Some (AAuthorizer a)"
  "load_provider l k = Inr p \<longleftrightarrow> accts l k = Some (AProvider p)"
  "load_region l k = Inr r \<longleftrightarrow> accts l k = Some (ARegion r)"
  "load_stack l k = Inr x \<longleftrightarrow> accts l k = Some (AStack x)"
  "load_request_signer l k = Inr q \<longleftrightarrow> accts l k = Some (ARequestSigner q)"
  "load_usage_signer l k = Inr u \<longleftrightarrow> accts l k = Some (AUsageSigner u)"
  by (auto simp: load_defs split: option.splits account.splits)

lemma load_Inl:
  "load_state l k = Inl e \<Longrightarrow> e = ConstraintViolated"
  "load_authorizer l k = Inl e \<Longrightarrow> e = ConstraintViolated"
  "load_provider l k = Inl e \<Longrightarrow> e = ConstraintViolated"
  "load_region l k = Inl e \<Longrightarrow> e = ConstraintViolated"
  "load_stack l k = Inl e \<Longrightarrow> e = ConstraintViolated"
  "load_request_signer l k = Inl e \<Longrightarrow> e = ConstraintViolated"
  "load_usage_signer l k = Inl e \<Longrightarrow> e = ConstraintViolated"
  by (auto simp: load_defs split: option.splits account.splits)

lemma store_Inr [market_simps]:
  "store n k a l = Inr l' \<longleftrightarrow> 8 + borsh_size a \<le> n \<and> l' = l\<lparr>accts := (accts l)(k \<mapsto> a)\<rparr>"
  by (auto simp: store_def)

lemma store_Inl [market_simps]:
  "store n k a l = Inl e \<longleftrightarrow> \<not> 8 + borsh_size a \<le> n \<and> e = AccountDidNotSerialize"
  by (auto simp: store_def)

lemma init_pda_Inr [market_simps]:
  "init_pda sol seeds k l = Inr b \<longleftrightarrow>
     find_pda sol seeds = (k, b) \<and> accts l k = None \<and> \<not> tok_is_account sol (toks l) k
     \<and> \<not> tok_is_mint sol (toks l) k"
  by (auto simp: init_pda_def split: prod.splits)

lemma init_pda_Inl: "init_pda sol seeds k l = Inl e \<Longrightarrow> e = ConstraintViolated"
  by (auto simp: init_pda_def split: prod.splits if_splits)

lemma get_state_Inr [market_simps]:
  "get_state sol k l = Inr s \<longleftrightarrow>
     accts l k = Some (AMuState s) \<and> create_pda sol state_seeds (ms_bump s) = Some k"
  by (auto simp: get_state_def res_simps market_simps seeds_ok_def)

lemma init_token_Inr [market_simps]:
  "init_token sol seeds k mint au l = Inr l' \<longleftrightarrow>
     (\<exists>b t. init_pda sol seeds k l = Inr b \<and> tok_init sol k mint au (toks l) = Some t
        \<and> l' = l\<lparr>toks := t\<rparr>)"
  by (auto simp: init_token_def res_simps split: option.splits)

lemma transfer_Inr [market_simps]:
  "transfer sol f t au n l = Inr l' \<longleftrightarrow>
     (\<exists>ts. tok_transfer sol f t au n (toks l) = Some ts \<and> l' = l\<lparr>toks := ts\<rparr>)"
  by (auto simp: transfer_def split: option.splits)

lemma UpdateStack_accounts_Inr [market_simps]:
  "UpdateStack_accounts sol sg rg k us sd l = Inr s \<longleftrightarrow>
     (\<exists>r. accts l rg = Some (ARegion r)) \<and> accts l k = Some (AStack s) \<and> sk_user s = us
     \<and> us \<in> set sg \<and> create_pda sol (stack_seeds us rg sd) (sk_bump s) = Some k"
  by (auto simp: UpdateStack_accounts_def res_simps market_simps seeds_ok_def)

text \<open>The other account structs are unfolded where they are used.\<close>

lemmas accounts_defs [market_simps] =
  Initialize_accounts_def UpdateProviderDeposit_accounts_def CreateProviderAuthorizer_accounts_def
  CreateProvider_accounts_def AuthorizeProvider_accounts_def CreateRegion_accounts_def CreateStack_accounts_def
  DeleteStack_accounts_def CreateApiRequestSigner_accounts_def ActivateApiRequestSigner_accounts_def
  DeactivateApiRequestSigner_accounts_def CreateAuthorizedUsageSigner_accounts_def
  CreateProviderEscrowAccount_accounts_def WithdrawEscrow_accounts_def UpdateUsage_accounts_def

section \<open>Creation and evolution of accounts\<close>

text \<open>How a stack may change: a deleted stack not at all, an active one to its next revision or to deleted.\<close>

definition next_revision :: "bool \<Rightarrow> u32 \<Rightarrow> u32 \<Rightarrow> bool" where
  "next_revision ovf r r' \<longleftrightarrow> r' = r + 1 \<and> (ovf \<longrightarrow> unat r' = unat r + 1)"

fun state_evolves :: "bool \<Rightarrow> StackState \<Rightarrow> StackState \<Rightarrow> bool" where
  "state_evolves ovf (StackActive r n d) (StackActive r' n' d') = next_revision ovf r r'"
| "state_evolves ovf (StackActive r n d) StackDeleted = True"
| "state_evolves ovf StackDeleted _ = False"

fun evolves :: "bool \<Rightarrow> (pubkey \<Rightarrow> account option) \<Rightarrow> pubkey list \<Rightarrow> account \<Rightarrow> account \<Rightarrow> bool" where
  "evolves ovf m sg (AMuState s) (AMuState s') =
     (\<exists>d. s' = s\<lparr>ms_provider_deposit := d\<rparr> \<and> sg \<noteq> [])"
| "evolves ovf m sg (AProvider p) (AProvider p') =
     (p' = p\<lparr>pr_authorized := True\<rparr> \<and> (\<exists>k a. m k = Some (AAuthorizer a) \<and> pa_authorizer a \<in> set sg))"
| "evolves ovf m sg (AStack s) (AStack s') =
     (\<exists>st. s' = s\<lparr>sk_state := st\<rparr> \<and> state_evolves ovf (sk_state s) st \<and> sk_user s \<in> set sg)"
| "evolves ovf m sg (ARequestSigner r) (ARequestSigner r') =
     (\<exists>b. r' = r\<lparr>rs_active := b\<rparr> \<and> rs_user r \<in> set sg \<and> (b \<longrightarrow> rs_signer r \<in> set sg))"
| "evolves ovf m sg _ _ = False"

definition authorized_provider :: "(pubkey \<Rightarrow> account option) \<Rightarrow> pubkey \<Rightarrow> bool" where
  "authorized_provider m k \<longleftrightarrow> (\<exists>p. m k = Some (AProvider p) \<and> pr_authorized p)"

definition owned_provider :: "(pubkey \<Rightarrow> account option) \<Rightarrow> pubkey list \<Rightarrow> pubkey \<Rightarrow> bool" where
  "owned_provider m sg k \<longleftrightarrow> (\<exists>p. m k = Some (AProvider p) \<and> pr_owner p \<in> set sg)"

fun created :: "(pubkey \<Rightarrow> account option) \<Rightarrow> pubkey list \<Rightarrow> account \<Rightarrow> bool" where
  "created m sg (AMuState s) = (ms_commission_rate_micros s \<le> 1000000 \<and> ms_authority s \<in> set sg)"
| "created m sg (AAuthorizer a) =
     (\<exists>k s. m k = Some (AMuState s) \<and> ms_authority s \<in> set sg \<and> pa_authorizer a \<in> set sg)"
| "created m sg (AProvider p) = (\<not> pr_authorized p \<and> pr_owner p \<in> set sg)"
| "created m sg (ARegion r) = (authorized_provider m (rg_provider r) \<and> owned_provider m sg (rg_provider r))"
| "created m sg (AStack s) =
     ((\<exists>r. m (sk_region s) = Some (ARegion r) \<and> authorized_provider m (rg_provider r))
      \<and> sk_user s \<in> set sg \<and> (\<exists>n d. sk_state s = StackActive 1 n d))"
| "created m sg (ARequestSigner q) =
     ((\<exists>r. m (rs_region q) = Some (ARegion r)) \<and> rs_user q \<in> set sg \<and> rs_signer q \<in> set sg \<and> rs_active q)"
| "created m sg (AUsageSigner u) = (\<exists>k r. m k = Some (ARegion r) \<and> owned_provider m sg (rg_provider r))"
| "created m sg (AUsageUpdate u) =
     ((\<exists>r. m (uu_region u) = Some (ARegion r))
      \<and> (\<exists>s. m (uu_stack u) = Some (AStack s) \<and> sk_region s = uu_region u)
      \<and> (\<exists>k a. m k = Some (AUsageSigner a) \<and> us_signer a \<in> set sg))"

definition account_effect :: "'t solana \<Rightarrow> pubkey list \<Rightarrow> 't ledger \<Rightarrow> 't ledger \<Rightarrow> bool" where
  "account_effect sol sg l l' \<longleftrightarrow>
     accts l' = accts l
   \<or> (\<exists>k a. accts l k = None \<and> created (accts l) sg a \<and> accts l' = (accts l)(k \<mapsto> a))
   \<or> (\<exists>k a b. accts l k = Some a \<and> evolves (ovf_checks sol) (accts l) sg a b \<and> accts l' = (accts l)(k \<mapsto> b))"

lemma effect_created:
  "accts l k = None \<Longrightarrow> created (accts l) sg a \<Longrightarrow> accts l' = (accts l)(k \<mapsto> a) \<Longrightarrow> account_effect sol sg l l'"
  unfolding account_effect_def by blast

lemma effect_evolved:
  "accts l k = Some a \<Longrightarrow> evolves (ovf_checks sol) (accts l) sg a b \<Longrightarrow> accts l' = (accts l)(k \<mapsto> b) \<Longrightarrow>
     account_effect sol sg l l'"
  unfolding account_effect_def by blast

lemma effect_none: "accts l' = accts l \<Longrightarrow> account_effect sol sg l l'"
  by (simp add: account_effect_def)

section \<open>Every instruction has such an effect\<close>

lemma initialize_effect:
  "initialize sol sg st mi dt ct au rate dep l = Inr l' \<Longrightarrow> account_effect sol sg l l'"
  by (auto simp: initialize_def res_simps market_simps intro!: effect_created)

lemma update_provider_deposit_effect:
  "update_provider_deposit sol sg st au dep l = Inr l' \<Longrightarrow> account_effect sol sg l l'"
  by (auto simp: update_provider_deposit_def res_simps market_simps intro!: effect_evolved [where k = st]; blast)

lemma create_provider_authorizer_effect:
  "create_provider_authorizer sol sg st pa au az l = Inr l' \<Longrightarrow> account_effect sol sg l l'"
  by (auto simp: create_provider_authorizer_def res_simps market_simps intro!: effect_created; blast)

lemma create_provider_effect:
  "create_provider sol sg st pr dt ow ot nm l = Inr l' \<Longrightarrow> account_effect sol sg l l'"
  by (auto simp: create_provider_def res_simps market_simps intro!: effect_created)

lemma authorize_provider_effect:
  "authorize_provider sol sg pa az pr ow l = Inr l' \<Longrightarrow> account_effect sol sg l l'"
  by (auto simp: authorize_provider_def res_simps market_simps intro!: effect_evolved [where k = pr]; blast)

lemma create_region_effect:
  "create_region sol sg pr rg ow n nm url rates me mg l = Inr l' \<Longrightarrow> account_effect sol sg l l'"
  by (auto simp: create_region_def res_simps market_simps authorized_provider_def owned_provider_def
      intro!: effect_created)

lemma create_stack_effect:
  "create_stack sol sg pr rg sk us sd dat nm l = Inr l' \<Longrightarrow> account_effect sol sg l l'"
  by (auto simp: create_stack_def res_simps market_simps authorized_provider_def intro!: effect_created)

lemma arith_add_next_revision: "arith_add ovf r 1 = Some r' \<Longrightarrow> next_revision ovf r r'"
  using arith_add_checked [of r 1 r'] by (cases ovf) (auto simp: next_revision_def arith_add_def split: if_splits)

lemma evolves_stackI:
  "state_evolves ovf (sk_state s) st \<Longrightarrow> sk_user s \<in> set sg \<Longrightarrow>
     evolves ovf m sg (AStack s) (AStack (s\<lparr>sk_state := st\<rparr>))"
  by auto

lemma update_stack_Inr:
  assumes "update_stack sol sg rg sk us sd dat nm l = Inr l'"
  shows "\<exists>s r n d r'. UpdateStack_accounts sol sg rg sk us sd l = Inr s \<and> sk_state s = StackActive r n d
    \<and> next_revision (ovf_checks sol) r r'
    \<and> l' = l\<lparr>accts := (accts l)(sk \<mapsto> AStack (s\<lparr>sk_state := StackActive r' nm dat\<rparr>))\<rparr>"
proof -
  from assms obtain s where s: "UpdateStack_accounts sol sg rg sk us sd l = Inr s"
    by (auto simp: update_stack_def res_simps)
  with assms obtain r n d r' where "sk_state s = StackActive r n d" "arith_add (ovf_checks sol) r 1 = Some r'"
    "l' = l\<lparr>accts := (accts l)(sk \<mapsto> AStack (s\<lparr>sk_state := StackActive r' nm dat\<rparr>))\<rparr>"
    by (cases "sk_state s") (auto simp: update_stack_def res_simps store_Inr)
  with s show ?thesis by (blast intro: arith_add_next_revision)
qed

lemma update_stack_effect:
  "update_stack sol sg rg sk us sd dat nm l = Inr l' \<Longrightarrow> account_effect sol sg l l'"
  by (drule update_stack_Inr)
    (auto simp: market_simps simp del: evolves.simps intro!: effect_evolved [where k = sk] evolves_stackI)

lemma state_evolves_deleted [simp]: "state_evolves ovf st StackDeleted \<longleftrightarrow> st \<noteq> StackDeleted"
  by (cases st) simp_all

lemma delete_stack_effect:
  "delete_stack sol sg rg sk us sd l = Inr l' \<Longrightarrow> account_effect sol sg l l'"
  by (auto simp: delete_stack_def res_simps market_simps simp del: evolves.simps split: if_splits
      intro!: effect_evolved [where k = sk] evolves_stackI)

lemma create_api_request_signer_effect:
  "create_api_request_signer sol sg rs us sn rg l = Inr l' \<Longrightarrow> account_effect sol sg l l'"
  by (auto simp: create_api_request_signer_def res_simps market_simps intro!: effect_created)

lemma activate_effect:
  "activate_api_request_signer sol sg rs us sn rg l = Inr l' \<Longrightarrow> account_effect sol sg l l'"
  by (auto simp: activate_api_request_signer_def res_simps market_simps intro!: effect_evolved [where k = rs])

lemma deactivate_effect:
  "deactivate_api_request_signer sol sg rs us sn rg l = Inr l' \<Longrightarrow> account_effect sol sg l l'"
  by (auto simp: deactivate_api_request_signer_def res_simps market_simps intro!: effect_evolved [where k = rs])

lemma create_authorized_usage_signer_effect:
  "create_authorized_usage_signer sol sg pr rg asg ow sn ta l = Inr l' \<Longrightarrow> account_effect sol sg l l'"
  by (auto simp: create_authorized_usage_signer_def res_simps market_simps owned_provider_def
      intro!: effect_created; blast)

lemma create_provider_escrow_account_effect:
  "create_provider_escrow_account sol sg st mi es pr us l = Inr l' \<Longrightarrow> account_effect sol sg l l'"
  by (auto simp: create_provider_escrow_account_def res_simps market_simps intro!: effect_none)

lemma withdraw_escrow_balance_effect:
  "withdraw_escrow_balance sol sg st es wt pr us am l = Inr l' \<Longrightarrow> account_effect sol sg l l'"
  by (auto simp: withdraw_escrow_balance_def res_simps market_simps intro!: effect_none)

lemma update_usage_effect:
  "update_usage sol sg st ct asg rg ta uu es sk sn sd bp u l = Inr l' \<Longrightarrow> account_effect sol sg l l'"
  by (auto simp: update_usage_def res_simps market_simps intro!: effect_created; blast)

lemmas instruction_effects =
  initialize_effect update_provider_deposit_effect create_provider_authorizer_effect create_provider_effect
  authorize_provider_effect create_region_effect create_stack_effect update_stack_effect delete_stack_effect
  create_api_request_signer_effect activate_effect deactivate_effect create_authorized_usage_signer_effect
  create_provider_escrow_account_effect withdraw_escrow_balance_effect update_usage_effect

lemma exec_effect: "exec sol sg ins l = Inr l' \<Longrightarrow> account_effect sol sg l l'"
  by (cases ins) (simp_all add: instruction_effects)

end
