(* ===== verification/Marketplace_Pricing.thy ===== *)
theory Marketplace_Pricing
  imports Marketplace_Effects
begin

text \<open>
  Pricing of usage and movement of tokens in the marketplace: the price of a usage report as
  a formula over the natural numbers, the split between provider and commission, and what the
  instructions move when the token program keeps its documented contract.
\<close>

section \<open>Prices\<close>

definition usage_price :: "ServiceRates \<Rightarrow> ServiceUsage \<Rightarrow> nat" where
  "usage_price r u =
     unat (function_mb_tera_instructions r) * unat (su_function_mb_instructions u) div 10 ^ 12
   + unat (db_gigabyte_months r) * unat (su_db_bytes_seconds u) div (1024 ^ 3 * 60 * 60 * 24 * 30)
   + unat (million_db_reads r) * unat (su_db_reads u) div 10 ^ 6
   + unat (million_db_writes r) * unat (su_db_writes u) div 10 ^ 6
   + unat (million_gateway_requests r) * unat (su_gateway_requests u) div 10 ^ 6
   + unat (gigabytes_gateway_traffic r) * unat (su_gateway_traffic_bytes u) div 1024 ^ 3"

text \<open>The products fit their machine type and the price fits 64 bits.\<close>

definition usage_fits :: "ServiceRates \<Rightarrow> ServiceUsage \<Rightarrow> bool" where
  "usage_fits r u \<longleftrightarrow>
     unat (function_mb_tera_instructions r) * unat (su_function_mb_instructions u) < 2 ^ 128
   \<and> unat (db_gigabyte_months r) * unat (su_db_bytes_seconds u) < 2 ^ 128
   \<and> unat (million_db_reads r) * unat (su_db_reads u) < 2 ^ 64
   \<and> unat (million_db_writes r) * unat (su_db_writes u) < 2 ^ 64
   \<and> unat (million_gateway_requests r) * unat (su_gateway_requests u) < 2 ^ 64
   \<and> unat (gigabytes_gateway_traffic r) * unat (su_gateway_traffic_bytes u) < 2 ^ 64
   \<and> usage_price r u < 2 ^ 64"

text \<open>A computation that returns a given number.\<close>

definition computes :: "'a::len word option \<Rightarrow> nat \<Rightarrow> bool" where
  "computes m n \<longleftrightarrow> (\<exists>t. m = Some t \<and> unat t = n)"

lemma computes_price_u64:
  assumes "unat rate * unat amount < 2 ^ 64"
  shows "computes (price_u64 ovf rate amount unit) (unat rate * unat amount div unat unit)"
  using arith_mul_exact [of rate amount] assms by (simp add: computes_def price_u64_def unat_div)

lemma computes_price_u128:
  assumes "unat rate * unat amount < 2 ^ 128" and "unat rate * unat amount div unat unit < 2 ^ 64"
  shows "computes (price_u128 ovf rate amount unit) (unat rate * unat amount div unat unit)"
proof -
  have w: "unat (ucast rate :: u128) = unat rate" by (rule unat_ucast_widen) simp
  then have m: "arith_mul ovf (ucast rate) amount = Some (ucast rate * amount)"
    "unat (ucast rate * amount) = unat rate * unat amount"
    using arith_mul_exact [of "ucast rate" amount] assms(1) by simp_all
  then have "unat (ucast ((ucast rate * amount) div unit) :: u64) = unat rate * unat amount div unat unit"
    using unat_ucast_fits [of "(ucast rate * amount) div unit", where ?'b = 64] assms(2)
    by (simp add: unat_div)
  with m show ?thesis by (simp add: computes_def price_u128_def)
qed

lemma computes_add_price:
  assumes "computes m a" and "computes n b" and "a + b < 2 ^ 64"
  shows "computes (add_price ovf m n) (a + b)"
proof -
  from assms obtain x y where "m = Some x" "n = Some y" and xy: "unat x = a" "unat y = b"
    by (auto simp: computes_def)
  moreover have "unat x + unat y < 2 ^ LENGTH(64)" using xy assms(3) by simp
  ultimately show ?thesis using arith_add_exact(1) [of x y ovf] arith_add_exact(2) [of x y] by (simp add: computes_def add_price_def)
qed

lemma calc_usage_exact:
  assumes "usage_fits r u"
  shows "computes (calc_usage ovf r u) (usage_price r u)"
proof -
  have "usage_price r u < 2 ^ 64" using assms by (simp add: usage_fits_def)
  then show ?thesis
    using assms
      computes_price_u128 [of "function_mb_tera_instructions r" "su_function_mb_instructions u" 1000000000000 ovf]
      computes_price_u128 [of "db_gigabyte_months r" "su_db_bytes_seconds u"
        "1024 * 1024 * 1024 * 60 * 60 * 24 * 30" ovf]
      computes_price_u64 [of "million_db_reads r" "su_db_reads u" ovf 1000000]
      computes_price_u64 [of "million_db_writes r" "su_db_writes u" ovf 1000000]
      computes_price_u64 [of "million_gateway_requests r" "su_gateway_requests u" ovf 1000000]
      computes_price_u64 [of "gigabytes_gateway_traffic r" "su_gateway_traffic_bytes u" ovf "1024 * 1024 * 1024"]
    unfolding calc_usage_def usage_price_def usage_fits_def
    by (intro computes_add_price) (simp_all add: computes_def)
qed

section \<open>The split\<close>

lemma split_price_sum:
  assumes rate: "rate \<le> 1000000" and "split_price ovf rate t = Some (p, c)"
  shows "unat p + unat c = unat t"
    and "unat c \<le> unat t * unat rate div 1000000"
    and "unat t * unat rate < 2 ^ 64 \<Longrightarrow> unat c = unat t * unat rate div 1000000"
proof -
  let ?m = "t * ucast rate"
  from assms(2) have c: "c = ?m div 1000000" and p: "arith_sub ovf t c = Some p"
    by (auto simp: split_price_def arith_mul_def Option.bind_eq_Some_conv split: if_splits)
  have w: "unat (ucast rate :: u64) = unat rate" by (rule unat_ucast_widen) simp
  have r: "unat rate \<le> 1000000" using rate by (simp add: word_le_nat_alt)
  have m: "unat ?m = unat t * unat rate mod 2 ^ 64" by (simp add: unat_word_ariths w)
  have cn: "unat c = (unat t * unat rate mod 2 ^ 64) div 1000000" by (simp add: c unat_div m)
  also have "\<dots> \<le> unat t * unat rate div 1000000" by (intro div_le_mono) simp
  finally show le: "unat c \<le> unat t * unat rate div 1000000" .
  also have "\<dots> \<le> unat t * 1000000 div 1000000" using r by (intro div_le_mono) simp
  finally have "c \<le> t" by (simp add: word_le_nat_alt)
  with p show "unat p + unat c = unat t" by (auto simp: arith_sub_def unat_sub word_le_nat_alt split: if_splits)
  show "unat c = unat t * unat rate div 1000000" if "unat t * unat rate < 2 ^ 64"
    using that by (simp add: cn)
qed

lemma split_price_defined:
  assumes "rate \<le> 1000000" and "unat t * unat rate < 2 ^ 64"
  shows "\<exists>p c. split_price ovf rate t = Some (p, c)"
proof -
  have w: "unat (ucast rate :: u64) = unat rate" by (rule unat_ucast_widen) simp
  then have m: "arith_mul ovf t (ucast rate) = Some (t * ucast rate)"
    "unat (t * ucast rate) = unat t * unat rate"
    using arith_mul_exact [of t "ucast rate"] assms(2) by simp_all
  have r: "unat rate \<le> 1000000" using assms(1) by (simp add: word_le_nat_alt)
  have "unat (t * ucast rate div 1000000) \<le> unat t"
    using div_le_mono [of "unat t * unat rate" "unat t * 1000000" 1000000] r by (simp add: unat_div m(2))
  then have "t * ucast rate div 1000000 \<le> t" by (simp add: word_le_nat_alt)
  then show ?thesis by (auto simp: split_price_def m(1) arith_sub_exact(1))
qed

section \<open>The token program\<close>

text \<open>
  The documented behaviour of the SPL token program the marketplace relies on: a transfer
  needs an authority that may spend from the source and a sufficient balance, moves exactly
  the amount and gives nobody new spending rights; a new account is empty and can be spent
  from by its authority only.
\<close>

definition token_contract :: "'t solana \<Rightarrow> bool" where
  "token_contract sol \<longleftrightarrow>
     (\<forall>f t a n s s'. tok_transfer sol f t a n s = Some s' \<longrightarrow>
        tok_may_spend sol s f a \<and> unat n \<le> tok_balance sol s f
        \<and> tok_balance sol s' = (if f = t then tok_balance sol s else
             (tok_balance sol s)(f := tok_balance sol s f - unat n, t := tok_balance sol s t + unat n))
        \<and> (\<forall>k x. tok_may_spend sol s' k x \<longrightarrow> tok_may_spend sol s k x))
   \<and> (\<forall>k m a s s'. tok_init sol k m a s = Some s' \<longrightarrow>
        \<not> tok_is_account sol s k \<and> tok_balance sol s' = (tok_balance sol s)(k := 0)
        \<and> (\<forall>j x. tok_may_spend sol s' j x \<longleftrightarrow> (if j = k then x = a else tok_may_spend sol s j x)))
   \<and> (\<forall>s k. \<not> tok_is_account sol s k \<longrightarrow> tok_balance sol s k = 0)"

lemma token_transferD:
  assumes "token_contract sol" and "tok_transfer sol f t a n s = Some s'"
  shows "tok_may_spend sol s f a" and "unat n \<le> tok_balance sol s f"
    and "tok_balance sol s' k = (if f = t then tok_balance sol s k else
           if k = t then tok_balance sol s k + unat n
           else if k = f then tok_balance sol s k - unat n else tok_balance sol s k)"
  using assms unfolding token_contract_def by (blast, blast, auto)

lemma token_initD:
  assumes "token_contract sol" and "tok_init sol k m a s = Some s'"
  shows "tok_balance sol s' j = tok_balance sol s j"
  using assms unfolding token_contract_def by (cases "j = k") auto

text \<open>A token program that satisfies the contract, for witnesses.\<close>

record simple_tokens =
  st_mints :: "pubkey list"
  st_accounts :: "pubkey \<Rightarrow> (pubkey \<times> nat) option"

definition simple_balance :: "simple_tokens \<Rightarrow> pubkey \<Rightarrow> nat" where
  "simple_balance s k = (case st_accounts s k of None \<Rightarrow> 0 | Some (a, n) \<Rightarrow> n)"

definition simple_transfer :: "pubkey \<Rightarrow> pubkey \<Rightarrow> pubkey \<Rightarrow> u64 \<Rightarrow> simple_tokens \<Rightarrow> simple_tokens option" where
  "simple_transfer f t a n s =
     (case (st_accounts s f, st_accounts s t) of
        (Some (af, bf), Some (at, bt)) \<Rightarrow>
          if af = a \<and> unat n \<le> bf then
            if f = t then Some s
            else Some (s\<lparr>st_accounts := (st_accounts s)(f \<mapsto> (af, bf - unat n), t \<mapsto> (at, bt + unat n))\<rparr>)
          else None
      | _ \<Rightarrow> None)"

definition simple_init :: "pubkey \<Rightarrow> pubkey \<Rightarrow> pubkey \<Rightarrow> simple_tokens \<Rightarrow> simple_tokens option" where
  "simple_init k m a s =
     (if st_accounts s k = None \<and> m \<in> set (st_mints s)
      then Some (s\<lparr>st_accounts := (st_accounts s)(k \<mapsto> (a, 0))\<rparr>) else None)"

definition simple_solana :: "bool \<Rightarrow> simple_tokens solana" where
  "simple_solana ovf =
     \<lparr>ovf_checks = ovf,
      create_pda = (\<lambda>seeds b. if b = 255 then Some (concat seeds) else None),
      find_pda = (\<lambda>seeds. (concat seeds, 255)),
      tok_is_mint = (\<lambda>s k. k \<in> set (st_mints s)),
      tok_is_account = (\<lambda>s k. st_accounts s k \<noteq> None),
      tok_init = simple_init,
      tok_transfer = simple_transfer,
      tok_balance = simple_balance,
      tok_may_spend = (\<lambda>s k a. map_option fst (st_accounts s k) = Some a)\<rparr>"

lemma simple_token_contract: "token_contract (simple_solana ovf)"
  unfolding token_contract_def
proof (intro conjI allI impI)
  fix f t a n s s' assume "tok_transfer (simple_solana ovf) f t a n s = Some s'"
  then show "tok_balance (simple_solana ovf) s' = (if f = t then tok_balance (simple_solana ovf) s else
      (tok_balance (simple_solana ovf) s)(f := tok_balance (simple_solana ovf) s f - unat n,
        t := tok_balance (simple_solana ovf) s t + unat n))"
    by (auto simp: simple_solana_def simple_transfer_def simple_balance_def fun_eq_iff
        split: option.splits if_splits prod.splits)
qed (auto simp: simple_solana_def simple_transfer_def simple_init_def simple_balance_def fun_eq_iff
    split: option.splits if_splits prod.splits)

section \<open>Payments\<close>

lemma update_usage_Inr:
  assumes "update_usage sol sg st ct asg rg ta uu es sk sn sd bp u l = Inr l'"
  shows "\<exists>s a r k t p c l1 b. accts l st = Some (AMuState s) \<and> ms_commission_token s = ct
     \<and> accts l asg = Some (AUsageSigner a) \<and> us_signer a = sn \<and> us_token_account a = ta
     \<and> fst (find_pda sol (usage_signer_seeds rg)) = asg
     \<and> accts l rg = Some (ARegion r) \<and> accts l sk = Some (AStack k) \<and> sk_region k = rg \<and> sn \<in> set sg
     \<and> find_pda sol (update_seeds sk rg sd) = (uu, b) \<and> accts l uu = None
     \<and> create_pda sol (escrow_seeds (sk_user k) (rg_provider r)) bp = Some es
     \<and> calc_usage (ovf_checks sol) (rg_rates r) u = Some t
     \<and> split_price (ovf_checks sol) (ms_commission_rate_micros s) t = Some (p, c)
     \<and> tok_transfer sol es ta st p (toks l) = Some l1 \<and> tok_transfer sol es ct st c l1 = Some (toks l')
     \<and> accts l' = (accts l)(uu \<mapsto>
          AUsageUpdate \<lparr>uu_region = rg, uu_stack = sk, uu_seed = sd, uu_usage = u\<rparr>)"
  using assms by (auto simp: update_usage_def res_simps market_simps seeds_ok_def)

end
