(* ===== verification/Marketplace_History.thy ===== *)
theory Marketplace_History
  imports Marketplace_Pricing
begin

text \<open>
  Histories of the marketplace ledger: what holds after any sequence of successful
  instructions, by rule induction over \<^const>\<open>market_reachable\<close>, and the properties of the
  program that users and providers rely on.
\<close>

section \<open>The ledger invariant\<close>

fun account_ok :: "(pubkey \<Rightarrow> account option) \<Rightarrow> account \<Rightarrow> bool" where
  "account_ok m (AMuState s) = (ms_commission_rate_micros s \<le> 1000000)"
| "account_ok m (ARegion r) = authorized_provider m (rg_provider r)"
| "account_ok m (AStack s) = (\<exists>r. m (sk_region s) = Some (ARegion r))"
| "account_ok m (ARequestSigner q) = (\<exists>r. m (rs_region q) = Some (ARegion r))"
| "account_ok m (AUsageUpdate u) =
     ((\<exists>r. m (uu_region u) = Some (ARegion r))
      \<and> (\<exists>s. m (uu_stack u) = Some (AStack s) \<and> sk_region s = uu_region u))"
| "account_ok m _ = True"

definition market_inv :: "'t ledger \<Rightarrow> bool" where
  "market_inv l \<longleftrightarrow> (\<forall>k a. accts l k = Some a \<longrightarrow> account_ok (accts l) a)"

text \<open>An account never disappears and keeps what makes it what it is.\<close>

fun same_identity :: "account \<Rightarrow> account \<Rightarrow> bool" where
  "same_identity (AMuState s) b = (\<exists>d. b = AMuState (s\<lparr>ms_provider_deposit := d\<rparr>))"
| "same_identity (AProvider p) b = (\<exists>x. b = AProvider (p\<lparr>pr_authorized := x\<rparr>) \<and> (pr_authorized p \<longrightarrow> x))"
| "same_identity (AStack s) b = (\<exists>x. b = AStack (s\<lparr>sk_state := x\<rparr>))"
| "same_identity (ARequestSigner r) b = (\<exists>x. b = ARequestSigner (r\<lparr>rs_active := x\<rparr>))"
| "same_identity a b = (b = a)"

lemma same_identity_refl: "same_identity a a"
proof (cases a)
  case (AMuState s)
  have "s = s\<lparr>ms_provider_deposit := ms_provider_deposit s\<rparr>" by simp
  with AMuState show ?thesis by (metis same_identity.simps(1))
next
  case (AProvider p)
  have "p = p\<lparr>pr_authorized := pr_authorized p\<rparr>" by simp
  with AProvider show ?thesis by (metis same_identity.simps(2))
next
  case (AStack s)
  have "s = s\<lparr>sk_state := sk_state s\<rparr>" by simp
  with AStack show ?thesis by (metis same_identity.simps(3))
next
  case (ARequestSigner r)
  have "r = r\<lparr>rs_active := rs_active r\<rparr>" by simp
  with ARequestSigner show ?thesis by (metis same_identity.simps(4))
qed simp_all

lemma same_identity_trans: "same_identity a b \<Longrightarrow> same_identity b c \<Longrightarrow> same_identity a c"
  by (cases a) auto

lemma evolves_identity: "evolves ovf m sg a b \<Longrightarrow> same_identity a b"
  by (cases "(ovf, m, sg, a, b)" rule: evolves.cases) auto

lemma effect_identity:
  assumes "account_effect sol sg l l'" and "accts l k = Some a"
  shows "\<exists>b. accts l' k = Some b \<and> same_identity a b"
proof -
  consider "accts l' k = accts l k"
    | b where "accts l' k = Some b" "evolves (ovf_checks sol) (accts l) sg a b"
    using assms unfolding account_effect_def by (metis fun_upd_apply option.distinct(1) option.inject)
  then show ?thesis
    using assms(2) by cases (auto intro: same_identity_refl evolves_identity)
qed

lemma effect_kept:
  assumes "account_effect sol sg l l'"
  shows "accts l k = Some (ARegion r) \<Longrightarrow> accts l' k = Some (ARegion r)"
    and "authorized_provider (accts l) k \<Longrightarrow> authorized_provider (accts l') k"
    and "accts l k = Some (AStack s) \<Longrightarrow> \<exists>x. accts l' k = Some (AStack (s\<lparr>sk_state := x\<rparr>))"
  using effect_identity [OF assms, of k] by (auto simp: authorized_provider_def)

lemma effect_ok_mono:
  assumes eff: "account_effect sol sg l l'" and ok: "account_ok (accts l) a"
  shows "account_ok (accts l') a"
proof (cases a)
  case (AUsageUpdate u)
  with ok obtain r s where "accts l (uu_region u) = Some (ARegion r)"
    "accts l (uu_stack u) = Some (AStack s)" "sk_region s = uu_region u" by auto
  with AUsageUpdate effect_kept(1) [OF eff] effect_kept(3) [OF eff] show ?thesis by fastforce
qed (use ok effect_kept(1) [OF eff] effect_kept(2) [OF eff] in auto)

lemma created_ok: "created m sg a \<Longrightarrow> account_ok m a"
  by (cases a) auto

lemma identity_ok: "same_identity a b \<Longrightarrow> account_ok m a \<Longrightarrow> account_ok m b"
  by (cases a) auto

lemma effect_inv:
  assumes eff: "account_effect sol sg l l'" and inv: "market_inv l"
  shows "market_inv l'"
  unfolding market_inv_def
proof (intro allI impI)
  fix k b assume b: "accts l' k = Some b"
  have "account_ok (accts l) b"
  proof (cases "accts l k")
    case None
    with b eff have "created (accts l) sg b"
      unfolding account_effect_def by (auto split: if_splits)
    then show ?thesis by (rule created_ok)
  next
    case (Some a)
    with effect_identity [OF eff Some] b inv show ?thesis
      by (auto simp: market_inv_def intro: identity_ok)
  qed
  then show "account_ok (accts l') b" by (rule effect_ok_mono [OF eff])
qed

section \<open>Histories\<close>

lemma market_step_effect: "market_step sol l l' \<Longrightarrow> \<exists>sg. account_effect sol sg l l'"
  by (erule market_stepE) (blast intro: exec_effect)

lemma reachable_inv: "market_reachable sol l0 l \<Longrightarrow> market_inv l0 \<Longrightarrow> market_inv l"
  by (induction rule: market_reachable.induct) (auto dest!: market_step_effect intro: effect_inv)

lemma reachable_identity:
  assumes "market_reachable sol l0 l" and "accts l0 k = Some a"
  shows "\<exists>b. accts l k = Some b \<and> same_identity a b"
  using assms
proof (induction rule: market_reachable.induct)
  case reach_refl
  then show ?case by (auto intro: same_identity_refl)
next
  case (reach_step l l')
  then obtain sg b where "account_effect sol sg l l'" "accts l k = Some b" "same_identity a b"
    by (auto dest: market_step_effect)
  then show ?case by (metis effect_identity same_identity_trans)
qed

text \<open>The order on the states of a stack: revisions grow, deletion is final.\<close>

fun state_le :: "StackState \<Rightarrow> StackState \<Rightarrow> bool" where
  "state_le (StackActive r n d) (StackActive r' n' d') = (r < r' \<or> r = r' \<and> n = n' \<and> d = d')"
| "state_le _ StackDeleted = True"
| "state_le StackDeleted (StackActive r n d) = False"

lemma state_le_refl [simp]: "state_le s s"
  by (cases s) simp_all

lemma state_le_trans: "state_le a b \<Longrightarrow> state_le b c \<Longrightarrow> state_le a c"
  by (cases a; cases b; cases c) auto

lemma state_evolves_le: "state_evolves True a b \<Longrightarrow> state_le a b"
  by (cases a; cases b) (auto simp: next_revision_def word_less_nat_alt)

lemma effect_stack:
  assumes "account_effect sol sg l l'" and "accts l k = Some (AStack s)"
  shows "accts l' k = Some (AStack s) \<or>
    (\<exists>st. accts l' k = Some (AStack (s\<lparr>sk_state := st\<rparr>)) \<and> state_evolves (ovf_checks sol) (sk_state s) st
       \<and> sk_user s \<in> set sg)"
proof -
  consider "accts l' k = accts l k"
    | b where "accts l' k = Some b" "evolves (ovf_checks sol) (accts l) sg (AStack s) b"
    using assms unfolding account_effect_def by (metis fun_upd_apply option.distinct(1) option.inject)
  then show ?thesis
  proof cases
    case 2
    then show ?thesis by (cases b) auto
  qed (use assms(2) in simp)
qed

lemma reachable_stack:
  assumes "market_reachable sol l0 l" and "accts l0 k = Some (AStack s)" and "ovf_checks sol"
  shows "\<exists>st. accts l k = Some (AStack (s\<lparr>sk_state := st\<rparr>)) \<and> state_le (sk_state s) st"
  using assms(1,2)
proof (induction rule: market_reachable.induct)
  case reach_refl
  then show ?case by (intro exI [of _ "sk_state s"]) simp
next
  case (reach_step l l')
  then obtain sg st where "account_effect sol sg l l'" and "accts l k = Some (AStack (s\<lparr>sk_state := st\<rparr>))"
    and le: "state_le (sk_state s) st"
    by (auto dest: market_step_effect)
  from effect_stack [OF this(1,2)] le show ?case
    using assms(3) by (auto intro: state_le_trans state_evolves_le)
qed

lemma reachable_deleted:
  assumes "market_reachable sol l0 l" and "accts l0 k = Some (AStack s)"
  shows "\<exists>st. accts l k = Some (AStack (s\<lparr>sk_state := st\<rparr>)) \<and> (sk_state s = StackDeleted \<longrightarrow> st = StackDeleted)"
  using assms
proof (induction rule: market_reachable.induct)
  case reach_refl
  then show ?case by (intro exI [of _ "sk_state s"]) simp
next
  case (reach_step l l')
  then obtain sg st where "account_effect sol sg l l'" and "accts l k = Some (AStack (s\<lparr>sk_state := st\<rparr>))"
    and "sk_state s = StackDeleted \<longrightarrow> st = StackDeleted"
    by (auto dest: market_step_effect)
  with effect_stack [OF this(1,2)] show ?case by auto
qed

section \<open>A small history for witnesses\<close>

definition demo_state_key :: pubkey where
  "demo_state_key = concat state_seeds"

definition demo_escrow :: pubkey where
  "demo_escrow = concat (escrow_seeds [1] [2])"

definition demo_rates :: ServiceRates where
  "demo_rates = \<lparr>function_mb_tera_instructions = 0, db_gigabyte_months = 0, million_db_reads = 0,
     million_db_writes = 0, million_gateway_requests = 1000000, gigabytes_gateway_traffic = 0\<rparr>"

definition demo_usage :: ServiceUsage where
  "demo_usage = \<lparr>su_function_mb_instructions = 0, su_db_bytes_seconds = 0, su_db_reads = 0,
     su_db_writes = 0, su_gateway_requests = 500, su_gateway_traffic_bytes = 0\<rparr>"

definition demo_state :: MuState where
  "demo_state = \<lparr>ms_authority = [6], ms_mint = [9], ms_deposit_token = [10], ms_commission_token = [11],
     ms_commission_rate_micros = 100000, ms_provider_deposit = 0, ms_bump = 255\<rparr>"

definition demo_provider :: Provider where
  "demo_provider = \<lparr>pr_owner = [7], pr_authorized = True, pr_name = ''p'', pr_deposit = 0, pr_bump = 255\<rparr>"

definition demo_region :: ProviderRegion where
  "demo_region = \<lparr>rg_provider = [2], rg_region_num = 1, rg_rates = demo_rates, rg_min_escrow_balance = 0,
     rg_max_giga_instructions_per_call = 1, rg_bump = 255, rg_name = ''r'', rg_base_url = ''u''\<rparr>"

definition demo_stack :: StackAccount where
  "demo_stack = \<lparr>sk_user = [1], sk_region = [3], sk_seed = 0, sk_bump = 255,
     sk_state = StackActive 1 ''s'' []\<rparr>"

definition demo_stack_key :: pubkey where
  "demo_stack_key = concat (stack_seeds [1] [3] 0)"

definition demo_signer_key :: pubkey where
  "demo_signer_key = concat (usage_signer_seeds [3])"

definition demo_ledger :: "simple_tokens ledger" where
  "demo_ledger =
     \<lparr>accts = [demo_state_key \<mapsto> AMuState demo_state, [2] \<mapsto> AProvider demo_provider,
        [3] \<mapsto> ARegion demo_region, demo_stack_key \<mapsto> AStack demo_stack,
        demo_signer_key \<mapsto> AUsageSigner \<lparr>us_signer = [5], us_token_account = [12]\<rparr>],
      toks = \<lparr>st_mints = [[9]], st_accounts =
        [demo_escrow \<mapsto> (demo_state_key, 1000), [11] \<mapsto> ([6], 0), [12] \<mapsto> ([7], 0)]\<rparr>\<rparr>"

definition demo_charge :: "simple_tokens ledger \<Rightarrow> market_error + simple_tokens ledger" where
  "demo_charge = update_usage (simple_solana True) [[5]] demo_state_key [11] demo_signer_key [3] [12]
     (concat (update_seeds demo_stack_key [3] 77)) demo_escrow demo_stack_key [5] 77 255 demo_usage"

lemmas demo_keys = demo_state_key_def demo_escrow_def demo_stack_key_def demo_signer_key_def state_seeds_def
  escrow_seeds_def stack_seeds_def usage_signer_seeds_def update_seeds_def as_bytes_def byte_of_char_def

lemmas demo_defs = demo_rates_def demo_usage_def demo_state_def demo_provider_def demo_region_def
  demo_stack_def demo_ledger_def simple_solana_def

lemma demo_price: "calc_usage True demo_rates demo_usage = Some 500"
  by (simp add: calc_usage_def add_price_def price_u128_def price_u64_def arith_mul_def arith_add_def
      demo_rates_def demo_usage_def)

lemma demo_split: "split_price True 100000 500 = Some (450, 50)"
  by (simp add: split_price_def arith_mul_def arith_sub_def)

lemma demo_key_values:
  "demo_state_key = [115,116,97,116,101]"
  "demo_escrow = [101,115,99,114,111,119,1,2]"
  "demo_signer_key = [97,117,116,104,111,114,105,122,101,100,95,115,105,103,110,101,114,3]"
  "demo_stack_key = [115,116,97,99,107,1,3,0,0,0,0,0,0,0,0]"
  by (simp_all add: demo_keys le_bytes_def upt_rec)

lemma demo_update_key:
  "concat (update_seeds demo_stack_key [3] 77) =
     [117,112,100,97,116,101,115,116,97,99,107,1,3,0,0,0,0,0,0,0,0,3,77,0,0,0,0,0,0,0,0,0,0,0,0,0,0,0]"
  by (simp add: demo_key_values update_seeds_def as_bytes_def byte_of_char_def le_bytes_def upt_rec)

lemma demo_seeds:
  "concat state_seeds = demo_state_key" "concat (usage_signer_seeds [3]) = demo_signer_key"
  "concat (escrow_seeds [1] [2]) = demo_escrow" "concat (stack_seeds [1] [3] 0) = demo_stack_key"
  by (simp_all add: demo_state_key_def demo_signer_key_def demo_escrow_def demo_stack_key_def)

lemma demo_charge_result:
  "\<exists>l'. demo_charge demo_ledger = Inr l' \<and> simple_balance (toks l') demo_escrow = 500"
  by (simp add: demo_charge_def update_usage_def accounts_defs get_state_def load_defs ensure_def seeds_ok_def
      demo_ledger_def simple_solana_def init_pda_def transfer_def store_def demo_seeds demo_update_key
      simple_transfer_def demo_state_def demo_region_def demo_stack_def demo_price demo_split)
    (simp add: demo_key_values simple_balance_def)

lemma demo_charge_ok: "\<exists>l'. demo_charge demo_ledger = Inr l'"
  using demo_charge_result by blast

lemma demo_charge_balance:
  assumes "demo_charge demo_ledger = Inr l'"
  shows "tok_balance (simple_solana True) (toks demo_ledger) demo_escrow = 1000"
    and "tok_balance (simple_solana True) (toks l') demo_escrow = 500"
  using assms demo_charge_result
  by (auto simp: simple_solana_def demo_ledger_def simple_balance_def demo_key_values)

lemma demo_accounts:
  "accts demo_ledger demo_state_key = Some (AMuState demo_state)"
  "accts demo_ledger [3] = Some (ARegion demo_region)"
  "accts demo_ledger demo_stack_key = Some (AStack demo_stack)"
  by (simp_all add: demo_ledger_def demo_key_values)

lemma demo_inv: "market_inv demo_ledger"
  unfolding market_inv_def
  by (auto simp: demo_ledger_def demo_key_values demo_state_def demo_region_def demo_stack_def
      demo_provider_def authorized_provider_def split: if_splits)

section \<open>Properties\<close>

text \<open>
  C3. Whatever instructions are executed from an empty program, the accounts stay consistent:
  the commission rate is at most one million millionths, every region belongs to an authorized
  provider, every stack and request signer to an existing region, and every usage update to an
  existing stack of the region it names.
\<close>

theorem market_invariant:
  assumes "market_reachable sol l0 l" and "accts l0 = (\<lambda>_. None)"
  shows "market_inv l"
  using reachable_inv [OF assms(1)] assms(2) by (simp add: market_inv_def)

definition demo_empty :: "simple_tokens ledger" where
  "demo_empty = \<lparr>accts = \<lambda>_. None, toks = \<lparr>st_mints = [[9]], st_accounts = \<lambda>_. None\<rparr>\<rparr>"

theorem market_invariant_witness:
  "\<exists>l. initialize (simple_solana True) [[6]] demo_state_key [9] (as_bytes ''deposit'') (as_bytes ''commission'')
     [6] 100000 10 demo_empty = Inr l \<and> market_inv l"
proof -
  have "\<exists>l. initialize (simple_solana True) [[6]] demo_state_key [9] (as_bytes ''deposit'')
      (as_bytes ''commission'') [6] 100000 10 demo_empty = Inr l"
    by (simp add: initialize_def accounts_defs init_pda_def init_token_def ensure_def store_def demo_empty_def
        simple_solana_def simple_init_def demo_seeds)
      (simp add: demo_key_values as_bytes_def byte_of_char_def)
  then obtain l where l: "initialize (simple_solana True) [[6]] demo_state_key [9] (as_bytes ''deposit'')
      (as_bytes ''commission'') [6] 100000 10 demo_empty = Inr l" by blast
  then have "exec (simple_solana True) [[6]] (Initialize demo_state_key [9] (as_bytes ''deposit'')
      (as_bytes ''commission'') [6] 100000 10) demo_empty = Inr l" by simp
  then have "market_reachable (simple_solana True) demo_empty l"
    by (blast intro: market_reachable.intros market_step.intros)
  then have "market_inv l" by (rule market_invariant) (simp add: demo_empty_def)
  with l show ?thesis by blast
qed

text \<open>
  C1. A usage update charges the escrow account exactly the computed price and splits it
  without loss between the provider's token account and the commission account, the commission
  never above its rate, whether or not overflow checks are compiled in; when the products fit
  their machine types the price is the one the formula over the integers gives.
\<close>

theorem update_usage_pays:
  assumes "token_contract sol"
    and "update_usage sol sg st ct asg rg ta uu es sk sn sd bp u l = Inr l'"
    and "market_inv l"
    and "accts l st = Some (AMuState s)" and "accts l rg = Some (ARegion r)"
    and "distinct [es, ta, ct]"
  shows "\<exists>price fee. tok_balance sol (toks l) es = tok_balance sol (toks l') es + price
     \<and> fee \<le> price * unat (ms_commission_rate_micros s) div 1000000 \<and> fee \<le> price
     \<and> tok_balance sol (toks l') ta = tok_balance sol (toks l) ta + (price - fee)
     \<and> tok_balance sol (toks l') ct = tok_balance sol (toks l) ct + fee
     \<and> (\<forall>k. k \<noteq> es \<and> k \<noteq> ta \<and> k \<noteq> ct \<longrightarrow> tok_balance sol (toks l') k = tok_balance sol (toks l) k)
     \<and> (usage_fits (rg_rates r) u \<longrightarrow> price = usage_price (rg_rates r) u)"
proof -
  from update_usage_Inr [OF assms(2)] assms(4,5) obtain t p c ts where
    calc: "calc_usage (ovf_checks sol) (rg_rates r) u = Some t"
    and split: "split_price (ovf_checks sol) (ms_commission_rate_micros s) t = Some (p, c)"
    and tr1: "tok_transfer sol es ta st p (toks l) = Some ts"
    and tr2: "tok_transfer sol es ct st c ts = Some (toks l')"
    by auto
  have rate: "ms_commission_rate_micros s \<le> 1000000"
    using assms(3,4) by (force simp: market_inv_def)
  note sum = split_price_sum [OF rate split]
  have fits: "unat t = usage_price (rg_rates r) u" if "usage_fits (rg_rates r) u"
    using calc_usage_exact [OF that, of "ovf_checks sol"] calc by (simp add: computes_def)
  show ?thesis
    using token_transferD [OF assms(1) tr1] token_transferD [OF assms(1) tr2] assms(6) sum(1,2) fits
    by (intro exI [of _ "unat t"] exI [of _ "unat c"]) auto
qed

theorem update_usage_pays_witness:
  "\<exists>l'. demo_charge demo_ledger = Inr l'
     \<and> (\<exists>price fee. tok_balance (simple_solana True) (toks demo_ledger) demo_escrow =
          tok_balance (simple_solana True) (toks l') demo_escrow + price
        \<and> tok_balance (simple_solana True) (toks l') [11] = 0 + fee)"
proof -
  obtain l' where l': "demo_charge demo_ledger = Inr l'" using demo_charge_ok by blast
  have d: "distinct [demo_escrow, [12], [11]]" by (simp add: demo_key_values)
  have z: "tok_balance (simple_solana True) (toks demo_ledger) [11] = 0"
    by (simp add: simple_solana_def demo_ledger_def simple_balance_def demo_key_values)
  from update_usage_pays [OF simple_token_contract l' [unfolded demo_charge_def] demo_inv demo_accounts(1,2) d] z l'
  show ?thesis by (intro exI [of _ l']) auto
qed

text \<open>
  C2. A usage report is charged at most once: after a successful usage update, no usage update
  for the same stack, region and seed succeeds in any later state of the ledger, whoever signs
  it and whatever usage it reports.
\<close>

theorem usage_not_charged_twice:
  assumes "update_usage sol sg st ct asg rg ta uu es sk sn sd bp u l = Inr l'"
    and "market_reachable sol l' l''"
  shows "\<exists>e. update_usage sol sg2 st2 ct2 asg2 rg ta2 uu2 es2 sk sn2 sd bp2 u2 l'' = Inl e"
proof (rule ccontr)
  assume "\<nexists>e. update_usage sol sg2 st2 ct2 asg2 rg ta2 uu2 es2 sk sn2 sd bp2 u2 l'' = Inl e"
  then obtain l3 where "update_usage sol sg2 st2 ct2 asg2 rg ta2 uu2 es2 sk sn2 sd bp2 u2 l'' = Inr l3"
    by (meson sum.exhaust)
  from update_usage_Inr [OF this] have unused: "accts l'' (fst (find_pda sol (update_seeds sk rg sd))) = None"
    by auto
  from update_usage_Inr [OF assms(1)] have "accts l' (fst (find_pda sol (update_seeds sk rg sd))) \<noteq> None"
    by auto
  then obtain a where "accts l' (fst (find_pda sol (update_seeds sk rg sd))) = Some a" by blast
  from reachable_identity [OF assms(2) this] unused show False by simp
qed

theorem usage_not_charged_twice_witness:
  "\<exists>l'. demo_charge demo_ledger = Inr l' \<and> (\<exists>e. demo_charge l' = Inl e)"
proof -
  obtain l' where l': "demo_charge demo_ledger = Inr l'" using demo_charge_ok by blast
  from usage_not_charged_twice [OF l' [unfolded demo_charge_def] market_reachable.reach_refl] l'
  show ?thesis unfolding demo_charge_def by blast
qed

text \<open>
  C5. The life cycle of a stack: its user, region and seed never change; once deleted it stays
  deleted; with overflow checks its revision only grows, and its name and data change only
  together with the revision.
\<close>

theorem stack_lifecycle:
  assumes "market_reachable sol l0 l" and "accts l0 k = Some (AStack s)"
  shows "\<exists>st. accts l k = Some (AStack (s\<lparr>sk_state := st\<rparr>))
     \<and> (sk_state s = StackDeleted \<longrightarrow> st = StackDeleted)
     \<and> (ovf_checks sol \<longrightarrow> state_le (sk_state s) st)"
proof -
  have "\<exists>st. accts l k = Some (AStack (s\<lparr>sk_state := st\<rparr>)) \<and> (sk_state s = StackDeleted \<longrightarrow> st = StackDeleted)"
    using assms by (rule reachable_deleted)
  then show ?thesis using reachable_stack [OF assms] by (cases "ovf_checks sol") auto
qed

theorem stack_lifecycle_witness:
  "\<exists>l. delete_stack (simple_solana True) [[1]] [3] demo_stack_key [1] 0 demo_ledger = Inr l
     \<and> (\<exists>st. accts l demo_stack_key = Some (AStack (demo_stack\<lparr>sk_state := st\<rparr>)) \<and> state_le (sk_state demo_stack) st)"
proof -
  have "\<exists>l. delete_stack (simple_solana True) [[1]] [3] demo_stack_key [1] 0 demo_ledger = Inr l"
    by (simp add: delete_stack_def accounts_defs load_defs demo_accounts ensure_def seeds_ok_def store_def)
      (simp add: demo_stack_def simple_solana_def demo_seeds)
  then obtain l where l: "delete_stack (simple_solana True) [[1]] [3] demo_stack_key [1] 0 demo_ledger = Inr l"
    by blast
  then have "exec (simple_solana True) [[1]] (DeleteStack [3] demo_stack_key [1] 0) demo_ledger = Inr l" by simp
  then have "market_reachable (simple_solana True) demo_ledger l"
    by (blast intro: market_reachable.intros market_step.intros)
  from stack_lifecycle [OF this demo_accounts(3)] l show ?thesis by (auto simp: simple_solana_def)
qed

text \<open>
  C6. An existing account changes only with the right signatures: a stack with its user's, a
  request signer with its user's (and its own when it becomes active), a provider only by
  becoming authorized with the signature of a registered authorizer; of the global state only
  the provider deposit changes; regions, authorizers, usage signers and usage updates never
  change.
\<close>

theorem account_changes_authorized:
  assumes "exec sol sg ins l = Inr l'" and "accts l k = Some a" and "accts l' k \<noteq> Some a"
  shows "case a of
      AStack s \<Rightarrow> sk_user s \<in> set sg
    | ARequestSigner q \<Rightarrow> rs_user q \<in> set sg
        \<and> (accts l' k = Some (ARequestSigner (q\<lparr>rs_active := True\<rparr>)) \<longrightarrow> rs_signer q \<in> set sg)
    | AProvider p \<Rightarrow> accts l' k = Some (AProvider (p\<lparr>pr_authorized := True\<rparr>))
        \<and> (\<exists>j z. accts l j = Some (AAuthorizer z) \<and> pa_authorizer z \<in> set sg)
    | AMuState s \<Rightarrow> \<exists>d. accts l' k = Some (AMuState (s\<lparr>ms_provider_deposit := d\<rparr>))
    | _ \<Rightarrow> False"
proof -
  from exec_effect [OF assms(1)] assms(2,3) obtain b where b: "accts l' k = Some b"
    and ev: "evolves (ovf_checks sol) (accts l) sg a b"
    unfolding account_effect_def by (metis fun_upd_apply option.distinct(1) option.inject)
  show ?thesis
    using ev b assms(3) by (cases "(ovf_checks sol, accts l, sg, a, b)" rule: evolves.cases) (auto dest: arg_cong [where f = rs_active])
qed

theorem account_changes_authorized_witness:
  "\<exists>l. delete_stack (simple_solana True) [[1]] [3] demo_stack_key [1] 0 demo_ledger = Inr l
     \<and> accts l demo_stack_key \<noteq> Some (AStack demo_stack) \<and> sk_user demo_stack \<in> set [[1]]"
proof -
  have "\<exists>l. delete_stack (simple_solana True) [[1]] [3] demo_stack_key [1] 0 demo_ledger = Inr l
      \<and> accts l demo_stack_key \<noteq> Some (AStack demo_stack)"
    by (simp add: delete_stack_def accounts_defs load_defs demo_accounts ensure_def seeds_ok_def store_def)
      (simp add: demo_stack_def simple_solana_def demo_seeds)
  then obtain l where l: "delete_stack (simple_solana True) [[1]] [3] demo_stack_key [1] 0 demo_ledger = Inr l"
    and ne: "accts l demo_stack_key \<noteq> Some (AStack demo_stack)"
    by blast
  then have "exec (simple_solana True) [[1]] (DeleteStack [3] demo_stack_key [1] 0) demo_ledger = Inr l" by simp
  from account_changes_authorized [OF this demo_accounts(3) ne] l ne show ?thesis by auto
qed

end
