(* ===== verification/Marketplace_Tokens.thy ===== *)
theory Marketplace_Tokens
  imports Marketplace_History
begin

text \<open>
  Who can take tokens out of an escrow account, and that the space reserved for an account is
  always enough. Program derived addresses have no private key, so the address of the state
  account never signs a transaction by itself.
\<close>

section \<open>Debits\<close>

definition debited :: "'t solana \<Rightarrow> 't ledger \<Rightarrow> 't ledger \<Rightarrow> pubkey \<Rightarrow> bool" where
  "debited sol l l' a \<longleftrightarrow> tok_balance sol (toks l') a < tok_balance sol (toks l) a"

lemma transfer_debit:
  assumes "token_contract sol" and "tok_transfer sol f t au n ts = Some ts'"
    and "tok_balance sol ts' a < tok_balance sol ts a"
  shows "a = f \<and> tok_may_spend sol ts f au"
  using token_transferD [OF assms(1,2)] assms(3) by (auto split: if_splits)

lemma transfer_spend_mono:
  assumes "token_contract sol" and "tok_transfer sol f t au n ts = Some ts'" and "tok_may_spend sol ts' k x"
  shows "tok_may_spend sol ts k x"
  using assms unfolding token_contract_def by blast

text \<open>The ways an instruction can lower the balance of a token account.\<close>

definition own_spending :: "'t solana \<Rightarrow> pubkey list \<Rightarrow> 't ledger \<Rightarrow> pubkey \<Rightarrow> bool" where
  "own_spending sol sg l a \<longleftrightarrow> (\<exists>x \<in> set sg. tok_may_spend sol (toks l) a x)"

definition user_withdrawal :: "'t solana \<Rightarrow> pubkey list \<Rightarrow> pubkey \<Rightarrow> bool" where
  "user_withdrawal sol sg a \<longleftrightarrow> (\<exists>u p. u \<in> set sg \<and> a = fst (find_pda sol (escrow_seeds u p)))"

definition usage_charge :: "'t solana \<Rightarrow> pubkey list \<Rightarrow> 't ledger \<Rightarrow> pubkey \<Rightarrow> bool" where
  "usage_charge sol sg l a \<longleftrightarrow>
     (\<exists>rg r sk k z b. accts l rg = Some (ARegion r) \<and> accts l sk = Some (AStack k) \<and> sk_region k = rg
        \<and> accts l (fst (find_pda sol (usage_signer_seeds rg))) = Some (AUsageSigner z) \<and> us_signer z \<in> set sg
        \<and> create_pda sol (escrow_seeds (sk_user k) (rg_provider r)) b = Some a)"

lemma exec_debit:
  assumes tc: "token_contract sol" and ex: "exec sol sg ins l = Inr l'" and deb: "debited sol l l' a"
  shows "own_spending sol sg l a \<or> user_withdrawal sol sg a \<or> usage_charge sol sg l a"
proof (cases ins)
  case (CreateProvider st pr dt ow ot nm)
  with ex obtain d ts where "tok_transfer sol ot dt ow d (toks l) = Some ts" "toks l' = ts" "ow \<in> set sg"
    by (auto simp: create_provider_def res_simps market_simps)
  with transfer_debit [OF tc this(1)] deb show ?thesis by (auto simp: debited_def own_spending_def)
next
  case (WithdrawEscrow st es wt pr us am)
  with ex obtain ts where "tok_transfer sol es wt st am (toks l) = Some ts" "toks l' = ts" "us \<in> set sg"
    "es = fst (find_pda sol (escrow_seeds us pr))"
    by (auto simp: withdraw_escrow_balance_def res_simps market_simps)
  with transfer_debit [OF tc this(1)] deb show ?thesis by (auto simp: debited_def user_withdrawal_def)
next
  case (UpdateUsage st ct asg rg ta uu es sk sn sd bp u)
  with ex have "update_usage sol sg st ct asg rg ta uu es sk sn sd bp u l = Inr l'" by simp
  from update_usage_Inr [OF this] obtain z r k p c ts where
    "accts l asg = Some (AUsageSigner z)" "us_signer z = sn" "fst (find_pda sol (usage_signer_seeds rg)) = asg"
    "accts l rg = Some (ARegion r)" "accts l sk = Some (AStack k)" "sk_region k = rg" "sn \<in> set sg"
    and es: "create_pda sol (escrow_seeds (sk_user k) (rg_provider r)) bp = Some es"
    and tr: "tok_transfer sol es ta st p (toks l) = Some ts" "tok_transfer sol es ct st c ts = Some (toks l')"
    by auto
  then have "usage_charge sol sg l es" unfolding usage_charge_def by blast
  moreover have "a = es"
    using transfer_debit [OF tc tr(1), of a] transfer_debit [OF tc tr(2), of a] deb
    by (fastforce simp: debited_def)
  ultimately show ?thesis by simp
next
  case (Initialize st mi dt ct au rate dep)
  with ex obtain t1 where "tok_init sol dt mi st (toks l) = Some t1" "tok_init sol ct mi au t1 = Some (toks l')"
    by (auto simp: initialize_def res_simps market_simps)
  with token_initD [OF tc] deb show ?thesis by (simp add: debited_def)
next
  case (CreateProviderEscrowAccount st mi es pr us)
  with ex obtain t1 where "tok_init sol es mi st (toks l) = Some t1" "toks l' = t1"
    by (auto simp: create_provider_escrow_account_def res_simps market_simps)
  with token_initD [OF tc] deb show ?thesis by (simp add: debited_def)
next
  case (UpdateStack rg sk us sd dat nm)
  with ex have "toks l' = toks l" by (auto dest!: update_stack_Inr)
  with deb show ?thesis by (simp add: debited_def)
next
  case (DeleteStack rg sk us sd)
  with ex have "toks l' = toks l" by (auto simp: delete_stack_def res_simps market_simps split: if_splits)
  with deb show ?thesis by (simp add: debited_def)
qed (use ex deb in \<open>auto simp: debited_def res_simps market_simps update_provider_deposit_def
    create_provider_authorizer_def authorize_provider_def create_region_def create_stack_def
    create_api_request_signer_def activate_api_request_signer_def deactivate_api_request_signer_def
    create_authorized_usage_signer_def\<close>)

section \<open>Reserved space\<close>

definition space_ok :: "market_error + 'a \<Rightarrow> bool" where
  "space_ok m \<longleftrightarrow> m \<noteq> Inl AccountDidNotSerialize"

lemma space_ok_bind: "space_ok m \<Longrightarrow> (\<And>x. m = Inr x \<Longrightarrow> space_ok (f x)) \<Longrightarrow> space_ok (res_bind m f)"
  by (cases m) (auto simp: space_ok_def)

lemma space_ok_basic:
  "space_ok (ensure b ConstraintViolated)" "space_ok (ensure b ProviderNotAuthorized)"
  "space_ok (ensure b CommissionRateOutOfBounds)" "space_ok (load_state l k)" "space_ok (load_authorizer l k)"
  "space_ok (load_provider l k)" "space_ok (load_region l k)" "space_ok (load_stack l k)"
  "space_ok (load_request_signer l k)" "space_ok (load_usage_signer l k)" "space_ok (init_pda sol seeds k l)"
  "space_ok (transfer sol k j au n l)" "space_ok (Inr y)" "space_ok (Inl CannotOperateOnDeletedStack)"
  by (auto simp: space_ok_def ensure_def load_defs init_pda_def transfer_def
      split: option.splits account.splits if_splits prod.splits)

lemma space_ok_panic: "space_ok (ok_or Panicked x)"
  by (cases x) (simp_all add: space_ok_def)

lemma space_ok_store: "8 + borsh_size a \<le> n \<Longrightarrow> space_ok (store n k a l)"
  by (simp add: space_ok_def store_def)

lemma space_ok_tok_init:
  "space_ok (case x of None \<Rightarrow> Inl ConstraintViolated | Some t \<Rightarrow> Inr (f t))"
  by (cases x) (simp_all add: space_ok_def)

lemma space_ok_compound:
  "space_ok (get_state sol k l)" "space_ok (init_token sol seeds k mi au l)"
  unfolding get_state_def init_token_def
  by (intro space_ok_bind space_ok_basic space_ok_tok_init)+

lemmas space_ok_rules = space_ok_bind space_ok_basic space_ok_panic space_ok_compound space_ok_store

lemma space_ok_accounts:
  "space_ok (Initialize_accounts sol sg st mi dt ct au l)"
  "space_ok (UpdateProviderDeposit_accounts sol sg st au l)"
  "space_ok (CreateProviderAuthorizer_accounts sol sg st pa au az l)"
  "space_ok (CreateProvider_accounts sol sg st pr dt ow ot l)"
  "space_ok (AuthorizeProvider_accounts sol sg pa az pr ow l)"
  "space_ok (CreateRegion_accounts sol sg pr rg ow n l)"
  "space_ok (CreateStack_accounts sol sg pr rg sk us sd l)"
  "space_ok (UpdateStack_accounts sol sg rg sk us sd l)"
  "space_ok (DeleteStack_accounts sol sg rg sk us sd l)"
  "space_ok (CreateApiRequestSigner_accounts sol sg rs us sn rg l)"
  "space_ok (ActivateApiRequestSigner_accounts sol sg rs us sn rg l)"
  "space_ok (DeactivateApiRequestSigner_accounts sol sg rs us sn rg l)"
  "space_ok (CreateAuthorizedUsageSigner_accounts sol sg pr rg asg ow l)"
  "space_ok (CreateProviderEscrowAccount_accounts sol sg st mi es pr us l)"
  "space_ok (WithdrawEscrow_accounts sol sg st es wt pr us l)"
  "space_ok (UpdateUsage_accounts sol sg st ct asg rg ta uu es sk sn ud bp l)"
  unfolding accounts_defs UpdateStack_accounts_def by (intro space_ok_rules)+

lemma update_stack_space: "space_ok (update_stack sol sg rg sk us sd dat nm l)"
  unfolding update_stack_def
proof (rule space_ok_bind [OF space_ok_accounts(8)])
  fix s
  show "space_ok (case sk_state s of
      StackDeleted \<Rightarrow> Inl CannotOperateOnDeletedStack
    | StackActive revision old_name old_data \<Rightarrow>
        res_bind (ok_or Panicked (arith_add (ovf_checks sol) revision 1)) (\<lambda>revision'.
        store (8 + 32 + 32 + 8 + 1 + 1 + 4 + 4 + length nm + 4 + length dat) sk
          (AStack (s\<lparr>sk_state := StackActive revision' nm dat\<rparr>)) l))"
    by (cases "sk_state s") (simp_all add: space_ok_rules)
qed

lemma delete_stack_space: "space_ok (delete_stack sol sg rg sk us sd l)"
  unfolding delete_stack_def
  by (rule space_ok_bind [OF space_ok_accounts(9)]) (simp add: space_ok_basic space_ok_store)

lemma update_usage_space: "space_ok (update_usage sol sg st ct asg rg ta uu es sk sn sd bp u l)"
  unfolding update_usage_def
  by (simp add: split_beta space_ok_rules space_ok_accounts)

lemmas handler_defs = initialize_def update_provider_deposit_def create_provider_authorizer_def
  create_provider_def authorize_provider_def create_region_def create_stack_def
  create_api_request_signer_def activate_api_request_signer_def deactivate_api_request_signer_def
  create_authorized_usage_signer_def create_provider_escrow_account_def withdraw_escrow_balance_def

lemma exec_space: "space_ok (exec sol sg ins l)"
  by (cases ins)
    (simp_all add: update_stack_space delete_stack_space update_usage_space handler_defs split_beta
      space_ok_rules space_ok_accounts)

section \<open>Properties\<close>

text \<open>
  C4. Tokens leave an escrow account only on behalf of its user or as a charge for usage: if
  an instruction lowers the balance of a token account that only the program's state account
  may spend from, then either the account is the escrow account of a user who signed, or it is
  the escrow account of the owner of a stack, with the provider of the stack's region, and the
  usage signer registered for that region signed.
\<close>

theorem escrow_debit_authorized:
  assumes "token_contract sol" and "exec sol sg ins l = Inr l'"
    and "\<And>x. tok_may_spend sol (toks l) a x \<Longrightarrow> x = st" and "st \<notin> set sg"
    and "tok_balance sol (toks l') a < tok_balance sol (toks l) a"
  shows "user_withdrawal sol sg a \<or> usage_charge sol sg l a"
  using exec_debit [OF assms(1,2), of a] assms(3,4,5) by (auto simp: debited_def own_spending_def)

theorem escrow_debit_authorized_witness:
  "\<exists>l'. demo_charge demo_ledger = Inr l'
     \<and> (user_withdrawal (simple_solana True) [[5]] demo_escrow
        \<or> usage_charge (simple_solana True) [[5]] demo_ledger demo_escrow)"
proof -
  obtain l' where l': "demo_charge demo_ledger = Inr l'" using demo_charge_ok by blast
  then have ex: "exec (simple_solana True) [[5]] (UpdateUsage demo_state_key [11] demo_signer_key [3] [12]
      (concat (update_seeds demo_stack_key [3] 77)) demo_escrow demo_stack_key [5] 77 255 demo_usage)
      demo_ledger = Inr l'"
    by (simp add: demo_charge_def)
  have b: "tok_balance (simple_solana True) (toks l') demo_escrow
      < tok_balance (simple_solana True) (toks demo_ledger) demo_escrow"
    using demo_charge_balance [OF l'] by simp
  have "user_withdrawal (simple_solana True) [[5]] demo_escrow
        \<or> usage_charge (simple_solana True) [[5]] demo_ledger demo_escrow"
    by (rule escrow_debit_authorized [OF simple_token_contract ex _ _ b, of demo_state_key])
      (auto simp: simple_solana_def demo_ledger_def demo_key_values split: if_splits)
  with l' show ?thesis by blast
qed

text \<open>
  C39. No instruction fails for lack of space: the space each account is created or resized
  with is enough for what the handler stores, so the only errors are constraint violations,
  the program's own errors, token errors and arithmetic panics.
\<close>

theorem account_space_sufficient:
  "exec sol sg ins l \<noteq> Inl AccountDidNotSerialize"
  using exec_space by (simp add: space_ok_def)

text \<open>
  The provider deposit is not protected: any signer can set it to any value, because the
  account struct checks that \<open>authority\<close> signed but not that it is the authority of the state.
\<close>

theorem provider_deposit_unprotected:
  assumes "accts l st = Some (AMuState s)" and "create_pda sol state_seeds (ms_bump s) = Some st"
  shows "update_provider_deposit sol [anyone] st anyone d l =
     Inr (l\<lparr>accts := (accts l)(st \<mapsto> AMuState (s\<lparr>ms_provider_deposit := d\<rparr>))\<rparr>)"
  using assms by (simp add: update_provider_deposit_def accounts_defs get_state_def load_defs ensure_def seeds_ok_def store_def)

theorem provider_deposit_unprotected_witness:
  "ms_authority demo_state \<noteq> [99]
   \<and> update_provider_deposit (simple_solana True) [[99]] demo_state_key [99] 0 demo_ledger =
     Inr (demo_ledger\<lparr>accts := (accts demo_ledger)
       (demo_state_key \<mapsto> AMuState (demo_state\<lparr>ms_provider_deposit := 0\<rparr>))\<rparr>)"
proof
  show "ms_authority demo_state \<noteq> [99]" by (simp add: demo_state_def)
  show "update_provider_deposit (simple_solana True) [[99]] demo_state_key [99] 0 demo_ledger =
     Inr (demo_ledger\<lparr>accts := (accts demo_ledger)
       (demo_state_key \<mapsto> AMuState (demo_state\<lparr>ms_provider_deposit := 0\<rparr>))\<rparr>)"
    by (rule provider_deposit_unprotected [OF demo_accounts(1)])
      (simp add: simple_solana_def demo_state_def demo_seeds)
qed

end
