(* ===== verification/Stack_Collection.thy ===== *)
theory Stack_Collection
  imports Stack_Validation
begin

text \<open>
  The blockchain monitor's collection of known stacks and their owners,
  \<open>src/executor/src/stack/blockchain_monitor/stack_collection.rs\<close>, with the stack metadata of
  \<open>src/executor/src/stack.rs\<close>. A panic (an \<open>unwrap\<close> or \<open>expect\<close> on a broken index, a mismatched
  owner) is \<open>None\<close>. The entry types are borrowed views; their methods are functions of the
  collection and the key the view was made for.
\<close>

section \<open>Stacks with metadata\<close>

record SolanaStackMetadata =
  ssm_account_id :: bytes
  ssm_owner :: bytes

datatype StackMetadata = SolanaMetadata SolanaStackMetadata

record StackWithMetadata =
  sm_stack :: ValidatedStack
  sm_name :: string
  sm_revision :: u32
  sm_metadata :: StackMetadata

fun metadata_id :: "StackMetadata \<Rightarrow> StackID" where
  "metadata_id (SolanaMetadata solana) = SolanaPublicKey (ssm_account_id solana)"

fun metadata_owner :: "StackMetadata \<Rightarrow> StackOwner" where
  "metadata_owner (SolanaMetadata solana) = Solana (ssm_owner solana)"

definition sm_id :: "StackWithMetadata \<Rightarrow> StackID" where
  "sm_id s = metadata_id (sm_metadata s)"

definition sm_owner :: "StackWithMetadata \<Rightarrow> StackOwner" where
  "sm_owner s = metadata_owner (sm_metadata s)"

section \<open>The collection\<close>

datatype OwnerState = OwnerActive | OwnerInactive

record OwnerData =
  od_state :: OwnerState
  od_stacks :: "StackID hash_set"

definition owner_data_new :: "OwnerState \<Rightarrow> OwnerData" where
  "owner_data_new state = \<lparr>od_state = state, od_stacks = []\<rparr>"

record StackCollection =
  co_stacks :: "(StackID, StackWithMetadata) hash_map"
  co_owners :: "(StackOwner, OwnerData) hash_map"
  co_active_owners :: "StackOwner hash_set"
  co_inactive_owners :: "StackOwner hash_set"

definition collection_new :: StackCollection where
  "collection_new = \<lparr>co_stacks = [], co_owners = [], co_active_owners = [], co_inactive_owners = []\<rparr>"

fun get_owner_index :: "OwnerState \<Rightarrow> StackCollection \<Rightarrow> StackOwner hash_set" where
  "get_owner_index OwnerActive c = co_active_owners c"
| "get_owner_index OwnerInactive c = co_inactive_owners c"

fun index_insert :: "OwnerState \<Rightarrow> StackOwner \<Rightarrow> StackCollection \<Rightarrow> StackCollection" where
  "index_insert OwnerActive w c = c\<lparr>co_active_owners := List.insert w (co_active_owners c)\<rparr>"
| "index_insert OwnerInactive w c = c\<lparr>co_inactive_owners := List.insert w (co_inactive_owners c)\<rparr>"

fun from_known_stacks ::
  "StackWithMetadata list \<Rightarrow> (StackID, StackWithMetadata) hash_map \<Rightarrow> StackID hash_set \<Rightarrow>
     ((StackID, StackWithMetadata) hash_map \<times> StackID hash_set) option" where
  "from_known_stacks [] m ids = Some (m, ids)"
| "from_known_stacks (s # ss) m ids =
     (if map_of m (sm_id s) \<noteq> None then None
      else from_known_stacks ss (AList.update (sm_id s) s m) (List.insert (sm_id s) ids))"

fun from_known_loop ::
  "(StackOwner \<times> OwnerState \<times> StackWithMetadata list) list \<Rightarrow> StackCollection \<Rightarrow> StackCollection option" where
  "from_known_loop [] c = Some c"
| "from_known_loop ((owner, state, stacks) # rest) c =
     (case from_known_stacks stacks (co_stacks c) [] of
        None \<Rightarrow> None
      | Some (m, ids) \<Rightarrow> from_known_loop rest (index_insert state owner
          (c\<lparr>co_stacks := m,
             co_owners := AList.update owner \<lparr>od_state = state, od_stacks = ids\<rparr> (co_owners c)\<rparr>)))"

definition from_known ::
  "(StackOwner \<times> OwnerState \<times> StackWithMetadata list) list \<Rightarrow> StackCollection option" where
  "from_known known = from_known_loop known collection_new"

definition make_inactive :: "StackOwner \<Rightarrow> StackCollection \<Rightarrow> StackCollection" where
  "make_inactive owner c =
     (case map_of (co_owners c) owner of
        None \<Rightarrow> c
      | Some d \<Rightarrow>
          if od_state d = OwnerActive then
            c\<lparr>co_owners := AList.update owner (d\<lparr>od_state := OwnerInactive\<rparr>) (co_owners c),
              co_active_owners := removeAll owner (co_active_owners c),
              co_inactive_owners := List.insert owner (co_inactive_owners c)\<rparr>
          else c)"

definition make_active :: "StackOwner \<Rightarrow> StackCollection \<Rightarrow> StackCollection" where
  "make_active owner c =
     (case map_of (co_owners c) owner of
        None \<Rightarrow> c
      | Some d \<Rightarrow>
          if od_state d = OwnerInactive then
            c\<lparr>co_owners := AList.update owner (d\<lparr>od_state := OwnerActive\<rparr>) (co_owners c),
              co_inactive_owners := removeAll owner (co_inactive_owners c),
              co_active_owners := List.insert owner (co_active_owners c)\<rparr>
          else c)"

definition collection_is_empty :: "StackCollection \<Rightarrow> bool" where
  "collection_is_empty c \<longleftrightarrow> co_stacks c = []"

definition collection_owners :: "StackCollection \<Rightarrow> StackOwner list" where
  "collection_owners c = map fst (co_owners c)"

definition collection_all :: "StackCollection \<Rightarrow> StackWithMetadata list" where
  "collection_all c = map snd (co_stacks c)"

text \<open>\<open>expect\<close> on every lookup: all must succeed.\<close>

definition lookup_all :: "('k, 'v) hash_map \<Rightarrow> 'k list \<Rightarrow> 'v list option" where
  "lookup_all m ks = those (map (map_of m) ks)"

definition all_by_owners :: "StackOwner list \<Rightarrow> StackCollection \<Rightarrow> StackWithMetadata list option" where
  "all_by_owners owners c =
     map_option concat (those (map (\<lambda>owner.
       Option.bind (map_of (co_owners c) owner) (\<lambda>d. lookup_all (co_stacks c) (od_stacks d))) owners))"

definition all_active :: "StackCollection \<Rightarrow> StackWithMetadata list option" where
  "all_active c = all_by_owners (co_active_owners c) c"

definition all_inactive :: "StackCollection \<Rightarrow> StackWithMetadata list option" where
  "all_inactive c = all_by_owners (co_inactive_owners c) c"

datatype Entry = VacantEntry | ActiveEntry StackWithMetadata | InactiveEntry StackWithMetadata

definition collection_entry :: "StackID \<Rightarrow> StackCollection \<Rightarrow> Entry option" where
  "collection_entry stack_id c =
     (case map_of (co_stacks c) stack_id of
        None \<Rightarrow> Some VacantEntry
      | Some s \<Rightarrow>
          (case map_of (co_owners c) (sm_owner s) of
             None \<Rightarrow> None
           | Some d \<Rightarrow> Some (if od_state d = OwnerActive then ActiveEntry s else InactiveEntry s)))"

text \<open>Whether an owner has an entry decides between \<open>OwnerEntry::Occupied\<close> and \<open>OwnerEntry::Vacant\<close>.\<close>

definition owner_entry_occupied :: "StackOwner \<Rightarrow> StackCollection \<Rightarrow> bool" where
  "owner_entry_occupied owner c \<longleftrightarrow> map_of (co_owners c) owner \<noteq> None"

definition add_stack :: "StackOwner \<Rightarrow> StackWithMetadata \<Rightarrow> StackCollection \<Rightarrow> (bool \<times> StackCollection) option" where
  "add_stack owner stack c =
     (let stack_id = sm_id stack in
      if sm_owner stack \<noteq> owner then None
      else case map_of (co_stacks c) stack_id of
        Some existing \<Rightarrow>
          if sm_revision stack \<le> sm_revision existing then Some (False, c)
          else Some (True, c\<lparr>co_stacks := AList.update stack_id stack (co_stacks c)\<rparr>)
      | None \<Rightarrow>
          (case map_of (co_owners c) owner of
             None \<Rightarrow> None
           | Some d \<Rightarrow> Some (True, c\<lparr>co_stacks := AList.update stack_id stack (co_stacks c),
               co_owners := AList.update owner (d\<lparr>od_stacks := List.insert stack_id (od_stacks d)\<rparr>) (co_owners c)\<rparr>)))"

definition insert_first ::
  "StackOwner \<Rightarrow> OwnerState \<Rightarrow> StackWithMetadata \<Rightarrow> StackCollection \<Rightarrow> StackCollection option" where
  "insert_first owner state stack c =
     map_option snd (add_stack owner stack
       (index_insert state owner (c\<lparr>co_owners := AList.update owner (owner_data_new state) (co_owners c)\<rparr>)))"

definition remove_stack :: "StackOwner \<Rightarrow> StackID \<Rightarrow> StackCollection \<Rightarrow> (bool \<times> StackCollection) option" where
  "remove_stack owner stack_id c =
     (case map_of (co_owners c) owner of
        None \<Rightarrow> None
      | Some d \<Rightarrow>
          if stack_id \<notin> set (od_stacks d) then Some (False, c)
          else
            (let ids = removeAll stack_id (od_stacks d);
                 c' = c\<lparr>co_stacks := AList.delete stack_id (co_stacks c)\<rparr>
             in if ids = [] then Some (True, c'\<lparr>co_owners := AList.delete owner (co_owners c)\<rparr>)
                else Some (False, c'\<lparr>co_owners := AList.update owner (d\<lparr>od_stacks := ids\<rparr>) (co_owners c)\<rparr>)))"

definition entry_owner_state :: "StackOwner \<Rightarrow> StackCollection \<Rightarrow> OwnerState option" where
  "entry_owner_state owner c = map_option od_state (map_of (co_owners c) owner)"

definition entry_stacks :: "StackOwner \<Rightarrow> StackCollection \<Rightarrow> StackWithMetadata list option" where
  "entry_stacks owner c =
     Option.bind (map_of (co_owners c) owner) (\<lambda>d. lookup_all (co_stacks c) (od_stacks d))"

section \<open>Well-formedness\<close>

text \<open>
  The two maps agree: every stack is listed under its owner and every listed identifier is a
  stack of that owner; every owner is in the index of its state. The converse of the last
  clause is not an invariant of the code, see \<open>stale_owner_index\<close> below.
\<close>

definition linked ::
  "(StackID \<Rightarrow> StackWithMetadata option) \<Rightarrow> (StackOwner \<Rightarrow> OwnerData option) \<Rightarrow> bool" where
  "linked S W \<longleftrightarrow>
     (\<forall>i s. S i = Some s \<longrightarrow> sm_id s = i \<and> (\<exists>d. W (sm_owner s) = Some d \<and> i \<in> set (od_stacks d)))
   \<and> (\<forall>w d. W w = Some d \<longrightarrow>
        distinct (od_stacks d) \<and> (\<forall>i \<in> set (od_stacks d). \<exists>s. S i = Some s \<and> sm_owner s = w))"

definition indexed :: "(StackOwner \<Rightarrow> OwnerData option) \<Rightarrow> StackOwner set \<Rightarrow> StackOwner set \<Rightarrow> bool" where
  "indexed W act inact \<longleftrightarrow>
     (\<forall>w d. W w = Some d \<longrightarrow> w \<in> (case od_state d of OwnerActive \<Rightarrow> act | OwnerInactive \<Rightarrow> inact))"

definition coll_wf :: "StackCollection \<Rightarrow> bool" where
  "coll_wf c \<longleftrightarrow>
     distinct (map fst (co_stacks c)) \<and> distinct (map fst (co_owners c))
   \<and> linked (map_of (co_stacks c)) (map_of (co_owners c))
   \<and> indexed (map_of (co_owners c)) (set (co_active_owners c)) (set (co_inactive_owners c))"

text \<open>A stack received again belongs to the owner it is known with.\<close>

definition same_owner :: "StackWithMetadata \<Rightarrow> StackCollection \<Rightarrow> bool" where
  "same_owner s c \<longleftrightarrow> (\<forall>t. map_of (co_stacks c) (sm_id s) = Some t \<longrightarrow> sm_owner t = sm_owner s)"

lemma linked_stack:
  "linked S W \<Longrightarrow> S i = Some s \<Longrightarrow> sm_id s = i \<and> (\<exists>d. W (sm_owner s) = Some d \<and> i \<in> set (od_stacks d))"
  unfolding linked_def by blast

lemma linked_owner:
  "linked S W \<Longrightarrow> W w = Some d \<Longrightarrow> i \<in> set (od_stacks d) \<Longrightarrow> \<exists>s. S i = Some s \<and> sm_owner s = w"
  unfolding linked_def by blast

lemma linked_replace:
  "linked S W \<Longrightarrow> S (sm_id s) = Some t \<Longrightarrow> sm_owner t = sm_owner s \<Longrightarrow> linked (S(sm_id s \<mapsto> s)) W"
  unfolding linked_def by (auto; metis option.inject)

lemma linked_add:
  assumes "linked S W" and "S (sm_id s) = None" and "W (sm_owner s) = Some d"
  shows "linked (S(sm_id s \<mapsto> s)) (W(sm_owner s \<mapsto> d\<lparr>od_stacks := List.insert (sm_id s) (od_stacks d)\<rparr>))"
  using assms unfolding linked_def by (auto split: if_splits; metis option.distinct(1) option.inject)

lemma linked_state: "linked S W \<Longrightarrow> W w = Some d \<Longrightarrow> linked S (W(w \<mapsto> d\<lparr>od_state := x\<rparr>))"
  unfolding linked_def by (auto split: if_splits; metis option.inject)

lemma linked_new_owner: "linked S W \<Longrightarrow> W w = None \<Longrightarrow> linked S (W(w \<mapsto> owner_data_new x))"
  unfolding linked_def owner_data_new_def by (auto split: if_splits; metis option.distinct(1))

lemma linked_not_other:
  assumes "linked S W" and "W w = Some d" and "i \<in> set (od_stacks d)" and "W v = Some e" and "v \<noteq> w"
  shows "i \<notin> set (od_stacks e)"
  using linked_owner [OF assms(1,2,3)] linked_owner [OF assms(1,4), of i] assms(5) by auto

lemma linked_remove:
  assumes l: "linked S W" and d: "W w = Some d" and i: "i \<in> set (od_stacks d)"
  shows "linked (S(i := None)) (W(w \<mapsto> d\<lparr>od_stacks := removeAll i (od_stacks d)\<rparr>))"
  using l d linked_not_other [OF l d i]
  unfolding linked_def by (auto simp: distinct_removeAll split: if_splits; metis option.inject)

lemma linked_remove_owner:
  assumes l: "linked S W" and d: "W w = Some d" and e: "od_stacks d = []"
  shows "linked S (W(w := None))"
  using assms unfolding linked_def by (auto split: if_splits; metis empty_iff empty_set option.inject)

lemma indexed_upd:
  "indexed W act inact \<Longrightarrow> act \<subseteq> act' \<union> {w} \<Longrightarrow> inact \<subseteq> inact' \<union> {w} \<Longrightarrow>
     w \<in> (case od_state d of OwnerActive \<Rightarrow> act' | OwnerInactive \<Rightarrow> inact') \<Longrightarrow> indexed (W(w \<mapsto> d)) act' inact'"
  unfolding indexed_def by (auto split: OwnerState.splits if_splits; blast)

lemma indexed_del: "indexed W act inact \<Longrightarrow> indexed (W(w := None)) act inact"
  unfolding indexed_def by auto

lemma indexed_same_state:
  "W w = Some d \<Longrightarrow> indexed W act inact \<Longrightarrow> indexed (W(w \<mapsto> d\<lparr>od_stacks := x\<rparr>)) act inact"
  unfolding indexed_def by auto

lemma coll_wf_new: "coll_wf collection_new"
  by (simp add: coll_wf_def collection_new_def linked_def indexed_def)

lemma index_insert_maps [simp]:
  "co_stacks (index_insert st w c) = co_stacks c" "co_owners (index_insert st w c) = co_owners c"
  by (cases st; simp)+

lemma make_active_wf: "coll_wf c \<Longrightarrow> coll_wf (make_active w c)"
  unfolding make_active_def coll_wf_def
  by (auto simp: update_conv' split: option.split intro!: linked_state indexed_upd)

lemma make_inactive_wf: "coll_wf c \<Longrightarrow> coll_wf (make_inactive w c)"
  unfolding make_inactive_def coll_wf_def
  by (auto simp: update_conv' split: option.split intro!: linked_state indexed_upd)

lemma add_stack_wf:
  assumes wf: "coll_wf c" and same: "same_owner s c" and add: "add_stack w s c = Some (b, c')"
  shows "coll_wf c'"
  using assms unfolding coll_wf_def add_stack_def Let_def same_owner_def
  by (auto simp: update_conv' split: if_splits option.splits
      intro!: linked_replace linked_add intro: indexed_same_state)

lemma insert_first_wf:
  assumes wf: "coll_wf c" and vac: "map_of (co_owners c) w = None" and ins: "insert_first w st s c = Some c'"
    and same: "same_owner s c"
  shows "coll_wf c'"
proof -
  let ?c = "index_insert st w (c\<lparr>co_owners := AList.update w (owner_data_new st) (co_owners c)\<rparr>)"
  from ins obtain b where add: "add_stack w s ?c = Some (b, c')" by (auto simp: insert_first_def)
  have "coll_wf ?c"
    using wf vac unfolding coll_wf_def
    by (cases st) (auto simp: update_conv' owner_data_new_def
        intro!: linked_new_owner [unfolded owner_data_new_def] indexed_upd)
  moreover have "same_owner s ?c" using same by (simp add: same_owner_def)
  ultimately show ?thesis using add by (rule add_stack_wf)
qed

lemma remove_stack_wf:
  assumes wf: "coll_wf c" and rem: "remove_stack w i c = Some (b, c')"
  shows "coll_wf c'"
proof -
  from rem obtain d where d: "map_of (co_owners c) w = Some d"
    by (auto simp: remove_stack_def split: option.splits)
  note l = wf [unfolded coll_wf_def]
  show ?thesis
  proof (cases "i \<in> set (od_stacks d)")
    case True
    let ?d = "d\<lparr>od_stacks := removeAll i (od_stacks d)\<rparr>"
    from l have "linked (map_of (co_stacks c)) (map_of (co_owners c))" by blast
    from linked_remove [where W = "map_of (co_owners c)", OF this d True]
    have r: "linked ((map_of (co_stacks c))(i := None)) ((map_of (co_owners c))(w \<mapsto> ?d))" .
    show ?thesis
    proof (cases "removeAll i (od_stacks d) = []")
      case nil: True
      with linked_remove_owner [OF r, of w ?d]
      have "linked ((map_of (co_stacks c))(i := None)) ((map_of (co_owners c))(w := None))" by simp
      with rem d True l nil show ?thesis
        by (auto simp: remove_stack_def Let_def coll_wf_def delete_conv' intro: indexed_del)
    next
      case False
      with rem d True l r show ?thesis
        by (auto simp: remove_stack_def Let_def coll_wf_def delete_conv' update_conv' intro: indexed_same_state)
    qed
  qed (use rem d wf in \<open>simp add: remove_stack_def\<close>)
qed

section \<open>Building a collection\<close>

lemma from_known_stacks_ok:
  assumes "distinct (map sm_id ss)" and "\<And>s. s \<in> set ss \<Longrightarrow> map_of m (sm_id s) = None"
  shows "\<exists>m' ids'. from_known_stacks ss m ids = Some (m', ids')
     \<and> map_of m' = map_of m ++ map_of (map (\<lambda>s. (sm_id s, s)) ss)
     \<and> set ids' = set ids \<union> sm_id ` set ss
     \<and> (distinct ids \<longrightarrow> distinct ids') \<and> (distinct (map fst m) \<longrightarrow> distinct (map fst m'))"
  using assms
proof (induction ss arbitrary: m ids)
  case (Cons s ss)
  have "map_of (AList.update (sm_id s) s m) (sm_id t) = None" if "t \<in> set ss" for t
  proof -
    have "sm_id t \<noteq> sm_id s"
      using Cons.prems(1) that by (metis distinct.simps(2) image_eqI list.simps(9) set_map)
    then show ?thesis using Cons.prems(2) that by (simp add: hm_simps)
  qed
  moreover have "distinct (map sm_id ss)" using Cons.prems(1) by simp
  ultimately obtain m' ids' where
    "from_known_stacks ss (AList.update (sm_id s) s m) (List.insert (sm_id s) ids) = Some (m', ids')"
    "map_of m' = map_of (AList.update (sm_id s) s m) ++ map_of (map (\<lambda>s. (sm_id s, s)) ss)"
    "set ids' = set (List.insert (sm_id s) ids) \<union> sm_id ` set ss"
    "distinct (List.insert (sm_id s) ids) \<longrightarrow> distinct ids'"
    "distinct (map fst (AList.update (sm_id s) s m)) \<longrightarrow> distinct (map fst m')"
    using Cons.IH [of "AList.update (sm_id s) s m" "List.insert (sm_id s) ids"] by blast
  moreover have "map_of (AList.update (sm_id s) s m) ++ map_of (map (\<lambda>s. (sm_id s, s)) ss)
      = map_of m ++ map_of (map (\<lambda>s. (sm_id s, s)) (s # ss))"
    using Cons.prems(1)
    by (auto simp: fun_eq_iff map_add_def hm_simps split: option.splits dest!: map_of_SomeD)
  moreover have "map_of m (sm_id s) = None" using Cons.prems(2) by simp
  ultimately show ?case
    by (intro exI [of _ m'] exI [of _ ids'] conjI) (simp_all del: list.map map_of.simps)
qed simp

lemma linked_group:
  assumes "linked S W" and "W w = None" and "\<And>s. s \<in> set ss \<Longrightarrow> sm_owner s = w \<and> S (sm_id s) = None"
    and "distinct (map sm_id ss)" and "set ids = sm_id ` set ss" and "distinct ids"
  shows "linked (S ++ map_of (map (\<lambda>s. (sm_id s, s)) ss)) (W(w \<mapsto> \<lparr>od_state = x, od_stacks = ids\<rparr>))"
proof -
  have get: "map_of (map (\<lambda>s. (sm_id s, s)) ss) i = Some s \<longleftrightarrow> s \<in> set ss \<and> sm_id s = i" for i s
    using assms(4) by (subst map_of_eq_Some_iff) (auto simp: comp_def)
  have none: "map_of (map (\<lambda>s. (sm_id s, s)) ss) i = None \<longleftrightarrow> i \<notin> sm_id ` set ss" for i
    by (simp add: map_of_eq_None_iff image_image)
  have no_w: "sm_owner s \<noteq> w" if "S i = Some s" for i s
    using linked_stack [OF assms(1) that] assms(2) by auto
  show ?thesis
    unfolding linked_def
  proof (intro conjI allI impI)
    fix v d
    assume v: "(W(w \<mapsto> \<lparr>od_state = x, od_stacks = ids\<rparr>)) v = Some d"
    show "distinct (od_stacks d)" using v assms(1,6) by (auto simp: linked_def split: if_splits)
    show "\<forall>i \<in> set (od_stacks d). \<exists>s. (S ++ map_of (map (\<lambda>s. (sm_id s, s)) ss)) i = Some s \<and> sm_owner s = v"
    proof
      fix i assume i: "i \<in> set (od_stacks d)"
      show "\<exists>s. (S ++ map_of (map (\<lambda>s. (sm_id s, s)) ss)) i = Some s \<and> sm_owner s = v"
      proof (cases "v = w")
        case True
        with v i assms(5) obtain s where "s \<in> set ss" "sm_id s = i" by auto
        with True assms(3) show ?thesis by (auto simp: map_add_Some_iff get)
      next
        case False
        with v i linked_owner [OF assms(1)] obtain s where s: "S i = Some s" "sm_owner s = v" by fastforce
        with assms(3) have "i \<notin> sm_id ` set ss" by auto
        with s show ?thesis by (auto simp: map_add_Some_iff none)
      qed
    qed
  next
    fix i s
    assume "(S ++ map_of (map (\<lambda>s. (sm_id s, s)) ss)) i = Some s"
    then consider "s \<in> set ss" "sm_id s = i" | "S i = Some s"
      by (auto simp: map_add_Some_iff get)
    then have "sm_id s = i \<and> (\<exists>d. (W(w \<mapsto> \<lparr>od_state = x, od_stacks = ids\<rparr>)) (sm_owner s) = Some d \<and> i \<in> set (od_stacks d))"
    proof cases
      case 1
      with assms(3,5) show ?thesis by auto
    next
      case 2
      with linked_stack [OF assms(1) 2] no_w [OF 2] show ?thesis by auto
    qed
    then show "sm_id s = i" and "\<exists>d. (W(w \<mapsto> \<lparr>od_state = x, od_stacks = ids\<rparr>)) (sm_owner s) = Some d \<and> i \<in> set (od_stacks d)"
      by blast+
  qed
qed

text \<open>What the code relies on at startup: one group per owner, of its own stacks, with no repeated identifier.\<close>

definition groups_ok :: "(StackOwner \<times> OwnerState \<times> StackWithMetadata list) list \<Rightarrow> bool" where
  "groups_ok known \<longleftrightarrow>
     distinct (map fst known)
   \<and> (\<forall>(w, st, ss) \<in> set known. \<forall>s \<in> set ss. sm_owner s = w)
   \<and> distinct (map sm_id (concat (map (\<lambda>(w, st, ss). ss) known)))"

lemma from_known_loop_ok:
  assumes "coll_wf c" and "groups_ok known"
    and "\<And>w st ss. (w, st, ss) \<in> set known \<Longrightarrow> map_of (co_owners c) w = None"
    and "\<And>s. s \<in> set (concat (map (\<lambda>(w, st, ss). ss) known)) \<Longrightarrow> map_of (co_stacks c) (sm_id s) = None"
  shows "\<exists>c'. from_known_loop known c = Some c' \<and> coll_wf c'"
  using assms
proof (induction known arbitrary: c)
  case (Cons g known)
  obtain w st ss where g: "g = (w, st, ss)" by (cases g)
  have ss: "distinct (map sm_id ss)" "\<And>s. s \<in> set ss \<Longrightarrow> sm_owner s = w"
    "\<And>s. s \<in> set ss \<Longrightarrow> map_of (co_stacks c) (sm_id s) = None"
    using Cons.prems(2,4) g by (auto simp: groups_ok_def)
  from from_known_stacks_ok [OF ss(1,3), of "[]"] obtain m ids where
    m: "from_known_stacks ss (co_stacks c) [] = Some (m, ids)"
      "map_of m = map_of (co_stacks c) ++ map_of (map (\<lambda>s. (sm_id s, s)) ss)"
      "set ids = sm_id ` set ss" "distinct ids" "distinct (map fst (co_stacks c)) \<longrightarrow> distinct (map fst m)"
    by auto
  let ?d = "\<lparr>od_state = st, od_stacks = ids\<rparr>"
  let ?c = "index_insert st w (c\<lparr>co_stacks := m, co_owners := AList.update w ?d (co_owners c)\<rparr>)"
  have w: "map_of (co_owners c) w = None" using Cons.prems(3) g by auto
  have "linked (map_of m) ((map_of (co_owners c))(w \<mapsto> ?d))"
    unfolding m(2) using Cons.prems(1) w ss m(3,4) by (intro linked_group) (auto simp: coll_wf_def)
  then have wf: "coll_wf ?c"
    using Cons.prems(1) m(5) by (cases st) (auto simp: coll_wf_def update_conv' intro!: indexed_upd)
  have rest: "groups_ok known" using Cons.prems(2) g by (auto simp: groups_ok_def)
  have "\<exists>c'. from_known_loop known ?c = Some c' \<and> coll_wf c'"
  proof (rule Cons.IH [OF wf rest])
    show "map_of (co_owners ?c) w' = None" if "(w', st', ss') \<in> set known" for w' st' ss'
    proof -
      have "w' \<in> fst ` set known" using that by (rule image_eqI [rotated]) simp
      then have "w' \<noteq> w" using Cons.prems(2) g by (auto simp: groups_ok_def)
      then show ?thesis using Cons.prems(3) [of w' st' ss'] that by (simp add: hm_simps)
    qed
    show "map_of (co_stacks ?c) (sm_id s) = None" if s: "s \<in> set (concat (map (\<lambda>(w, st, ss). ss) known))" for s
    proof -
      have "map_of (co_stacks c) (sm_id s) = None" using Cons.prems(4) s by auto
      moreover have "sm_id ` set ss \<inter> sm_id ` set (concat (map (\<lambda>(w, st, ss). ss) known)) = {}"
        using Cons.prems(2) g by (simp add: groups_ok_def)
      then have "sm_id s \<notin> sm_id ` set ss" using s by blast
      ultimately show ?thesis by (simp add: m(2) map_of_eq_None_iff image_image)
    qed
  qed
  then show ?case by (simp add: g m(1))
qed simp

lemma from_known_ok: "groups_ok known \<Longrightarrow> \<exists>c. from_known known = Some c \<and> coll_wf c"
  unfolding from_known_def
  by (rule from_known_loop_ok [OF coll_wf_new]) (simp_all add: collection_new_def)

lemma lookup_all_ok:
  "(\<And>k. k \<in> set ks \<Longrightarrow> map_of m k \<noteq> None) \<Longrightarrow> lookup_all m ks = Some (map (\<lambda>k. the (map_of m k)) ks)"
  unfolding lookup_all_def by (induction ks) force+

lemma those_None: "x \<in> set xs \<Longrightarrow> f x = None \<Longrightarrow> those (map f xs) = None"
  by (induction xs) (auto split: option.splits)

section \<open>The abstract view\<close>

text \<open>
  What a collection knows: for each identifier the stack and the state of its owner. Each
  operation is an update of this view.
\<close>

definition known :: "StackCollection \<Rightarrow> StackID \<Rightarrow> (StackWithMetadata \<times> OwnerState) option" where
  "known c i = (case map_of (co_stacks c) i of
      None \<Rightarrow> None
    | Some s \<Rightarrow> (case map_of (co_owners c) (sm_owner s) of
        None \<Rightarrow> None
      | Some d \<Rightarrow> Some (s, od_state d)))"

lemma known_Some:
  assumes "coll_wf c"
  shows "known c i = Some (s, st) \<longleftrightarrow>
     map_of (co_stacks c) i = Some s \<and> (\<exists>d. map_of (co_owners c) (sm_owner s) = Some d \<and> od_state d = st)"
  by (auto simp: known_def split: option.splits)

lemma coll_listed:
  assumes "coll_wf c" and "map_of (co_stacks c) i = Some s" and "map_of (co_owners c) (sm_owner s) = Some d"
  shows "i \<in> set (od_stacks d)"
proof -
  have "linked (map_of (co_stacks c)) (map_of (co_owners c))" using assms(1) by (simp add: coll_wf_def)
  from linked_stack [where S = "map_of (co_stacks c)", OF this assms(2)] assms(3) show ?thesis by auto
qed

lemma known_id: "coll_wf c \<Longrightarrow> known c i = Some (s, st) \<Longrightarrow> sm_id s = i"
  by (auto simp: known_Some coll_wf_def linked_def)

lemma known_new: "known collection_new i = None"
  by (simp add: known_def collection_new_def)

lemma entry_known:
  assumes "coll_wf c"
  shows "collection_entry i c = Some (case known c i of
      None \<Rightarrow> VacantEntry
    | Some (s, OwnerActive) \<Rightarrow> ActiveEntry s
    | Some (s, OwnerInactive) \<Rightarrow> InactiveEntry s)"
proof (cases "map_of (co_stacks c) i")
  case (Some s)
  with assms linked_stack obtain d where "map_of (co_owners c) (sm_owner s) = Some d"
    unfolding coll_wf_def by blast
  with Some show ?thesis by (cases "od_state d") (simp_all add: collection_entry_def known_def)
qed (simp add: collection_entry_def known_def)

lemma make_active_known:
  "known (make_active w c) i =
     map_option (\<lambda>(s, st). (s, if sm_owner s = w then OwnerActive else st)) (known c i)"
proof (cases "map_of (co_owners c) w")
  case None
  then show ?thesis by (auto simp: known_def make_active_def split: option.splits)
next
  case (Some d)
  then show ?thesis
    by (cases "od_state d") (auto simp: known_def make_active_def hm_simps split: option.splits)
qed

lemma make_inactive_known:
  "known (make_inactive w c) i =
     map_option (\<lambda>(s, st). (s, if sm_owner s = w then OwnerInactive else st)) (known c i)"
proof (cases "map_of (co_owners c) w")
  case None
  then show ?thesis by (auto simp: known_def make_inactive_def split: option.splits)
next
  case (Some d)
  then show ?thesis
    by (cases "od_state d") (auto simp: known_def make_inactive_def hm_simps split: option.splits)
qed

lemma add_stack_known:
  assumes "coll_wf c" and "same_owner s c" and d: "map_of (co_owners c) (sm_owner s) = Some d"
    and newer: "newer \<longleftrightarrow> (\<forall>t. map_of (co_stacks c) (sm_id s) = Some t \<longrightarrow> sm_revision t < sm_revision s)"
  shows "\<exists>c'. add_stack (sm_owner s) s c = Some (newer, c') \<and>
     known c' = (if newer then (known c)(sm_id s \<mapsto> (s, od_state d)) else known c)"
proof (cases "map_of (co_stacks c) (sm_id s)")
  case None
  with newer d show ?thesis
    by (auto simp: add_stack_def Let_def known_def fun_eq_iff hm_simps split: option.splits)
next
  case (Some t)
  with newer d show ?thesis
    by (auto simp: add_stack_def Let_def known_def fun_eq_iff hm_simps not_le split: option.splits)
qed

lemma insert_first_known:
  assumes "coll_wf c" and "map_of (co_owners c) (sm_owner s) = None" and "map_of (co_stacks c) (sm_id s) = None"
  shows "\<exists>c'. insert_first (sm_owner s) st s c = Some c' \<and> known c' = (known c)(sm_id s \<mapsto> (s, st))"
proof -
  have no: "sm_owner t \<noteq> sm_owner s" if "map_of (co_stacks c) j = Some t" for j t
    using assms(1,2) that by (force simp: coll_wf_def linked_def)
  show ?thesis
    using assms(3) no
    by (auto simp: insert_first_def add_stack_def Let_def known_def fun_eq_iff hm_simps owner_data_new_def
        split: option.splits)
qed

lemma remove_stack_known:
  assumes "coll_wf c" and "map_of (co_owners c) w = Some d"
  shows "\<exists>b c'. remove_stack w i c = Some (b, c')
     \<and> known c' = (if i \<in> set (od_stacks d) then (known c)(i := None) else known c)
     \<and> b = (set (od_stacks d) = {i})"
proof (cases "i \<in> set (od_stacks d)")
  case True
  have only: "sm_owner t \<noteq> w" if "map_of (co_stacks c) j = Some t" "j \<noteq> i" "removeAll i (od_stacks d) = []" for j t
    using coll_listed [OF assms(1) that(1)] assms(2) that(2,3)
    by (auto simp: filter_empty_conv removeAll_filter_not_eq)
  have "removeAll i (od_stacks d) = [] \<longleftrightarrow> set (od_stacks d) = {i}"
    using True by (auto simp: filter_empty_conv removeAll_filter_not_eq)
  then show ?thesis
    using assms(2) True only
    by (auto simp: remove_stack_def Let_def known_def fun_eq_iff hm_simps split: option.splits)
next
  case False
  then show ?thesis using assms(2) by (auto simp: remove_stack_def)
qed

lemma entry_stacks_known:
  assumes "coll_wf c" and "map_of (co_owners c) w = Some d"
  shows "\<exists>ss. entry_stacks w c = Some ss
     \<and> set ss = {s. \<exists>i. known c i = Some (s, od_state d) \<and> sm_owner s = w}"
proof -
  have ok: "\<exists>s. map_of (co_stacks c) i = Some s \<and> sm_owner s = w" if "i \<in> set (od_stacks d)" for i
    using assms linked_owner [of _ _ w d i] that by (auto simp: coll_wf_def)
  then have "entry_stacks w c = Some (map (\<lambda>i. the (map_of (co_stacks c) i)) (od_stacks d))"
    using assms(2) by (auto simp: entry_stacks_def intro!: lookup_all_ok)
  moreover have "i \<in> set (od_stacks d)" if "map_of (co_stacks c) i = Some s" "sm_owner s = w" for i s
    using coll_listed [OF assms(1) that(1)] assms(2) that(2) by simp
  ultimately show ?thesis
    using ok assms by (force simp: known_Some)
qed

section \<open>Properties\<close>

text \<open>
  C29. The collection behaves as a map from identifiers to stacks with the state of their
  owner: adding a stack replaces what is known only by a newer revision and reports whether
  it did, and looking a stack up never panics.
\<close>

theorem add_stack_refines:
  assumes "coll_wf c" and "same_owner s c" and "map_of (co_owners c) (sm_owner s) = Some d"
  shows "\<exists>b c'. add_stack (sm_owner s) s c = Some (b, c') \<and> coll_wf c'
     \<and> (b \<longleftrightarrow> (\<forall>t. map_of (co_stacks c) (sm_id s) = Some t \<longrightarrow> sm_revision t < sm_revision s))
     \<and> known c' = (if b then (known c)(sm_id s \<mapsto> (s, od_state d)) else known c)
     \<and> collection_entry i c' \<noteq> None"
proof -
  obtain b where b: "b \<longleftrightarrow> (\<forall>t. map_of (co_stacks c) (sm_id s) = Some t \<longrightarrow> sm_revision t < sm_revision s)"
    by blast
  obtain c' where c': "add_stack (sm_owner s) s c = Some (b, c')"
    "known c' = (if b then (known c)(sm_id s \<mapsto> (s, od_state d)) else known c)"
    using add_stack_known [OF assms b] by blast
  have "coll_wf c'" by (rule add_stack_wf [OF assms(1,2) c'(1)])
  with c' b entry_known [OF this, of i] show ?thesis by auto
qed

definition sample_meta :: "bytes \<Rightarrow> bytes \<Rightarrow> u32 \<Rightarrow> StackWithMetadata" where
  "sample_meta i w r = \<lparr>sm_stack = ValidatedStack sample_stack, sm_name = ''s'', sm_revision = r,
     sm_metadata = SolanaMetadata \<lparr>ssm_account_id = i, ssm_owner = w\<rparr>\<rparr>"

lemma sample_meta_simps [simp]:
  "sm_id (sample_meta i w r) = SolanaPublicKey i" "sm_owner (sample_meta i w r) = Solana w"
  "sm_revision (sample_meta i w r) = r"
  by (simp_all add: sample_meta_def sm_id_def sm_owner_def)

definition sample_collection :: StackCollection where
  "sample_collection =
     \<lparr>co_stacks = [(SolanaPublicKey [1], sample_meta [1] [7] 1)],
      co_owners = [(Solana [7], \<lparr>od_state = OwnerActive, od_stacks = [SolanaPublicKey [1]]\<rparr>)],
      co_active_owners = [Solana [7]], co_inactive_owners = []\<rparr>"

lemma sample_collection_wf: "coll_wf sample_collection"
  by (auto simp: sample_collection_def coll_wf_def linked_def indexed_def split: if_splits)

theorem add_stack_refines_witness:
  "\<exists>c'. add_stack (Solana [7]) (sample_meta [1] [7] 2) sample_collection = Some (True, c')
     \<and> known c' (SolanaPublicKey [1]) = Some (sample_meta [1] [7] 2, OwnerActive)"
proof -
  let ?d = "\<lparr>od_state = OwnerActive, od_stacks = [SolanaPublicKey [1]]\<rparr>"
  have so: "same_owner (sample_meta [1] [7] 2) sample_collection"
    by (simp add: same_owner_def sample_collection_def)
  have d: "map_of (co_owners sample_collection) (sm_owner (sample_meta [1] [7] 2)) = Some ?d"
    by (simp add: sample_collection_def)
  have new: "\<forall>t. map_of (co_stacks sample_collection) (SolanaPublicKey [1]) = Some t \<longrightarrow> sm_revision t < 2"
    by (simp add: sample_collection_def)
  from add_stack_refines [OF sample_collection_wf so d, of "SolanaPublicKey [1]"] new
  show ?thesis by auto
qed

text \<open>
  Removing the last stack of an owner leaves the owner in the index of active owners, so
  that iterating over all active stacks afterwards panics.
\<close>

theorem stale_owner_index:
  assumes "coll_wf c" and "map_of (co_owners c) w = Some d" and "od_state d = OwnerActive"
    and "od_stacks d = [i]"
  shows "\<exists>c'. remove_stack w i c = Some (True, c') \<and> coll_wf c' \<and> all_active c' = None"
proof -
  obtain c' where c': "remove_stack w i c = Some (True, c')" "map_of (co_owners c') w = None"
    "co_active_owners c' = co_active_owners c"
    using assms(2,4) by (auto simp: remove_stack_def Let_def hm_simps)
  have "w \<in> set (co_active_owners c)"
    using assms(1,2,3) unfolding coll_wf_def indexed_def by force
  then have "all_active c' = None"
    using c'(2,3) by (auto simp: all_active_def all_by_owners_def intro!: those_None [of w])
  with c'(1) remove_stack_wf [OF assms(1) c'(1)] show ?thesis by blast
qed

theorem stale_owner_index_witness:
  "\<exists>c'. remove_stack (Solana [7]) (SolanaPublicKey [1]) sample_collection = Some (True, c')
     \<and> coll_wf c' \<and> all_active c' = None"
  by (rule stale_owner_index [OF sample_collection_wf,
        where d = "\<lparr>od_state = OwnerActive, od_stacks = [SolanaPublicKey [1]]\<rparr>"])
    (simp_all add: sample_collection_def)

end
