(* ===== verification/Request_Signer_Cache.thy ===== *)
theory Request_Signer_Cache
  imports Mailbox Mu_Stack
begin

text \<open>
  The cache of API request signers, \<open>src/executor/src/stack/request_signer_cache.rs\<close>: which
  keys may sign requests to a stack. The answer to \<open>ValidateSigner\<close> is the output of the step.
\<close>

datatype RequestSignerKey = SolanaSigner bytes

record signer_state =
  sc_stacks :: "(StackID, StackOwner) hash_map"
  sc_signers :: "(RequestSignerKey, StackOwner) hash_map"

datatype signer_message =
    ValidateSigner StackID RequestSignerKey
  | StacksAvailable "(StackID \<times> StackOwner) list"
  | StacksRemoved "StackID list"
  | SignersAvailable "(RequestSignerKey \<times> StackOwner) list"
  | SignersRemoved "RequestSignerKey list"

definition is_valid_signer :: "signer_state \<Rightarrow> StackID \<Rightarrow> RequestSignerKey \<Rightarrow> bool" where
  "is_valid_signer st stack_id signer =
     (case map_of (sc_stacks st) stack_id of
        None \<Rightarrow> False
      | Some stack_owner \<Rightarrow>
          (case (stack_owner, signer) of (Solana stack_owner_pubkey, SolanaSigner signer_pubkey) \<Rightarrow>
             if signer_pubkey = stack_owner_pubkey then True
             else (case map_of (sc_signers st) signer of
                     None \<Rightarrow> False
                   | Some signer_owner \<Rightarrow> signer_owner = stack_owner)))"

fun signer_step :: "signer_message \<Rightarrow> signer_state \<Rightarrow> signer_state \<times> bool list" where
  "signer_step (ValidateSigner stack_id signer) st = (st, [is_valid_signer st stack_id signer])"
| "signer_step (StacksAvailable stacks) st =
     (st\<lparr>sc_stacks := fold (\<lambda>(i, w). AList.update i w) stacks (sc_stacks st)\<rparr>, [])"
| "signer_step (StacksRemoved stack_ids) st =
     (st\<lparr>sc_stacks := fold AList.delete stack_ids (sc_stacks st)\<rparr>, [])"
| "signer_step (SignersAvailable signers) st =
     (st\<lparr>sc_signers := fold (\<lambda>(k, w). AList.update k w) signers (sc_signers st)\<rparr>, [])"
| "signer_step (SignersRemoved signers) st =
     (st\<lparr>sc_signers := fold AList.delete signers (sc_signers st)\<rparr>, [])"

definition signer_cache_start :: "(signer_message, signer_state, bool) mailbox" where
  "signer_cache_start = mailbox_start \<lparr>sc_stacks = [], sc_signers = []\<rparr>"

section \<open>Lookups after a message\<close>

lemma fold_delete_get:
  "map_of (fold AList.delete ks m) k = (if k \<in> set ks then None else map_of m k)"
  by (induction ks arbitrary: m) (auto simp: hm_simps)

lemma fold_delete_distinct: "distinct (map fst m) \<Longrightarrow> distinct (map fst (fold AList.delete ks m))"
  by (induction ks arbitrary: m) auto

text \<open>
  The reference: what the history of messages says about a key. The last message that names
  it decides, and within a message the last pair.
\<close>

fun stack_event :: "StackID \<Rightarrow> signer_message \<Rightarrow> StackOwner option option" where
  "stack_event i (StacksAvailable ps) = map_option Some (map_of (rev ps) i)"
| "stack_event i (StacksRemoved ks) = (if i \<in> set ks then Some None else None)"
| "stack_event i _ = None"

fun signer_event :: "RequestSignerKey \<Rightarrow> signer_message \<Rightarrow> StackOwner option option" where
  "signer_event k (SignersAvailable ps) = map_option Some (map_of (rev ps) k)"
| "signer_event k (SignersRemoved ks) = (if k \<in> set ks then Some None else None)"
| "signer_event k _ = None"

definition last_event :: "('m \<Rightarrow> 'v option option) \<Rightarrow> 'm list \<Rightarrow> 'v option" where
  "last_event ev ms = (case filter_map ev (rev ms) of [] \<Rightarrow> None | e # _ \<Rightarrow> e)"

lemma last_event_Nil [simp]: "last_event ev [] = None"
  by (simp add: last_event_def)

lemma last_event_snoc [simp]:
  "last_event ev (ms @ [m]) = (case ev m of None \<Rightarrow> last_event ev ms | Some e \<Rightarrow> e)"
  by (simp add: last_event_def split: option.splits)

lemma last_event_append:
  "(\<And>m. m \<in> set later \<Longrightarrow> ev m = None) \<Longrightarrow> last_event ev (ms @ later) = last_event ev ms"
  using filter_map_none [of "rev later" ev] by (simp add: last_event_def)

lemma signer_step_lookup:
  "map_of (sc_stacks (fst (signer_step m st))) i =
     (case stack_event i m of None \<Rightarrow> map_of (sc_stacks st) i | Some e \<Rightarrow> e)"
  "map_of (sc_signers (fst (signer_step m st))) k =
     (case signer_event k m of None \<Rightarrow> map_of (sc_signers st) k | Some e \<Rightarrow> e)"
  by (cases m; simp add: fold_update_get fold_delete_get split: option.splits)+

lemma run_signer_lookup:
  "map_of (sc_stacks (fst (run_steps signer_step ms \<lparr>sc_stacks = [], sc_signers = []\<rparr>))) i =
     last_event (stack_event i) ms"
  "map_of (sc_signers (fst (run_steps signer_step ms \<lparr>sc_stacks = [], sc_signers = []\<rparr>))) k =
     last_event (signer_event k) ms"
  by (induction ms rule: rev_induct) (simp_all add: run_steps_snoc signer_step_lookup cong: option.case_cong)

definition signer_inv :: "signer_state \<Rightarrow> bool" where
  "signer_inv st \<longleftrightarrow> distinct (map fst (sc_stacks st)) \<and> distinct (map fst (sc_signers st))"

interpretation signer_cache: mailbox_component signer_step signer_inv
proof
  fix st m assume "signer_inv st"
  then show "signer_inv (fst (signer_step m st))"
    by (cases m) (auto simp: signer_inv_def fold_update_distinct fold_delete_distinct)
qed

section \<open>Properties\<close>


text \<open>
  Revocation takes effect: once a signer has been removed and as long as it is not
  announced again, it is accepted for no stack but its own owner's stacks that it owns itself.
\<close>

theorem signer_revocation:
  assumes "SolanaSigner k \<in> set ks"
    and "\<And>m. m \<in> set later \<Longrightarrow> signer_event (SolanaSigner k) m = None"
    and "last_event (stack_event i) (earlier @ [SignersRemoved ks] @ later) \<noteq> Some (Solana k)"
  shows "\<not> is_valid_signer (fst (run_steps signer_step (earlier @ [SignersRemoved ks] @ later)
     \<lparr>sc_stacks = [], sc_signers = []\<rparr>)) i (SolanaSigner k)"
proof -
  have "last_event (signer_event (SolanaSigner k)) ((earlier @ [SignersRemoved ks]) @ later) =
      last_event (signer_event (SolanaSigner k)) (earlier @ [SignersRemoved ks])"
    by (rule last_event_append) (rule assms(2))
  also have "\<dots> = None" using assms(1) by simp
  finally have "last_event (signer_event (SolanaSigner k)) (earlier @ [SignersRemoved ks] @ later) = None"
    by simp
  then show ?thesis
    using assms(3) unfolding is_valid_signer_def run_signer_lookup
    by (auto split: option.splits StackOwner.splits)
qed

theorem signer_revocation_witness:
  "\<not> is_valid_signer (fst (run_steps signer_step
     ([StacksAvailable [(SolanaPublicKey [1], Solana [2])], SignersAvailable [(SolanaSigner [3], Solana [2])]]
      @ [SignersRemoved [SolanaSigner [3]]] @ [ValidateSigner (SolanaPublicKey [1]) (SolanaSigner [3])])
     \<lparr>sc_stacks = [], sc_signers = []\<rparr>)) (SolanaPublicKey [1]) (SolanaSigner [3])"
  by (rule signer_revocation) (simp_all add: last_event_def)

end
