(* ===== verification/Usage_Aggregator.thy ===== *)
theory Usage_Aggregator
  imports Mailbox Mu_Stack
begin

text \<open>
  The usage aggregator, \<open>src/executor/src/stack/usage_aggregator.rs\<close>: usage reported by the
  components of an executor is summed per stack and category until the blockchain monitor
  collects and resets it. Amounts are \<open>u128\<close>; the executor is built without overflow checks,
  so additions wrap around.
\<close>

datatype Usage =
    FunctionMBInstructions u64 u64
  | DBStorage u64 u64
  | DBRead u64 u64
  | DBWrite u64 u64
  | GatewayRequests u64
  | GatewayTraffic u64

datatype UsageCategory =
    CatFunctionMBInstructions | CatDBStorage | CatDBReads | CatDBWrites | CatGatewayRequests
  | CatGatewayTraffic

fun into_category :: "Usage \<Rightarrow> UsageCategory \<times> u128" where
  "into_category (FunctionMBInstructions memory_megabytes instructions) =
     (CatFunctionMBInstructions, ucast memory_megabytes * ucast instructions)"
| "into_category (DBStorage size_bytes seconds) = (CatDBStorage, ucast size_bytes * ucast seconds)"
| "into_category (DBRead weak_reads strong_reads) = (CatDBReads, ucast weak_reads + ucast strong_reads * 2)"
| "into_category (DBWrite weak_writes strong_writes) = (CatDBWrites, ucast weak_writes + ucast strong_writes * 2)"
| "into_category (GatewayRequests cnt) = (CatGatewayRequests, ucast cnt)"
| "into_category (GatewayTraffic size_bytes) = (CatGatewayTraffic, ucast size_bytes)"

type_synonym usage_map = "(UsageCategory, u128) hash_map"
type_synonym usages = "(StackID, usage_map) hash_map"

datatype usage_message = RegisterUsage StackID "Usage list" | GetAndResetUsages

definition add_usage :: "Usage \<Rightarrow> usage_map \<Rightarrow> usage_map" where
  "add_usage u m =
     (let (category, amount) = into_category u
      in AList.update category (case_option 0 id (map_of m category) + amount) m)"

definition register_usages :: "Usage list \<Rightarrow> usage_map \<Rightarrow> usage_map" where
  "register_usages us m = fold add_usage us m"

text \<open>The state is the map of usages; the reply to \<open>GetAndResetUsages\<close> is the output of the step.\<close>

fun aggregator_step :: "usage_message \<Rightarrow> usages \<Rightarrow> usages \<times> usages list" where
  "aggregator_step (RegisterUsage stack_id us) s =
     (AList.update stack_id (register_usages us (case_option [] id (map_of s stack_id))) s, [])"
| "aggregator_step GetAndResetUsages s = ([], [s])"

definition aggregator_start :: "(usage_message, usages, usages) mailbox" where
  "aggregator_start = mailbox_start []"

section \<open>Amounts\<close>

definition amount_in :: "StackID \<Rightarrow> UsageCategory \<Rightarrow> usages \<Rightarrow> u128" where
  "amount_in i c s = (case map_of s i of None \<Rightarrow> 0 | Some m \<Rightarrow> case_option 0 id (map_of m c))"

definition usage_amount :: "UsageCategory \<Rightarrow> Usage \<Rightarrow> u128" where
  "usage_amount c u = (if fst (into_category u) = c then snd (into_category u) else 0)"

fun registered :: "StackID \<Rightarrow> UsageCategory \<Rightarrow> usage_message \<Rightarrow> u128" where
  "registered i c (RegisterUsage j us) = (if i = j then (\<Sum>u\<leftarrow>us. usage_amount c u) else 0)"
| "registered i c GetAndResetUsages = 0"

lemma register_usages_amount:
  "case_option 0 id (map_of (register_usages us m) c) = case_option 0 id (map_of m c) + (\<Sum>u\<leftarrow>us. usage_amount c u)"
  by (induction us arbitrary: m)
    (auto simp: register_usages_def add_usage_def usage_amount_def hm_simps split_beta ac_simps)

lemma aggregator_step_amount:
  "amount_in i c (fst (aggregator_step m s)) + (\<Sum>r\<leftarrow>snd (aggregator_step m s). amount_in i c r)
     = amount_in i c s + registered i c m"
  by (cases m) (auto simp: amount_in_def hm_simps register_usages_amount split: option.splits)

lemma run_steps_amount:
  "amount_in i c (fst (run_steps aggregator_step ms s)) + (\<Sum>r\<leftarrow>snd (run_steps aggregator_step ms s). amount_in i c r)
     = amount_in i c s + (\<Sum>m\<leftarrow>ms. registered i c m)"
proof (induction ms arbitrary: s)
  case (Cons m ms)
  let ?s = "fst (aggregator_step m s)"
  have "amount_in i c (fst (run_steps aggregator_step (m # ms) s))
      + (\<Sum>r\<leftarrow>snd (run_steps aggregator_step (m # ms) s). amount_in i c r)
      = (\<Sum>r\<leftarrow>snd (aggregator_step m s). amount_in i c r)
        + (amount_in i c (fst (run_steps aggregator_step ms ?s))
           + (\<Sum>r\<leftarrow>snd (run_steps aggregator_step ms ?s). amount_in i c r))"
    by (simp add: split_beta)
  also have "\<dots> = amount_in i c s + registered i c m + (\<Sum>m\<leftarrow>ms. registered i c m)"
    unfolding Cons.IH using aggregator_step_amount [of i c m s] by (simp add: ac_simps)
  finally show ?case by (simp add: ac_simps)
qed simp

text \<open>One report never overflows: the product of two 64 bit numbers fits 128 bits.\<close>

lemma into_category_exact:
  "unat (snd (into_category u)) = (case u of
      FunctionMBInstructions m n \<Rightarrow> unat m * unat n
    | DBStorage b s \<Rightarrow> unat b * unat s
    | DBRead w s \<Rightarrow> unat w + 2 * unat s
    | DBWrite w s \<Rightarrow> unat w + 2 * unat s
    | GatewayRequests n \<Rightarrow> unat n
    | GatewayTraffic b \<Rightarrow> unat b)"
proof -
  have w: "unat (ucast x :: u128) = unat x" for x :: u64 by (rule unat_ucast_widen) simp
  have lt: "unat x < 2 ^ 64" for x :: u64 using unsigned_less [of x] by simp
  have mul: "unat (ucast x * ucast y :: u128) = unat x * unat y" for x y :: u64
  proof -
    have "unat x * unat y < 2 ^ 64 * 2 ^ 64" using lt by (intro mult_strict_mono') auto
    then show ?thesis using arith_mul_exact(2) [of "ucast x :: u128" "ucast y"] w by simp
  qed
  have rw: "unat (ucast x + ucast y * 2 :: u128) = unat x + 2 * unat y" for x y :: u64
  proof -
    have m: "unat (ucast y * 2 :: u128) = unat y * 2"
      using arith_mul_exact(2) [of "ucast y :: u128" 2] w [of y] lt [of y] by simp
    show ?thesis
      using arith_add_exact(2) [of "ucast x :: u128" "ucast y * 2"] m w [of x] lt [of x] lt [of y] by simp
  qed
  show ?thesis by (cases u) (simp_all add: w mul rw)
qed

section \<open>Invariant\<close>

definition aggregator_inv :: "usages \<Rightarrow> bool" where
  "aggregator_inv s \<longleftrightarrow> distinct (map fst s) \<and> (\<forall>(i, m) \<in> set s. distinct (map fst m))"

lemma register_usages_distinct: "distinct (map fst m) \<Longrightarrow> distinct (map fst (register_usages us m))"
  unfolding register_usages_def
  by (induction us arbitrary: m) (auto simp: add_usage_def split_beta)

interpretation aggregator: mailbox_component aggregator_step aggregator_inv
proof
  fix s m assume inv: "aggregator_inv s"
  show "aggregator_inv (fst (aggregator_step m s))"
  proof (cases m)
    case (RegisterUsage i us)
    have "distinct (map fst (register_usages us (case_option [] id (map_of s i))))"
      using inv by (intro register_usages_distinct)
        (auto simp: aggregator_inv_def split: option.splits dest!: map_of_SomeD)
    with inv RegisterUsage show ?thesis
      unfolding aggregator_inv_def by (auto dest!: update_values)
  qed (simp add: aggregator_inv_def)
qed

section \<open>Properties\<close>


text \<open>
  The state of the aggregator is always a map of maps with distinct keys, in every
  interleaving of its clients.
\<close>

theorem aggregator_keys_distinct:
  "aggregator_inv (mb_state (mailbox_run aggregator_step es aggregator_start))"
  unfolding aggregator_start_def by (rule aggregator.mailbox_keeps_always) (simp add: aggregator_inv_def)

end
