(* ===== verification/Blockchain_Monitor.thy ===== *)
theory Blockchain_Monitor
  imports Stack_Collection Stack_Proto Request_Signer_Cache Usage_Aggregator Marketplace
begin

text \<open>
  The blockchain monitor, \<open>src/executor/src/stack/blockchain_monitor.rs\<close>: it reads stacks,
  request signers and escrow balances of its region from the chain, keeps the collection of
  known stacks, tells the rest of the executor which stacks to run and reports usage back.

  The Solana client libraries are the parameter \<open>monitor_env\<close>: address derivation, balance
  queries and the decoders of account data. A panic of the monitor is \<open>None\<close>; an error that
  is logged and dropped is part of the result.
\<close>

section \<open>Interfaces and state\<close>

datatype balance_reply = TokenAmount string | AccountNotFound | RpcFailure

record monitor_env =
  me_find_pda :: "bytes list \<Rightarrow> pubkey \<times> u8"
  me_token_account_balance :: "pubkey \<Rightarrow> balance_reply"
  me_parse_pubkey :: "string \<Rightarrow> pubkey option"
  me_decode :: "bytes \<Rightarrow> bytes option"
  me_stack_account :: "bytes \<Rightarrow> StackAccount option"
  me_request_signer :: "bytes \<Rightarrow> ApiRequestSigner option"
  me_pb_parse :: "bytes \<Rightarrow> PbStack option"

datatype monitor_error =
    BadAmount | BalanceFetch | BadPubkey | BadAccount | BadStackAccount | BadStackData proto_error
  | InvalidStack StackValidationError | BadRequestSigner | DeletedAtStartup | InactiveAtStartup

datatype StackRemovalMode = Temporary | Permanent

datatype BlockchainMonitorNotification =
    NStacksAvailable "StackWithMetadata list"
  | NStacksRemoved "(StackID \<times> StackRemovalMode) list"
  | NRequestSignersAvailable "(RequestSignerKey \<times> StackOwner) list"
  | NRequestSignersRemoved "RequestSignerKey list"

record 'f EscrowBalance =
  eb_user_balance :: 'f
  eb_min_balance :: 'f

definition is_over_minimum :: "('f::linorder) EscrowBalance \<Rightarrow> bool" where
  "is_over_minimum b \<longleftrightarrow> eb_min_balance b < eb_user_balance b"

text \<open>The subscriptions to escrow accounts are the list of owners subscribed to.\<close>

record monitor_state =
  mo_stacks :: StackCollection
  mo_region_pda :: pubkey
  mo_provider_pda :: pubkey
  mo_min_escrow_balance :: u64
  mo_escrow_balances :: "(pubkey, u64) hash_map"
  mo_escrow_subscriptions :: "pubkey list"

datatype StackWithState = SActive StackWithMetadata | SDeleted StackID StackOwner

record keyed_account =
  ka_pubkey :: string
  ka_account :: bytes

section \<open>Reading the chain\<close>

text \<open>\<open>str::parse::<u64>\<close>: an optional plus sign, at least one digit, no overflow.\<close>

definition digit_value :: "char \<Rightarrow> nat option" where
  "digit_value c = (let n = of_char c in if 48 \<le> n \<and> n \<le> (57::nat) then Some (n - 48) else None)"

fun parse_digits :: "nat \<Rightarrow> string \<Rightarrow> nat option" where
  "parse_digits acc [] = Some acc"
| "parse_digits acc (c # cs) =
     (case digit_value c of
        None \<Rightarrow> None
      | Some d \<Rightarrow> if 2 ^ 64 \<le> acc * 10 + d then None else parse_digits (acc * 10 + d) cs)"

definition parse_u64 :: "string \<Rightarrow> u64 option" where
  "parse_u64 s =
     (let ds = (case s of c # cs \<Rightarrow> if c = CHR ''+'' then cs else s | [] \<Rightarrow> [])
      in if ds = [] then None else map_option word_of_nat (parse_digits 0 ds))"

definition fetch_owner_escrow_balance ::
  "monitor_env \<Rightarrow> StackOwner \<Rightarrow> pubkey \<Rightarrow> monitor_error + u64 option" where
  "fetch_owner_escrow_balance env owner provider_pda =
     (case owner of Solana owner_key \<Rightarrow>
      let (escrow_pda, _) = me_find_pda env [as_bytes ''escrow'', owner_key, provider_pda]
      in case me_token_account_balance env escrow_pda of
           TokenAmount s \<Rightarrow> res_bind (ok_or BadAmount (parse_u64 s)) (\<lambda>x. Inr (Some x))
         | AccountNotFound \<Rightarrow> Inr None
         | RpcFailure \<Rightarrow> Inl BalanceFetch)"

definition owner_state_of :: "u64 \<Rightarrow> u64 \<Rightarrow> OwnerState" where
  "owner_state_of min_escrow_balance escrow_balance =
     (if min_escrow_balance \<le> escrow_balance then OwnerActive else OwnerInactive)"

text \<open>\<open>Itertools::group_by\<close>: maximal runs of consecutive elements with the same key.\<close>

function group_by :: "('a \<Rightarrow> 'k) \<Rightarrow> 'a list \<Rightarrow> ('k \<times> 'a list) list" where
  "group_by f [] = []"
| "group_by f (x # xs) =
     (f x, x # takeWhile (\<lambda>y. f y = f x) xs) # group_by f (dropWhile (\<lambda>y. f y = f x) xs)"
  by pat_completeness auto
termination
  by (relation "measure (\<lambda>(f, xs). length xs)") (auto simp: less_Suc_eq_le length_dropWhile_le)

fun owner_states_loop ::
  "monitor_env \<Rightarrow> pubkey \<Rightarrow> u64 \<Rightarrow> (StackOwner \<times> StackWithMetadata list) list \<Rightarrow>
     (StackOwner, OwnerState \<times> u64 \<times> StackWithMetadata list) hash_map \<Rightarrow>
     monitor_error + (StackOwner, OwnerState \<times> u64 \<times> StackWithMetadata list) hash_map" where
  "owner_states_loop env provider_pda min_bal [] res = Inr res"
| "owner_states_loop env provider_pda min_bal ((owner, stacks) # groups) res =
     res_bind (fetch_owner_escrow_balance env owner provider_pda) (\<lambda>b.
       let escrow_balance = case_option 0 id b
       in owner_states_loop env provider_pda min_bal groups
            (AList.update owner (owner_state_of min_bal escrow_balance, escrow_balance, stacks) res))"

definition get_owner_states ::
  "monitor_env \<Rightarrow> pubkey \<Rightarrow> StackWithMetadata list \<Rightarrow> u64 \<Rightarrow>
     monitor_error + (StackOwner, OwnerState \<times> u64 \<times> StackWithMetadata list) hash_map" where
  "get_owner_states env provider_pda stacks min_escrow_balance =
     owner_states_loop env provider_pda min_escrow_balance (group_by sm_owner stacks) []"

definition read_solana_stack_account :: "monitor_env \<Rightarrow> pubkey \<times> bytes \<Rightarrow> monitor_error + StackWithState" where
  "read_solana_stack_account env acc =
     (case acc of (key, data) \<Rightarrow>
      res_bind (ok_or BadStackAccount (me_stack_account env data)) (\<lambda>stack_account.
      case sk_state stack_account of
        StackActive revision name stack_data \<Rightarrow>
          res_bind (map_err BadStackData (try_deserialize_proto (me_pb_parse env) stack_data)) (\<lambda>stack_definition.
          res_bind (map_err (\<lambda>(_, e). InvalidStack e) (validate stack_definition)) (\<lambda>validated.
          Inr (SActive \<lparr>sm_stack = validated, sm_name = name, sm_revision = revision,
            sm_metadata = SolanaMetadata \<lparr>ssm_account_id = key, ssm_owner = sk_user stack_account\<rparr>\<rparr>)))
      | StackDeleted \<Rightarrow> Inr (SDeleted (SolanaPublicKey key) (Solana (sk_user stack_account)))))"

definition read_solana_rpc_keyed_account :: "monitor_env \<Rightarrow> keyed_account \<Rightarrow> monitor_error + StackWithState" where
  "read_solana_rpc_keyed_account env a =
     res_bind (ok_or BadPubkey (me_parse_pubkey env (ka_pubkey a))) (\<lambda>key.
     res_bind (ok_or BadAccount (me_decode env (ka_account a))) (\<lambda>account.
     read_solana_stack_account env (key, account)))"

definition read_solana_request_signer_account :: "monitor_env \<Rightarrow> bytes \<Rightarrow> monitor_error + ApiRequestSigner" where
  "read_solana_request_signer_account env data = ok_or BadRequestSigner (me_request_signer env data)"

section \<open>Startup\<close>

definition read_existing_stack :: "monitor_env \<Rightarrow> pubkey \<times> bytes \<Rightarrow> monitor_error + StackWithMetadata" where
  "read_existing_stack env acc =
     res_bind (read_solana_stack_account env acc) (\<lambda>s.
       case s of SActive s \<Rightarrow> Inr s | SDeleted _ _ \<Rightarrow> Inl DeletedAtStartup)"

definition read_existing_signer :: "monitor_env \<Rightarrow> pubkey \<times> bytes \<Rightarrow> monitor_error + RequestSignerKey \<times> StackOwner" where
  "read_existing_signer env acc =
     res_bind (read_solana_request_signer_account env (snd acc)) (\<lambda>r.
       if rs_active r then Inr (SolanaSigner (rs_signer r), Solana (rs_user r)) else Inl InactiveAtStartup)"

text \<open>
  \<open>start\<close> after the accounts have been fetched: the state of the mailbox and the first
  notification. The outer option is a panic of \<open>StackCollection::from_known\<close>.
\<close>

definition monitor_start ::
  "monitor_env \<Rightarrow> pubkey \<Rightarrow> u32 \<Rightarrow> u64 \<Rightarrow> (pubkey \<times> bytes) list \<Rightarrow> (pubkey \<times> bytes) list \<Rightarrow>
     (monitor_error + monitor_state \<times> BlockchainMonitorNotification list) option" where
  "monitor_start env provider_key region_number min_escrow_balance stack_accounts signer_accounts =
     (let region_pda = fst (me_find_pda env [as_bytes ''region'', provider_key, le_bytes 4 region_number]);
          provider_pda = fst (me_find_pda env [as_bytes ''provider'', provider_key])
      in case collect_res (read_existing_stack env) stack_accounts of
           Inl e \<Rightarrow> Some (Inl e)
         | Inr existing_stacks \<Rightarrow>
             (case collect_res (read_existing_signer env) signer_accounts of
                Inl e \<Rightarrow> Some (Inl e)
              | Inr existing_signers \<Rightarrow>
                  (case get_owner_states env provider_pda existing_stacks min_escrow_balance of
                     Inl e \<Rightarrow> Some (Inl e)
                   | Inr owner_states \<Rightarrow>
                       Option.bind (from_known (map (\<lambda>(k, st, b, ss). (k, st, ss)) owner_states)) (\<lambda>stacks.
                       Some (Inr
                         (\<lparr>mo_stacks = stacks, mo_region_pda = region_pda, mo_provider_pda = provider_pda,
                           mo_min_escrow_balance = min_escrow_balance,
                           mo_escrow_balances =
                             hm_from_pairs (map (\<lambda>(k, st, b, ss). (owner_to_inner k, b)) owner_states),
                           mo_escrow_subscriptions = map owner_to_inner (collection_owners stacks)\<rparr>,
                          [NRequestSignersAvailable existing_signers]))))))"

text \<open>The first thing the mailbox body does: announce the stacks of active owners.\<close>

definition monitor_announce ::
  "monitor_state \<Rightarrow> BlockchainMonitorNotification list option" where
  "monitor_announce st =
     Option.bind (all_active (mo_stacks st)) (\<lambda>ss. Some (if ss = [] then [] else [NStacksAvailable ss]))"

section \<open>Chain updates\<close>

definition on_solana_escrow_updated ::
  "pubkey \<Rightarrow> u64 \<Rightarrow> monitor_state \<Rightarrow> (monitor_state \<times> BlockchainMonitorNotification list) option" where
  "on_solana_escrow_updated owner_pubkey escrow_balance st0 =
     (let st = st0\<lparr>mo_escrow_balances := AList.update owner_pubkey escrow_balance (mo_escrow_balances st0)\<rparr>;
          new_state = owner_state_of (mo_min_escrow_balance st) escrow_balance;
          owner = Solana owner_pubkey
      in if \<not> owner_entry_occupied owner (mo_stacks st) then Some (st, [])
         else Option.bind (entry_owner_state owner (mo_stacks st)) (\<lambda>old_state.
           if old_state = new_state then Some (st, [])
           else Option.bind (entry_stacks owner (mo_stacks st)) (\<lambda>stacks.
             case new_state of
               OwnerActive \<Rightarrow> Some (st\<lparr>mo_stacks := make_active owner (mo_stacks st)\<rparr>, [NStacksAvailable stacks])
             | OwnerInactive \<Rightarrow> Some (st\<lparr>mo_stacks := make_inactive owner (mo_stacks st)\<rparr>,
                 [NStacksRemoved (map (\<lambda>s. (sm_id s, Temporary)) stacks)]))))"

definition on_active_stack ::
  "monitor_env \<Rightarrow> StackWithMetadata \<Rightarrow> monitor_state \<Rightarrow>
     (monitor_error + monitor_state \<times> BlockchainMonitorNotification list) option" where
  "on_active_stack env stack st =
     (if owner_entry_occupied (sm_owner stack) (mo_stacks st) then
        Option.bind (add_stack (sm_owner stack) stack (mo_stacks st)) (\<lambda>(should_report_stack, c).
          Some (Inr (st\<lparr>mo_stacks := c\<rparr>, if should_report_stack then [NStacksAvailable [stack]] else [])))
      else
        (case fetch_owner_escrow_balance env (sm_owner stack) (mo_provider_pda st) of
           Inl e \<Rightarrow> Some (Inl e)
         | Inr b \<Rightarrow>
             Option.bind (insert_first (sm_owner stack)
                 (owner_state_of (mo_min_escrow_balance st) (case_option 0 id b)) stack (mo_stacks st)) (\<lambda>c.
               Some (Inr (st\<lparr>mo_stacks := c\<rparr>, [NStacksAvailable [stack]])))))"

definition on_deleted_stack ::
  "StackID \<Rightarrow> StackOwner \<Rightarrow> monitor_state \<Rightarrow>
     (monitor_error + monitor_state \<times> BlockchainMonitorNotification list) option" where
  "on_deleted_stack stack_id owner_id st =
     (if owner_entry_occupied owner_id (mo_stacks st) then
        Option.bind (remove_stack owner_id stack_id (mo_stacks st)) (\<lambda>(removed, c).
          Some (Inr (st\<lparr>mo_stacks := c\<rparr>, if removed then [NStacksRemoved [(stack_id, Permanent)]] else [])))
      else Some (Inr (st, [])))"

definition on_new_stack_received ::
  "monitor_env \<Rightarrow> keyed_account \<Rightarrow> monitor_state \<Rightarrow>
     (monitor_error + monitor_state \<times> BlockchainMonitorNotification list) option" where
  "on_new_stack_received env account st =
     (case read_solana_rpc_keyed_account env account of
        Inl e \<Rightarrow> Some (Inl e)
      | Inr (SActive stack) \<Rightarrow> on_active_stack env stack st
      | Inr (SDeleted stack_id owner_id) \<Rightarrow> on_deleted_stack stack_id owner_id st)"

definition on_request_signer_received ::
  "monitor_env \<Rightarrow> keyed_account \<Rightarrow> monitor_error + BlockchainMonitorNotification" where
  "on_request_signer_received env account =
     res_bind (ok_or BadAccount (me_decode env (ka_account account))) (\<lambda>acc.
     res_bind (read_solana_request_signer_account env acc) (\<lambda>r.
       Inr (if rs_active r then NRequestSignersAvailable [(SolanaSigner (rs_signer r), Solana (rs_user r))]
            else NRequestSignersRemoved [SolanaSigner (rs_signer r)])))"

text \<open>Reconnecting subscribes to the escrow accounts of the owners known at that time.\<close>

definition reconnect_solana_subscriber :: "monitor_state \<Rightarrow> monitor_state" where
  "reconnect_solana_subscriber st =
     st\<lparr>mo_escrow_subscriptions := map owner_to_inner (collection_owners (mo_stacks st))\<rparr>"

section \<open>The mailbox\<close>

datatype monitor_event =
    EvGetStack StackID
  | EvGetMetadata StackID
  | EvGetEscrowBalance StackOwner
  | EvTick
  | EvStack keyed_account
  | EvRequestSigner keyed_account
  | EvEscrow pubkey u64
  | EvReconnect

datatype monitor_out =
    ONotify BlockchainMonitorNotification
  | OReplyStack "StackWithMetadata option"
  | OReplyMetadata "StackMetadata option"
  | OReplyEscrowBalance "(u64 \<times> u64) option"
  | OReplyTick
  | OReportUsages

definition get_active :: "StackID \<Rightarrow> monitor_state \<Rightarrow> StackWithMetadata option option" where
  "get_active stack_id st =
     Option.bind (collection_entry stack_id (mo_stacks st)) (\<lambda>e.
       Some (case e of ActiveEntry a \<Rightarrow> Some a | _ \<Rightarrow> None))"

definition escrow_balance_reply :: "monitor_env \<Rightarrow> StackOwner \<Rightarrow> monitor_state \<Rightarrow> (u64 \<times> u64) option" where
  "escrow_balance_reply env owner st =
     (let balance = (case map_of (mo_escrow_balances st) (owner_to_inner owner) of
        Some b \<Rightarrow> Some b
      | None \<Rightarrow> (case fetch_owner_escrow_balance env owner (mo_provider_pda st) of
          Inr x \<Rightarrow> x | Inl _ \<Rightarrow> None))
      in map_option (\<lambda>b. (b, mo_min_escrow_balance st)) balance)"

text \<open>
  One iteration of the main loop; \<open>None\<close> is a panic. Balances are answered in token units,
  which the caller scales for display. A stop ends the loop after one last report.
\<close>

fun monitor_step ::
  "monitor_env \<Rightarrow> monitor_event \<Rightarrow> monitor_state \<Rightarrow> (monitor_state \<times> monitor_out list) option" where
  "monitor_step env (EvGetStack i) st = Option.bind (get_active i st) (\<lambda>s. Some (st, [OReplyStack s]))"
| "monitor_step env (EvGetMetadata i) st =
     Option.bind (get_active i st) (\<lambda>s. Some (st, [OReplyMetadata (map_option sm_metadata s)]))"
| "monitor_step env (EvGetEscrowBalance owner) st =
     Some (st, [OReplyEscrowBalance (escrow_balance_reply env owner st)])"
| "monitor_step env EvTick st = Some (st, [OReplyTick, OReportUsages])"
| "monitor_step env (EvStack a) st =
     Option.bind (on_new_stack_received env a st) (\<lambda>r.
       case r of Inl e \<Rightarrow> Some (st, []) | Inr (st', ns) \<Rightarrow> Some (st', map ONotify ns))"
| "monitor_step env (EvRequestSigner a) st =
     (case on_request_signer_received env a of Inl e \<Rightarrow> Some (st, []) | Inr n \<Rightarrow> Some (st, [ONotify n]))"
| "monitor_step env (EvEscrow owner_pubkey escrow_balance) st =
     Option.bind (on_solana_escrow_updated owner_pubkey escrow_balance st) (\<lambda>(st', ns).
       Some (st', map ONotify ns))"
| "monitor_step env EvReconnect st = Some (reconnect_solana_subscriber st, [])"

fun monitor_run ::
  "monitor_env \<Rightarrow> monitor_event list \<Rightarrow> monitor_state \<Rightarrow> (monitor_state \<times> monitor_out list) option" where
  "monitor_run env [] st = Some (st, [])"
| "monitor_run env (e # es) st =
     Option.bind (monitor_step env e st) (\<lambda>(st', out).
     Option.bind (monitor_run env es st') (\<lambda>(st'', out'). Some (st'', out @ out')))"

section \<open>Reporting usage\<close>

definition usage_zero :: ServiceUsage where
  "usage_zero = \<lparr>su_function_mb_instructions = 0, su_db_bytes_seconds = 0, su_db_reads = 0, su_db_writes = 0,
     su_gateway_requests = 0, su_gateway_traffic_bytes = 0\<rparr>"

fun set_category :: "UsageCategory \<times> u128 \<Rightarrow> ServiceUsage \<Rightarrow> ServiceUsage" where
  "set_category (CatFunctionMBInstructions, amount) u = u\<lparr>su_function_mb_instructions := amount\<rparr>"
| "set_category (CatDBStorage, amount) u = u\<lparr>su_db_bytes_seconds := amount\<rparr>"
| "set_category (CatDBReads, amount) u = u\<lparr>su_db_reads := ucast amount\<rparr>"
| "set_category (CatDBWrites, amount) u = u\<lparr>su_db_writes := ucast amount\<rparr>"
| "set_category (CatGatewayRequests, amount) u = u\<lparr>su_gateway_requests := ucast amount\<rparr>"
| "set_category (CatGatewayTraffic, amount) u = u\<lparr>su_gateway_traffic_bytes := ucast amount\<rparr>"

definition service_usage :: "usage_map \<Rightarrow> ServiceUsage" where
  "service_usage m = fold set_category m usage_zero"

definition generate_seed :: "u64 \<Rightarrow> u64 \<Rightarrow> u128" where
  "generate_seed micros rand = or (push_bit 64 (ucast micros)) (ucast rand)"

text \<open>
  \<open>report_usage\<close> builds the \<open>UpdateUsage\<close> instruction; sending it executes it on the ledger, or
  loses it (\<open>sent\<close> is false). The accounts are read from the ledger.
\<close>

definition usage_instruction ::
  "'t solana \<Rightarrow> pubkey \<Rightarrow> pubkey \<Rightarrow> pubkey \<Rightarrow> pubkey \<Rightarrow> pubkey \<Rightarrow> pubkey \<Rightarrow> pubkey \<Rightarrow> u128 \<Rightarrow>
     ServiceUsage \<Rightarrow> StackAccount \<Rightarrow> instruction" where
  "usage_instruction sol commission_account payer stack_id token_account provider_pda region_pda
     auth_signer_pda seed usage stack =
     (let state_pda = fst (find_pda sol [as_bytes ''state'']);
          (escrow_pda, escrow_bump) = find_pda sol [as_bytes ''escrow'', sk_user stack, provider_pda];
          usage_update_pda = fst (find_pda sol [as_bytes ''update'', stack_id, region_pda, le_bytes 16 seed])
      in UpdateUsage state_pda commission_account auth_signer_pda region_pda token_account usage_update_pda
           escrow_pda stack_id payer seed escrow_bump usage)"

definition report_usage ::
  "'t solana \<Rightarrow> bool \<Rightarrow> pubkey \<Rightarrow> pubkey \<Rightarrow> pubkey \<Rightarrow> pubkey \<Rightarrow> pubkey \<Rightarrow> pubkey \<Rightarrow> pubkey \<Rightarrow> u128 \<Rightarrow>
     ServiceUsage \<Rightarrow> 't ledger \<Rightarrow> bool \<times> 't ledger" where
  "report_usage sol sent commission_account payer stack_id token_account provider_pda region_pda
     auth_signer_pda seed usage l =
     (case accts l stack_id of
        Some (AStack stack) \<Rightarrow>
          if \<not> sent then (False, l)
          else (case exec sol [payer] (usage_instruction sol commission_account payer stack_id token_account
                  provider_pda region_pda auth_signer_pda seed usage stack) l of
                  Inl e \<Rightarrow> (False, l)
                | Inr l' \<Rightarrow> (True, l'))
      | _ \<Rightarrow> (False, l))"

text \<open>\<open>seeds\<close> and \<open>sents\<close> give, for each stack, the generated seed and whether the network delivers.\<close>

fun report_loop ::
  "'t solana \<Rightarrow> pubkey \<Rightarrow> pubkey \<Rightarrow> pubkey \<Rightarrow> pubkey \<Rightarrow> pubkey \<Rightarrow> pubkey \<Rightarrow>
     (StackID \<Rightarrow> u128) \<Rightarrow> (StackID \<Rightarrow> bool) \<Rightarrow> usages \<Rightarrow> 't ledger \<Rightarrow> 't ledger" where
  "report_loop sol commission_pda payer token_account provider_pda region_pda auth_signer_pda seeds sents [] l = l"
| "report_loop sol commission_pda payer token_account provider_pda region_pda auth_signer_pda seeds sents
     ((stack_id, us) # rest) l =
     report_loop sol commission_pda payer token_account provider_pda region_pda auth_signer_pda seeds sents rest
       (snd (report_usage sol (sents stack_id) commission_pda payer (stack_id_get_bytes stack_id) token_account
          provider_pda region_pda auth_signer_pda (seeds stack_id) (service_usage us) l))"

definition report_usages ::
  "'t solana \<Rightarrow> pubkey \<Rightarrow> pubkey \<Rightarrow> pubkey \<Rightarrow> (StackID \<Rightarrow> u128) \<Rightarrow> (StackID \<Rightarrow> bool) \<Rightarrow> usages \<Rightarrow>
     't ledger \<Rightarrow> bool \<times> 't ledger" where
  "report_usages sol payer provider_pubkey region_pda seeds sents us l =
     (let commission_pda = fst (find_pda sol [as_bytes ''commission'']);
          auth_signer_pda = fst (find_pda sol [as_bytes ''authorized_signer'', region_pda]);
          provider_pda = fst (find_pda sol [as_bytes ''provider'', provider_pubkey])
      in case accts l auth_signer_pda of
           Some (AUsageSigner auth_signer) \<Rightarrow>
             (True, report_loop sol commission_pda payer (us_token_account auth_signer) provider_pda region_pda
                auth_signer_pda seeds sents us l)
         | _ \<Rightarrow> (False, l))"

end
