(* ===== verification/Monitor_Props.thy ===== *)
theory Monitor_Props
  imports Blockchain_Monitor
begin

text \<open>
  What the blockchain monitor guarantees to the rest of the executor: it does not panic, and
  every stack of an owner with enough escrow has been announced with its latest revision. The
  only assumption on the chain is the one the marketplace program keeps: the user of a stack
  account never changes, here a function \<open>own\<close> from identifiers to owners.
\<close>

section \<open>Assumptions on what arrives\<close>

definition event_ok :: "monitor_env \<Rightarrow> (StackID \<Rightarrow> StackOwner) \<Rightarrow> monitor_event \<Rightarrow> bool" where
  "event_ok env own e \<longleftrightarrow>
     (case e of
        EvStack a \<Rightarrow> (case read_solana_rpc_keyed_account env a of
            Inr (SActive s) \<Rightarrow> sm_owner s = own (sm_id s) | _ \<Rightarrow> True)
      | _ \<Rightarrow> True)"

definition monitor_inv :: "(StackID \<Rightarrow> StackOwner) \<Rightarrow> monitor_state \<Rightarrow> bool" where
  "monitor_inv own st \<longleftrightarrow> coll_wf (mo_stacks st)
     \<and> (\<forall>i s. map_of (co_stacks (mo_stacks st)) i = Some s \<longrightarrow> sm_owner s = own i)"

lemma monitor_inv_same_owner:
  "monitor_inv own st \<Longrightarrow> sm_owner s = own (sm_id s) \<Longrightarrow> same_owner s (mo_stacks st)"
  by (auto simp: monitor_inv_def same_owner_def)

section \<open>The stacks announced\<close>

fun announce :: "BlockchainMonitorNotification \<Rightarrow> (StackID \<Rightarrow> StackWithMetadata option) \<Rightarrow>
    StackID \<Rightarrow> StackWithMetadata option" where
  "announce (NStacksAvailable ss) D = fold (\<lambda>s m. m(sm_id s \<mapsto> s)) ss D"
| "announce (NStacksRemoved ids) D = (\<lambda>i. if i \<in> fst ` set ids then None else D i)"
| "announce _ D = D"

definition notifications :: "monitor_out list \<Rightarrow> BlockchainMonitorNotification list" where
  "notifications out = filter_map (\<lambda>x. case x of ONotify n \<Rightarrow> Some n | _ \<Rightarrow> None) out"

lemma notifications_append [simp]: "notifications (xs @ ys) = notifications xs @ notifications ys"
  by (simp add: notifications_def)

lemma notifications_notify [simp]: "notifications (map ONotify ns) = ns"
  by (induction ns) (simp_all add: notifications_def)

lemma fold_available_other:
  "i \<notin> sm_id ` set ss \<Longrightarrow> fold (\<lambda>s m. m(sm_id s \<mapsto> s)) ss D i = D i"
  by (induction ss arbitrary: D) auto

lemma fold_available_in:
  assumes "\<And>t. t \<in> set ss \<Longrightarrow> sm_id t = i \<Longrightarrow> t = s" and "s \<in> set ss" and "sm_id s = i"
  shows "fold (\<lambda>s m. m(sm_id s \<mapsto> s)) ss D i = Some s"
  using assms
proof (induction ss arbitrary: D)
  case (Cons t ss)
  show ?case
  proof (cases "s \<in> set ss")
    case True
    with Cons show ?thesis by simp
  next
    case False
    with Cons.prems have t: "t = s" by simp
    have "i \<notin> sm_id ` set ss" using Cons.prems(1) False by auto
    then have "fold (\<lambda>s m. m(sm_id s \<mapsto> s)) (t # ss) D i = (D(sm_id t \<mapsto> t)) i"
      by (simp only: fold_simps fold_available_other not_False_eq_True)
    with t Cons.prems(3) show ?thesis by (simp only: fun_upd_same)
  qed
qed simp

text \<open>Every stack of an active owner has been announced as it is known.\<close>

definition covered :: "monitor_state \<Rightarrow> (StackID \<Rightarrow> StackWithMetadata option) \<Rightarrow> bool" where
  "covered st D \<longleftrightarrow> (\<forall>i s. known (mo_stacks st) i = Some (s, OwnerActive) \<longrightarrow> D i = Some s)"

section \<open>Single updates\<close>

lemma escrow_update_cases:
  assumes "monitor_inv own st"
  shows "\<exists>st' ns. on_solana_escrow_updated k b st = Some (st', ns) \<and> monitor_inv own st'
     \<and> (case map_of (co_owners (mo_stacks st)) (Solana k) of
          None \<Rightarrow> ns = [] \<and> mo_stacks st' = mo_stacks st
        | Some d \<Rightarrow>
            if od_state d = owner_state_of (mo_min_escrow_balance st) b then ns = [] \<and> mo_stacks st' = mo_stacks st
            else \<exists>ss. set ss = {s. \<exists>i. known (mo_stacks st) i = Some (s, od_state d) \<and> sm_owner s = Solana k}
              \<and> (if mo_min_escrow_balance st \<le> b
                 then ns = [NStacksAvailable ss] \<and> mo_stacks st' = make_active (Solana k) (mo_stacks st)
                 else ns = [NStacksRemoved (map (\<lambda>s. (sm_id s, Temporary)) ss)]
                   \<and> mo_stacks st' = make_inactive (Solana k) (mo_stacks st)))"
proof (cases "map_of (co_owners (mo_stacks st)) (Solana k)")
  case None
  with assms show ?thesis
    by (simp add: on_solana_escrow_updated_def Let_def owner_entry_occupied_def monitor_inv_def)
next
  case (Some d)
  have wf: "coll_wf (mo_stacks st)" using assms by (simp add: monitor_inv_def)
  obtain ss where ss: "entry_stacks (Solana k) (mo_stacks st) = Some ss"
    "set ss = {s. \<exists>i. known (mo_stacks st) i = Some (s, od_state d) \<and> sm_owner s = Solana k}"
    using entry_stacks_known [OF wf Some] by blast
  have stacks: "co_stacks (make_active w c) = co_stacks c" "co_stacks (make_inactive w c) = co_stacks c" for w c
    by (simp_all add: make_active_def make_inactive_def split: option.splits)
  show ?thesis
    using assms Some ss make_active_wf [OF wf] make_inactive_wf [OF wf]
    by (auto simp: on_solana_escrow_updated_def Let_def owner_entry_occupied_def entry_owner_state_def
        owner_state_of_def monitor_inv_def stacks intro!: exI [of _ ss])
qed

lemma active_stack_cases:
  assumes "monitor_inv own st" and own: "sm_owner s = own (sm_id s)"
  shows "(\<exists>e. on_active_stack env s st = Some (Inl e))
     \<or> (\<exists>st' ns. on_active_stack env s st = Some (Inr (st', ns)) \<and> monitor_inv own st'
        \<and> (known (mo_stacks st') = known (mo_stacks st) \<and> ns = []
           \<or> (\<exists>x. known (mo_stacks st') = (known (mo_stacks st))(sm_id s \<mapsto> (s, x))) \<and> ns = [NStacksAvailable [s]]))"
proof (cases "map_of (co_owners (mo_stacks st)) (sm_owner s)")
  case (Some d)
  have wf: "coll_wf (mo_stacks st)" using assms(1) by (simp add: monitor_inv_def)
  have same: "same_owner s (mo_stacks st)" by (rule monitor_inv_same_owner [OF assms])
  obtain b c where add: "add_stack (sm_owner s) s (mo_stacks st) = Some (b, c)"
    "known c = (if b then (known (mo_stacks st))(sm_id s \<mapsto> (s, od_state d)) else known (mo_stacks st))"
    using add_stack_known [OF wf same Some refl] by blast
  have "coll_wf c" by (rule add_stack_wf [OF wf same add(1)])
  moreover have "co_stacks c = co_stacks (mo_stacks st) \<or> co_stacks c = AList.update (sm_id s) s (co_stacks (mo_stacks st))"
    using add(1) Some by (auto simp: add_stack_def Let_def split: option.splits if_splits)
  ultimately have "monitor_inv own (st\<lparr>mo_stacks := c\<rparr>)"
    using assms by (auto simp: monitor_inv_def hm_simps split: if_splits)
  with add Some show ?thesis
    by (auto simp: on_active_stack_def owner_entry_occupied_def)
next
  case None
  have wf: "coll_wf (mo_stacks st)" using assms(1) by (simp add: monitor_inv_def)
  have same: "same_owner s (mo_stacks st)" by (rule monitor_inv_same_owner [OF assms])
  have new: "map_of (co_stacks (mo_stacks st)) (sm_id s) = None"
  proof (cases "map_of (co_stacks (mo_stacks st)) (sm_id s)")
    case (Some t)
    with same wf None show ?thesis unfolding same_owner_def coll_wf_def linked_def by fastforce
  qed
  show ?thesis
  proof (cases "fetch_owner_escrow_balance env (sm_owner s) (mo_provider_pda st)")
    case (Inl e)
    with None show ?thesis by (simp add: on_active_stack_def owner_entry_occupied_def)
  next
    case (Inr b)
    let ?x = "owner_state_of (mo_min_escrow_balance st) (case_option 0 id b)"
    obtain c where c: "insert_first (sm_owner s) ?x s (mo_stacks st) = Some c"
      "known c = (known (mo_stacks st))(sm_id s \<mapsto> (s, ?x))"
      using insert_first_known [OF wf None new] by blast
    have "coll_wf c" by (rule insert_first_wf [OF wf None c(1) same])
    moreover have "co_stacks c = AList.update (sm_id s) s (co_stacks (mo_stacks st))"
      using c(1) new by (auto simp: insert_first_def add_stack_def Let_def hm_simps split: option.splits)
    ultimately have "monitor_inv own (st\<lparr>mo_stacks := c\<rparr>)"
      using assms by (auto simp: monitor_inv_def hm_simps split: if_splits)
    with c None Inr show ?thesis
      by (auto simp: on_active_stack_def owner_entry_occupied_def)
  qed
qed

lemma deleted_stack_cases:
  assumes "monitor_inv own st"
  shows "\<exists>st' ns. on_deleted_stack i w st = Some (Inr (st', ns)) \<and> monitor_inv own st'
     \<and> (known (mo_stacks st') = known (mo_stacks st) \<and> ns = []
        \<or> known (mo_stacks st') = (known (mo_stacks st))(i := None)
          \<and> (ns = [] \<or> ns = [NStacksRemoved [(i, Permanent)]]))"
proof (cases "map_of (co_owners (mo_stacks st)) w")
  case None
  with assms show ?thesis by (simp add: on_deleted_stack_def owner_entry_occupied_def)
next
  case (Some d)
  have wf: "coll_wf (mo_stacks st)" using assms by (simp add: monitor_inv_def)
  obtain b c where rem: "remove_stack w i (mo_stacks st) = Some (b, c)"
    "known c = (if i \<in> set (od_stacks d) then (known (mo_stacks st))(i := None) else known (mo_stacks st))"
    "b = (set (od_stacks d) = {i})"
    using remove_stack_known [OF wf Some] by blast
  have "coll_wf c" by (rule remove_stack_wf [OF wf rem(1)])
  moreover have "co_stacks c = co_stacks (mo_stacks st) \<or> co_stacks c = AList.delete i (co_stacks (mo_stacks st))"
    using rem(1) Some by (auto simp: remove_stack_def Let_def split: if_splits)
  ultimately have "monitor_inv own (st\<lparr>mo_stacks := c\<rparr>)"
    using assms by (auto simp: monitor_inv_def hm_simps split: if_splits)
  with rem Some show ?thesis
    by (auto simp: on_deleted_stack_def owner_entry_occupied_def)
qed

section \<open>Steps and runs\<close>

lemma get_active_known:
  assumes "monitor_inv own st"
  shows "get_active i st = Some (case known (mo_stacks st) i of Some (s, OwnerActive) \<Rightarrow> Some s | _ \<Rightarrow> None)"
  using entry_known [of "mo_stacks st" i] assms
  by (auto simp: get_active_def monitor_inv_def split: option.splits OwnerState.splits)

lemma covered_add:
  "covered st D \<Longrightarrow> known (mo_stacks st') = (known (mo_stacks st))(sm_id s \<mapsto> (s, x)) \<Longrightarrow>
     covered st' (announce (NStacksAvailable [s]) D)"
  by (auto simp: covered_def)

lemma covered_remove:
  "covered st D \<Longrightarrow> known (mo_stacks st') = (known (mo_stacks st))(i := None) \<Longrightarrow>
     covered st' (announce (NStacksRemoved [(i, m)]) D) \<and> covered st' D"
  by (auto simp: covered_def)

lemma escrow_covered:
  assumes inv: "monitor_inv own st" and cov: "covered st D"
    and upd: "on_solana_escrow_updated k b st = Some (st', ns)"
  shows "covered st' (fold announce ns D)"
proof -
  note cases = escrow_update_cases [OF inv, of k b, unfolded upd]
  have wf: "coll_wf (mo_stacks st)" using inv by (simp add: monitor_inv_def)
  show ?thesis
  proof (cases "map_of (co_owners (mo_stacks st)) (Solana k)")
    case None
    with cases cov show ?thesis by (simp add: covered_def)
  next
    case (Some d)
    show ?thesis
    proof (cases "od_state d = owner_state_of (mo_min_escrow_balance st) b")
      case True
      with cases Some cov show ?thesis by (simp add: covered_def)
    next
      case False
      with cases Some obtain ss where ss:
        "set ss = {s. \<exists>i. known (mo_stacks st) i = Some (s, od_state d) \<and> sm_owner s = Solana k}"
        and eff: "if mo_min_escrow_balance st \<le> b
           then ns = [NStacksAvailable ss] \<and> mo_stacks st' = make_active (Solana k) (mo_stacks st)
           else ns = [NStacksRemoved (map (\<lambda>s. (sm_id s, Temporary)) ss)]
             \<and> mo_stacks st' = make_inactive (Solana k) (mo_stacks st)" by auto
      have id: "known (mo_stacks st) i = Some (s, x) \<Longrightarrow> sm_id s = i" for i s x
        by (rule known_id [OF wf])
      have st_w: "x = od_state d" if "known (mo_stacks st) i = Some (s, x)" "sm_owner s = Solana k" for i s x
        using that Some by (auto simp: known_Some [OF wf])
      have mine: "s \<in> set ss \<longleftrightarrow> (\<exists>x. known (mo_stacks st) (sm_id s) = Some (s, x)) \<and> sm_owner s = Solana k" for s
        unfolding ss using id st_w by blast
      have inj: "t = s" if "t \<in> set ss" "sm_id t = i" "known (mo_stacks st) i = Some (s, x)" for t s i x
        using that by (auto simp: mine)
      show ?thesis
      proof (cases "mo_min_escrow_balance st \<le> b")
        case True
        have "fold (\<lambda>s m. m(sm_id s \<mapsto> s)) ss D i = Some s"
          if "known (make_active (Solana k) (mo_stacks st)) i = Some (s, OwnerActive)" for i s
        proof -
          from that obtain x where x: "known (mo_stacks st) i = Some (s, x)"
            "x = OwnerActive \<or> sm_owner s = Solana k"
            by (auto simp: make_active_known split: if_splits)
          show ?thesis
          proof (cases "sm_owner s = Solana k")
            case True
            with x id mine have "s \<in> set ss" by blast
            show ?thesis
            proof (rule fold_available_in)
              show "t = s" if "t \<in> set ss" "sm_id t = i" for t by (rule inj [OF that x(1)])
            qed (rule \<open>s \<in> set ss\<close>, rule id [OF x(1)])
          next
            case False
            with x cov have "D i = Some s" by (auto simp: covered_def)
            moreover have "i \<notin> sm_id ` set ss" using inj [OF _ _ x(1)] mine False by blast
            ultimately show ?thesis by (simp add: fold_available_other)
          qed
        qed
        with eff True show ?thesis by (simp add: covered_def)
      next
        case False
        have "i \<notin> sm_id ` set ss \<and> D i = Some s"
          if "known (make_inactive (Solana k) (mo_stacks st)) i = Some (s, OwnerActive)" for i s
        proof -
          from that have x: "known (mo_stacks st) i = Some (s, OwnerActive)" "sm_owner s \<noteq> Solana k"
            by (auto simp: make_inactive_known split: if_splits)
          then have "i \<notin> sm_id ` set ss" using inj [OF _ _ x(1)] mine by blast
          with x cov show ?thesis by (simp add: covered_def)
        qed
        with eff False show ?thesis by (auto simp: covered_def image_image)
      qed
    qed
  qed
qed

lemma monitor_step_ok:
  assumes inv: "monitor_inv own st" and cov: "covered st D" and ev: "event_ok env own e"
  shows "\<exists>st' out. monitor_step env e st = Some (st', out) \<and> monitor_inv own st'
     \<and> covered st' (fold announce (notifications out) D)"
proof (cases e)
  case (EvStack a)
  show ?thesis
  proof (cases "read_solana_rpc_keyed_account env a")
    case (Inl x)
    with EvStack inv cov show ?thesis by (simp add: on_new_stack_received_def notifications_def)
  next
    case (Inr r)
    show ?thesis
    proof (cases r)
      case (SActive s)
      with EvStack Inr ev have "sm_owner s = own (sm_id s)" by (simp add: event_ok_def)
      from active_stack_cases [OF inv this, of env]
      consider x where "on_active_stack env s st = Some (Inl x)"
        | st' where "on_active_stack env s st = Some (Inr (st', []))" "monitor_inv own st'"
            "known (mo_stacks st') = known (mo_stacks st)"
        | st' x where "on_active_stack env s st = Some (Inr (st', [NStacksAvailable [s]]))" "monitor_inv own st'"
            "known (mo_stacks st') = (known (mo_stacks st))(sm_id s \<mapsto> (s, x))"
        by blast
      then show ?thesis
      proof cases
        case 1
        with EvStack Inr SActive inv cov show ?thesis by (simp add: on_new_stack_received_def notifications_def)
      next
        case 2
        with EvStack Inr SActive cov show ?thesis
          by (simp add: on_new_stack_received_def notifications_def covered_def)
      next
        case 3
        with covered_add [OF cov 3(3)] EvStack Inr SActive show ?thesis
          by (simp add: on_new_stack_received_def notifications_def del: announce.simps)
      qed
    next
      case (SDeleted i w)
      from deleted_stack_cases [OF inv, of i w] obtain st' ns where
        r: "on_deleted_stack i w st = Some (Inr (st', ns))" "monitor_inv own st'"
        and k: "known (mo_stacks st') = known (mo_stacks st) \<and> ns = []
          \<or> known (mo_stacks st') = (known (mo_stacks st))(i := None)
            \<and> (ns = [] \<or> ns = [NStacksRemoved [(i, Permanent)]])" by blast
      have "covered st' (fold announce ns D)" using k cov by (auto simp: covered_def split: if_splits)
      with r EvStack Inr SDeleted show ?thesis by (simp add: on_new_stack_received_def)
    qed
  qed
next
  case (EvEscrow k b)
  from escrow_update_cases [OF inv, of k b] obtain st' ns where
    "on_solana_escrow_updated k b st = Some (st', ns)" "monitor_inv own st'" by blast
  with EvEscrow escrow_covered [OF inv cov this(1)] show ?thesis by simp
next
  case (EvRequestSigner a)
  have "announce n D = D" if "on_request_signer_received env a = Inr n" for n
    using that by (auto simp: on_request_signer_received_def res_simps)
  with EvRequestSigner inv cov show ?thesis
    by (cases "on_request_signer_received env a") (simp_all add: notifications_def)
next
  case EvReconnect
  with inv cov show ?thesis
    by (simp add: reconnect_solana_subscriber_def monitor_inv_def covered_def notifications_def)
qed (use inv cov in \<open>simp_all add: get_active_known notifications_def\<close>)

lemma monitor_run_ok:
  assumes "monitor_inv own st" and "covered st D" and "\<And>e. e \<in> set es \<Longrightarrow> event_ok env own e"
  shows "\<exists>st' out. monitor_run env es st = Some (st', out) \<and> monitor_inv own st'
     \<and> covered st' (fold announce (notifications out) D)"
  using assms
proof (induction es arbitrary: st D)
  case Nil
  then show ?case by (simp add: notifications_def)
next
  case (Cons e es)
  then have "event_ok env own e" by simp
  from monitor_step_ok [OF Cons.prems(1,2) this] obtain st1 out1 where
    s: "monitor_step env e st = Some (st1, out1)" "monitor_inv own st1"
      "covered st1 (fold announce (notifications out1) D)" by blast
  from Cons.IH [OF s(2,3)] Cons.prems(3) obtain st2 out2 where
    "monitor_run env es st1 = Some (st2, out2)" "monitor_inv own st2"
    "covered st2 (fold announce (notifications out2) (fold announce (notifications out1) D))" by auto
  with s(1) show ?case by auto
qed

section \<open>Startup\<close>

lemma group_by_key: "(k, g) \<in> set (group_by f xs) \<Longrightarrow> x \<in> set g \<Longrightarrow> f x = k"
  by (induction f xs rule: group_by.induct) (auto dest: set_takeWhileD)

lemma group_by_concat: "concat (map snd (group_by f xs)) = xs"
  by (induction f xs rule: group_by.induct) simp_all

lemma group_by_distinct:
  assumes "(k, g) \<in> set (group_by f xs)" and "distinct (map h xs)"
  shows "distinct (map h g)" and "set g \<subseteq> set xs"
proof -
  from assms(1) obtain p q where pq: "group_by f xs = p @ (k, g) # q" by (auto simp: in_set_conv_decomp)
  have "xs = concat (map snd p) @ g @ concat (map snd q)"
    using group_by_concat [of f xs] by (simp add: pq)
  with assms(2) show "distinct (map h g)" "set g \<subseteq> set xs" by auto
qed

lemma groups_ok_own:
  assumes "distinct (map fst kn)"
    and "\<And>w st ss. (w, st, ss) \<in> set kn \<Longrightarrow> distinct (map sm_id ss)"
    and "\<And>w st ss s. (w, st, ss) \<in> set kn \<Longrightarrow> s \<in> set ss \<Longrightarrow> sm_owner s = w \<and> own (sm_id s) = w"
  shows "groups_ok kn"
proof -
  have "distinct (map sm_id (concat (map (\<lambda>(w, st, ss). ss) kn)))"
    using assms
  proof (induction kn)
    case (Cons g kn)
    obtain w st ss where g: "g = (w, st, ss)" by (cases g)
    have "sm_id s \<noteq> sm_id t" if "s \<in> set ss" "(w', st', ss') \<in> set kn" "t \<in> set ss'" for s t w' st' ss'
    proof -
      have "own (sm_id s) = w" using Cons.prems(3) [of w st ss s] that(1) g by simp
      moreover have "own (sm_id t) = w'" using Cons.prems(3) [of w' st' ss' t] that(2,3) by simp
      moreover have "w \<noteq> w'" using Cons.prems(1) g that(2) by force
      ultimately show ?thesis by auto
    qed
    moreover have "distinct (map sm_id (concat (map (\<lambda>(w, st, ss). ss) kn)))"
    proof (rule Cons.IH)
      show "distinct (map fst kn)" using Cons.prems(1) by simp
      show "distinct (map sm_id ss)" if "(w, st, ss) \<in> set kn" for w st ss
        using Cons.prems(2) that by (meson list.set_intros(2))
      show "sm_owner s = w \<and> own (sm_id s) = w" if "(w, st, ss) \<in> set kn" "s \<in> set ss" for w st ss s
        using Cons.prems(3) that by (meson list.set_intros(2))
    qed
    moreover have "distinct (map sm_id ss)" using Cons.prems(2) [of w st ss] g by simp
    ultimately show ?case by (auto simp: g)
  qed simp
  with assms(1,3) show ?thesis by (fastforce simp: groups_ok_def)
qed

lemma owner_states_loop_inv:
  assumes "owner_states_loop env pda mb groups res = Inr res'"
    and "distinct (map fst res)" and "\<And>p. p \<in> set res \<Longrightarrow> P (fst p) (snd (snd (snd p)))"
    and "\<And>w ss. (w, ss) \<in> set groups \<Longrightarrow> P w ss"
  shows "distinct (map fst res') \<and> (\<forall>p \<in> set res'. P (fst p) (snd (snd (snd p))))"
  using assms
proof (induction env pda mb groups res rule: owner_states_loop.induct)
  case (2 env pda mb owner stacks groups res)
  from "2.prems"(1) obtain b where f: "fetch_owner_escrow_balance env owner pda = Inr b"
    and l: "owner_states_loop env pda mb groups (AList.update owner
        (owner_state_of mb (case_option 0 id b), case_option 0 id b, stacks) res) = Inr res'"
    by (auto simp: res_simps Let_def)
  show ?case
  proof (rule "2.IH" [OF refl l])
    fix p assume "p \<in> set (AList.update owner (owner_state_of mb (case_option 0 id b), case_option 0 id b, stacks) res)"
    then have "p \<in> set res \<or> p = (owner, owner_state_of mb (case_option 0 id b), case_option 0 id b, stacks)"
      using update_values [of "fst p" "snd p"] by (metis prod.collapse)
    then show "P (fst p) (snd (snd (snd p)))"
    proof
      assume "p \<in> set res"
      then show ?thesis by (rule "2.prems"(3))
    qed (simp add: "2.prems"(4))
  qed (use "2.prems" in auto)
qed auto

lemma all_by_owners_ok:
  assumes "coll_wf c" and "\<And>w. w \<in> set ws \<Longrightarrow> map_of (co_owners c) w \<noteq> None"
  shows "\<exists>ss. all_by_owners ws c = Some ss
     \<and> set ss = {s. \<exists>w d i. w \<in> set ws \<and> map_of (co_owners c) w = Some d \<and> i \<in> set (od_stacks d)
          \<and> map_of (co_stacks c) i = Some s}"
  using assms(2)
proof (induction ws)
  case Nil
  show ?case by (simp add: all_by_owners_def)
next
  case (Cons w ws)
  then obtain ss where ss: "all_by_owners ws c = Some ss"
      "set ss = {s. \<exists>w d i. w \<in> set ws \<and> map_of (co_owners c) w = Some d \<and> i \<in> set (od_stacks d)
          \<and> map_of (co_stacks c) i = Some s}"
    by auto
  obtain d where d: "map_of (co_owners c) w = Some d" using Cons.prems [of w] by auto
  have ok: "map_of (co_stacks c) i \<noteq> None" if "i \<in> set (od_stacks d)" for i
    using assms(1) d that unfolding coll_wf_def linked_def by blast
  then have l: "lookup_all (co_stacks c) (od_stacks d) = Some (map (\<lambda>i. the (map_of (co_stacks c) i)) (od_stacks d))"
    by (rule lookup_all_ok)
  from ss(1) obtain sss where sss: "those (map (\<lambda>owner. Option.bind (map_of (co_owners c) owner)
      (\<lambda>d. lookup_all (co_stacks c) (od_stacks d))) ws) = Some sss" "ss = concat sss"
    by (auto simp: all_by_owners_def)
  have "all_by_owners (w # ws) c = Some (map (\<lambda>i. the (map_of (co_stacks c) i)) (od_stacks d) @ ss)"
    by (simp add: all_by_owners_def d l sss)
  moreover have "(\<lambda>i. the (map_of (co_stacks c) i)) ` set (od_stacks d)
      = {s. \<exists>i. i \<in> set (od_stacks d) \<and> map_of (co_stacks c) i = Some s}" using ok by force
  ultimately show ?case using ss(2) d by auto
qed

text \<open>Right after construction the index of active owners is exact.\<close>

lemma from_known_loop_index:
  assumes "from_known_loop kn c = Some c'" and "distinct (map fst kn)"
    and "\<And>w. w \<in> set (co_active_owners c) \<Longrightarrow> map_of (co_owners c) w \<noteq> None"
  shows "w \<in> set (co_active_owners c') \<Longrightarrow> map_of (co_owners c') w \<noteq> None"
  using assms
proof (induction kn c arbitrary: c' rule: from_known_loop.induct)
  case (2 owner st stacks rest c)
  from "2.prems"(2) obtain m ids where m: "from_known_stacks stacks (co_stacks c) [] = Some (m, ids)"
    and l: "from_known_loop rest (index_insert st owner (c\<lparr>co_stacks := m,
      co_owners := AList.update owner \<lparr>od_state = st, od_stacks = ids\<rparr> (co_owners c)\<rparr>)) = Some c'"
    by (auto split: option.splits)
  show ?case
    by (rule "2.IH" [OF m refl "2.prems"(1) l])
      (use "2.prems"(3,4) in \<open>cases st; auto simp: hm_simps\<close>)+
qed simp

lemma all_active_covers:
  assumes wf: "coll_wf c" and act: "all_active c = Some ss"
    and all: "set ss = {s. \<exists>w d i. w \<in> set (co_active_owners c) \<and> map_of (co_owners c) w = Some d
       \<and> i \<in> set (od_stacks d) \<and> map_of (co_stacks c) i = Some s}"
    and k: "known c i = Some (s, OwnerActive)"
  shows "fold (\<lambda>s m. m(sm_id s \<mapsto> s)) ss D i = Some s"
proof (rule fold_available_in)
  from k obtain d where d: "map_of (co_stacks c) i = Some s" "map_of (co_owners c) (sm_owner s) = Some d"
    "od_state d = OwnerActive" by (auto simp: known_Some [OF wf])
  show id: "sm_id s = i" by (rule known_id [OF wf k])
  have "sm_owner s \<in> set (co_active_owners c)"
    using wf d unfolding coll_wf_def indexed_def by force
  moreover have "i \<in> set (od_stacks d)" by (rule coll_listed [OF wf d(1,2)])
  ultimately show "s \<in> set ss" using d all by blast
  show "t = s" if "t \<in> set ss" "sm_id t = i" for t
  proof -
    from that(1) all obtain j where j: "map_of (co_stacks c) j = Some t" by blast
    with wf have "sm_id t = j" unfolding coll_wf_def linked_def by blast
    with that(2) j d(1) show ?thesis by simp
  qed
qed

end
