(* ===== verification/Monitor_Guarantees.thy ===== *)
theory Monitor_Guarantees
  imports Monitor_Props
begin

text \<open>
  The properties of the blockchain monitor, from its start through any sequence of messages
  and chain updates, with the deviations from what one would expect stated as theorems.
\<close>

definition account_owned :: "monitor_env \<Rightarrow> (StackID \<Rightarrow> StackOwner) \<Rightarrow> pubkey \<times> bytes \<Rightarrow> bool" where
  "account_owned env own acc \<longleftrightarrow>
     (case read_solana_stack_account env acc of Inr (SActive s) \<Rightarrow> sm_owner s = own (sm_id s) | _ \<Rightarrow> True)"

lemma read_existing_stack_Inr:
  "read_existing_stack env acc = Inr s \<longleftrightarrow> read_solana_stack_account env acc = Inr (SActive s)"
proof (cases "read_solana_stack_account env acc")
  case (Inr r)
  then show ?thesis by (cases r) (simp_all add: read_existing_stack_def)
qed (simp add: read_existing_stack_def)

lemma read_solana_stack_account_id:
  assumes "read_solana_stack_account env (key, data) = Inr (SActive s)"
  shows "sm_id s = SolanaPublicKey key"
proof -
  from assms obtain a where a: "me_stack_account env data = Some a"
    by (auto simp: read_solana_stack_account_def res_simps)
  with assms show ?thesis
    by (cases "sk_state a") (auto simp: read_solana_stack_account_def res_simps sm_id_def)
qed

lemma read_existing_stacks:
  assumes "collect_res (read_existing_stack env) accs = Inr ss"
  shows "map sm_id ss = map (\<lambda>a. SolanaPublicKey (fst a)) accs"
    and "(\<And>a. a \<in> set accs \<Longrightarrow> account_owned env own a) \<Longrightarrow> (\<And>s. s \<in> set ss \<Longrightarrow> sm_owner s = own (sm_id s))"
proof -
  have all2: "list_all2 (\<lambda>a s. read_solana_stack_account env a = Inr (SActive s)) accs ss"
    using assms by (simp add: collect_res_Inr_nth read_existing_stack_Inr)
  then show "map sm_id ss = map (\<lambda>a. SolanaPublicKey (fst a)) accs"
    by (induction rule: list_all2_induct) (auto intro: read_solana_stack_account_id)
  show "sm_owner s = own (sm_id s)" if own: "\<And>a. a \<in> set accs \<Longrightarrow> account_owned env own a" and s: "s \<in> set ss" for s
  proof -
    from all2 s have "\<exists>a \<in> set accs. read_solana_stack_account env a = Inr (SActive s)"
      by (induction rule: list_all2_induct) auto
    then obtain a where a: "a \<in> set accs" "read_solana_stack_account env a = Inr (SActive s)" by blast
    with own [OF a(1)] show ?thesis by (simp add: account_owned_def)
  qed
qed

lemma from_known_stacks_values:
  "from_known_stacks ss m ids = Some (m', ids') \<Longrightarrow> map_of m' i = Some s \<Longrightarrow>
     map_of m i = Some s \<or> s \<in> set ss \<and> sm_id s = i"
  by (induction ss m ids rule: from_known_stacks.induct) (auto simp: hm_simps split: if_splits)

lemma from_known_loop_values:
  "from_known_loop kn c = Some c' \<Longrightarrow> map_of (co_stacks c') i = Some s \<Longrightarrow>
     map_of (co_stacks c) i = Some s \<or> (\<exists>(w, st, ss) \<in> set kn. s \<in> set ss \<and> sm_id s = i)"
proof (induction kn c rule: from_known_loop.induct)
  case (2 owner st stacks rest c)
  from "2.prems"(1) obtain m ids where m: "from_known_stacks stacks (co_stacks c) [] = Some (m, ids)"
    and l: "from_known_loop rest (index_insert st owner (c\<lparr>co_stacks := m,
      co_owners := AList.update owner \<lparr>od_state = st, od_stacks = ids\<rparr> (co_owners c)\<rparr>)) = Some c'"
    by (auto split: option.splits)
  from "2.IH" [OF m refl l "2.prems"(2)] from_known_stacks_values [OF m, of i s] show ?case by auto
qed simp

lemma monitor_start_ok:
  assumes "\<And>a. a \<in> set accs \<Longrightarrow> account_owned env own a" and "distinct (map fst accs)"
  shows "\<exists>r. monitor_start env pk rn mb accs sigs = Some r
     \<and> (\<forall>st ns. r = Inr (st, ns) \<longrightarrow> monitor_inv own st
          \<and> (\<exists>ns'. monitor_announce st = Some ns' \<and> covered st (fold announce ns' (\<lambda>_. None))))"
proof -
  let ?pda = "fst (me_find_pda env [as_bytes ''provider'', pk])"
  consider e where "collect_res (read_existing_stack env) accs = Inl e"
    | ss e where "collect_res (read_existing_stack env) accs = Inr ss" "collect_res (read_existing_signer env) sigs = Inl e"
    | ss sg e where "collect_res (read_existing_stack env) accs = Inr ss"
        "collect_res (read_existing_signer env) sigs = Inr sg" "get_owner_states env ?pda ss mb = Inl e"
    | ss sg os where "collect_res (read_existing_stack env) accs = Inr ss"
        "collect_res (read_existing_signer env) sigs = Inr sg" "get_owner_states env ?pda ss mb = Inr os"
    by (metis sum.exhaust)
  then show ?thesis
  proof cases
    case 4
    let ?kn = "map (\<lambda>(k, st, b, ss). (k, st, ss)) os"
    have ids: "distinct (map sm_id ss)"
      using read_existing_stacks(1) [OF 4(1)] assms(2) by (simp add: distinct_map inj_on_def)
    have own: "sm_owner s = own (sm_id s)" if "s \<in> set ss" for s
      using read_existing_stacks(2) [OF 4(1)] assms(1) that by blast
    have os: "distinct (map fst os) \<and> (\<forall>p \<in> set os. distinct (map sm_id (snd (snd (snd p))))
        \<and> (\<forall>s \<in> set (snd (snd (snd p))). sm_owner s = fst p \<and> own (sm_id s) = fst p))"
    proof (rule owner_states_loop_inv [OF 4(3) [unfolded get_owner_states_def], where
          P = "\<lambda>w ts. distinct (map sm_id ts) \<and> (\<forall>s \<in> set ts. sm_owner s = w \<and> own (sm_id s) = w)"])
      fix w ts assume g: "(w, ts) \<in> set (group_by sm_owner ss)"
      have "sm_owner s = w \<and> own (sm_id s) = w" if "s \<in> set ts" for s
        using group_by_key [OF g that] group_by_distinct(2) [OF g ids] own [of s] that by auto
      then show "distinct (map sm_id ts) \<and> (\<forall>s \<in> set ts. sm_owner s = w \<and> own (sm_id s) = w)"
        using group_by_distinct(1) [OF g ids] by blast
    qed simp_all
    have "groups_ok ?kn"
    proof (rule groups_ok_own [where own = own])
      show "distinct (map fst ?kn)" using os by (simp add: split_beta comp_def)
    qed (use os in force)+
    then obtain c where c: "from_known ?kn = Some c" "coll_wf c" using from_known_ok by blast
    let ?st = "\<lparr>mo_stacks = c, mo_region_pda = fst (me_find_pda env [as_bytes ''region'', pk, le_bytes 4 rn]),
      mo_provider_pda = ?pda, mo_min_escrow_balance = mb,
      mo_escrow_balances = hm_from_pairs (map (\<lambda>(k, st, b, ss). (owner_to_inner k, b)) os),
      mo_escrow_subscriptions = map owner_to_inner (collection_owners c)\<rparr>"
    have start: "monitor_start env pk rn mb accs sigs = Some (Inr (?st, [NRequestSignersAvailable sg]))"
      by (simp add: monitor_start_def Let_def 4 c(1))
    have "sm_owner s = own i" if "map_of (co_stacks c) i = Some s" for i s
      using from_known_loop_values [OF c(1) [unfolded from_known_def] that] os
      by (fastforce simp: collection_new_def)
    then have inv: "monitor_inv own ?st" using c(2) by (simp add: monitor_inv_def)
    have "map_of (co_owners c) w \<noteq> None" if "w \<in> set (co_active_owners c)" for w
      by (rule from_known_loop_index [OF c(1) [unfolded from_known_def] _ _ that])
        (use os in \<open>simp_all add: collection_new_def split_beta comp_def\<close>)
    from all_by_owners_ok [OF c(2) this] obtain acts where acts: "all_active c = Some acts"
      "set acts = {s. \<exists>w d i. w \<in> set (co_active_owners c) \<and> map_of (co_owners c) w = Some d
         \<and> i \<in> set (od_stacks d) \<and> map_of (co_stacks c) i = Some s}"
      unfolding all_active_def by blast
    note cov = all_active_covers [OF c(2) acts]
    have "covered ?st (fold announce (if acts = [] then [] else [NStacksAvailable acts]) (\<lambda>_. None))"
      using cov [where D = "\<lambda>_. None"] by (cases "acts = []") (auto simp: covered_def)
    with start inv acts(1) show ?thesis by (simp add: monitor_announce_def)
  qed (auto simp: monitor_start_def Let_def)
qed

section \<open>A concrete chain for witnesses\<close>

text \<open>Accounts are three bytes: whether the stack is active, its user and its revision.\<close>

definition demo_env :: monitor_env where
  "demo_env =
     \<lparr>me_find_pda = (\<lambda>seeds. (concat seeds, 255)),
      me_token_account_balance = (\<lambda>k. if last (butlast k) = 7 then TokenAmount ''100'' else AccountNotFound),
      me_parse_pubkey = (\<lambda>s. Some (as_bytes s)),
      me_decode = Some,
      me_stack_account = (\<lambda>d. case d of
         [a, u, r] \<Rightarrow> Some \<lparr>sk_user = [u], sk_region = [3], sk_seed = 0, sk_bump = 0,
           sk_state = (if a = 1 then StackActive (ucast r) ''s'' [] else StackDeleted)\<rparr>
       | _ \<Rightarrow> None),
      me_request_signer = (\<lambda>_. None),
      me_pb_parse = (\<lambda>_. Some (stack_to_proto sample_stack))\<rparr>"

lemma demo_validate: "validate (norm_stack sample_stack) = Inr (ValidatedStack (norm_stack sample_stack))"
proof -
  have "names_unique sample_stack \<and> endpoints_resolve sample_stack"
    by (simp add: sample_stack_def sample_gateway_def sample_function_def names_unique_def
      endpoints_resolve_def stack_functions_def gateways_def key_value_tables_def storages_def)
  then show ?thesis
    using validate_correct [OF stack_wf_norm [OF sample_stack_wf]] norm_stack_valid [of sample_stack] by simp
qed

definition demo_known :: "bytes \<Rightarrow> u8 \<Rightarrow> u8 \<Rightarrow> StackWithMetadata" where
  "demo_known key u r = \<lparr>sm_stack = ValidatedStack (norm_stack sample_stack), sm_name = ''s'', sm_revision = ucast r,
     sm_metadata = SolanaMetadata \<lparr>ssm_account_id = key, ssm_owner = [u]\<rparr>\<rparr>"

lemma demo_known_simps [simp]:
  "sm_id (demo_known key u r) = SolanaPublicKey key" "sm_owner (demo_known key u r) = Solana [u]"
  by (simp_all add: demo_known_def sm_id_def sm_owner_def)

lemma demo_read_active: "read_solana_stack_account demo_env (key, [1, u, r]) = Inr (SActive (demo_known key u r))"
  by (simp add: read_solana_stack_account_def demo_env_def try_deserialize_proto_def
      stack_conv.dec_enc [OF sample_stack_wf] demo_validate demo_known_def)

section \<open>Properties\<close>



text \<open>
  Escrow decides: after an update of the escrow balance of a known owner the owner is
  active exactly if the balance reaches the region's minimum; when that changes its state, all
  its stacks are announced as available or withdrawn temporarily, and otherwise nothing is
  announced.
\<close>

theorem escrow_update_decides:
  assumes "monitor_inv own st" and "map_of (co_owners (mo_stacks st)) (Solana k) = Some d"
    and "on_solana_escrow_updated k b st = Some (st', ns)"
  shows "(\<forall>i s x. known (mo_stacks st') i = Some (s, x) \<longrightarrow> sm_owner s = Solana k \<longrightarrow>
            (x = OwnerActive \<longleftrightarrow> mo_min_escrow_balance st \<le> b))
     \<and> (if od_state d = owner_state_of (mo_min_escrow_balance st) b then ns = []
        else \<exists>ss. set ss = {s. \<exists>i x. known (mo_stacks st) i = Some (s, x) \<and> sm_owner s = Solana k}
          \<and> ns = (if mo_min_escrow_balance st \<le> b then [NStacksAvailable ss]
                  else [NStacksRemoved (map (\<lambda>s. (sm_id s, Temporary)) ss)]))"
proof -
  have wf: "coll_wf (mo_stacks st)" using assms(1) by (simp add: monitor_inv_def)
  have x: "y = od_state d" if "known (mo_stacks st) i = Some (s, y)" "sm_owner s = Solana k" for i s y
    using that assms(2) by (auto simp: known_Some [OF wf])
  then have mine: "{s. \<exists>i x. known (mo_stacks st) i = Some (s, x) \<and> sm_owner s = Solana k}
      = {s. \<exists>i. known (mo_stacks st) i = Some (s, od_state d) \<and> sm_owner s = Solana k}" by blast
  from escrow_update_cases [OF assms(1), of k b] assms(2,3)
  show ?thesis
    unfolding mine using x
    by (auto simp: owner_state_of_def make_active_known make_inactive_known split: if_splits)
qed

definition demo_monitor :: monitor_state where
  "demo_monitor = \<lparr>mo_stacks = sample_collection, mo_region_pda = [3], mo_provider_pda = [2],
     mo_min_escrow_balance = 50, mo_escrow_balances = [], mo_escrow_subscriptions = [[7]]\<rparr>"

lemma demo_monitor_inv: "monitor_inv (\<lambda>_. Solana [7]) demo_monitor"
  using sample_collection_wf by (simp add: monitor_inv_def demo_monitor_def sample_collection_def)

theorem escrow_update_decides_witness:
  "\<exists>st' ns. on_solana_escrow_updated [7] 10 demo_monitor = Some (st', ns)
     \<and> (\<exists>ss. ns = [NStacksRemoved (map (\<lambda>s. (sm_id s, Temporary)) ss)])"
proof -
  obtain st' ns where u: "on_solana_escrow_updated [7] 10 demo_monitor = Some (st', ns)"
    using escrow_update_cases [OF demo_monitor_inv, of "[7]" 10] by blast
  have d: "map_of (co_owners (mo_stacks demo_monitor)) (Solana [7]) =
      Some \<lparr>od_state = OwnerActive, od_stacks = [SolanaPublicKey [1]]\<rparr>"
    by (simp add: demo_monitor_def sample_collection_def)
  from escrow_update_decides [OF demo_monitor_inv d u] u show ?thesis
    by (auto simp: owner_state_of_def demo_monitor_def)
qed

text \<open>
  A deletion is not announced while its owner has other stacks: the stack disappears from
  the collection but no notification is sent, so it keeps running.
\<close>

theorem deletion_not_announced:
  assumes "monitor_inv own st" and "map_of (co_owners (mo_stacks st)) w = Some d"
    and "i \<in> set (od_stacks d)" and "j \<in> set (od_stacks d)" and "i \<noteq> j"
  shows "\<exists>st'. on_deleted_stack i w st = Some (Inr (st', [])) \<and> known (mo_stacks st') i = None
     \<and> known (mo_stacks st) i \<noteq> None"
proof -
  have wf: "coll_wf (mo_stacks st)" using assms(1) by (simp add: monitor_inv_def)
  obtain b c where r: "remove_stack w i (mo_stacks st) = Some (b, c)"
    "known c = (known (mo_stacks st))(i := None)" "b = (set (od_stacks d) = {i})"
    using remove_stack_known [OF wf assms(2), of i] assms(3) by auto
  have "\<not> b" using r(3) assms(4,5) by auto
  moreover obtain s where "map_of (co_stacks (mo_stacks st)) i = Some s" "sm_owner s = w"
    using wf assms(2,3) unfolding coll_wf_def linked_def by blast
  then have "known (mo_stacks st) i \<noteq> None" using assms(2) by (simp add: known_def)
  ultimately show ?thesis
    using r assms(2) by (simp add: on_deleted_stack_def owner_entry_occupied_def)
qed

definition demo_two :: monitor_state where
  "demo_two = demo_monitor\<lparr>mo_stacks :=
     \<lparr>co_stacks = [(SolanaPublicKey [1], sample_meta [1] [7] 1), (SolanaPublicKey [2], sample_meta [2] [7] 1)],
      co_owners = [(Solana [7], \<lparr>od_state = OwnerActive, od_stacks = [SolanaPublicKey [1], SolanaPublicKey [2]]\<rparr>)],
      co_active_owners = [Solana [7]], co_inactive_owners = []\<rparr>\<rparr>"

theorem deletion_not_announced_witness:
  "\<exists>st'. on_deleted_stack (SolanaPublicKey [1]) (Solana [7]) demo_two = Some (Inr (st', []))
     \<and> known (mo_stacks st') (SolanaPublicKey [1]) = None
     \<and> known (mo_stacks demo_two) (SolanaPublicKey [1]) \<noteq> None"
proof (rule deletion_not_announced [where own = "\<lambda>_. Solana [7]" and j = "SolanaPublicKey [2]"
      and d = "\<lparr>od_state = OwnerActive, od_stacks = [SolanaPublicKey [1], SolanaPublicKey [2]]\<rparr>"])
  show "monitor_inv (\<lambda>_. Solana [7]) demo_two"
    by (auto simp: monitor_inv_def demo_two_def coll_wf_def linked_def indexed_def split: if_splits)
qed (simp_all add: demo_two_def)

text \<open>
  A stack of a new owner is announced as available even when the owner's escrow balance is
  below the minimum and the owner is recorded as inactive.
\<close>

theorem poor_owner_announced:
  assumes "monitor_inv own st" and "sm_owner s = own (sm_id s)"
    and "map_of (co_owners (mo_stacks st)) (sm_owner s) = None"
    and "fetch_owner_escrow_balance env (sm_owner s) (mo_provider_pda st) = Inr b"
    and "case_option 0 id b < mo_min_escrow_balance st"
  shows "\<exists>st'. on_active_stack env s st = Some (Inr (st', [NStacksAvailable [s]]))
     \<and> known (mo_stacks st') (sm_id s) = Some (s, OwnerInactive)"
proof -
  have wf: "coll_wf (mo_stacks st)" using assms(1) by (simp add: monitor_inv_def)
  have "map_of (co_stacks (mo_stacks st)) (sm_id s) = None"
  proof (cases "map_of (co_stacks (mo_stacks st)) (sm_id s)")
    case (Some t)
    then have "sm_owner t = sm_owner s" using assms(1,2) by (simp add: monitor_inv_def)
    with Some wf assms(3) show ?thesis unfolding coll_wf_def linked_def by fastforce
  qed
  from insert_first_known [OF wf assms(3) this, of "owner_state_of (mo_min_escrow_balance st) (case_option 0 id b)"]
  show ?thesis
    using assms(3,4,5) by (auto simp: on_active_stack_def owner_entry_occupied_def owner_state_of_def)
qed

theorem poor_owner_announced_witness:
  "\<exists>st'. on_active_stack demo_env (demo_known [4] 8 1) demo_monitor =
       Some (Inr (st', [NStacksAvailable [demo_known [4] 8 1]]))
     \<and> known (mo_stacks st') (SolanaPublicKey [4]) = Some (demo_known [4] 8 1, OwnerInactive)"
proof -
  have inv: "monitor_inv (\<lambda>i. if i = SolanaPublicKey [4] then Solana [8] else Solana [7]) demo_monitor"
    using sample_collection_wf by (simp add: monitor_inv_def demo_monitor_def sample_collection_def)
  have "fetch_owner_escrow_balance demo_env (Solana [8]) [2] = Inr None"
    by (simp add: fetch_owner_escrow_balance_def demo_env_def as_bytes_def butlast_append)
  with poor_owner_announced [OF inv, of "demo_known [4] 8 1" demo_env None] show ?thesis
    by (simp add: demo_monitor_def sample_collection_def)
qed

end
