(* ===== verification/Mu_Effects.thy ===== *)
theory Mu_Effects
  imports Mu_Prelude
begin

text \<open>
  Fallible actions on a world: what an \<open>async fn\<close> of a trait does to the rest of the system.
  An action returns a result and the world it leaves behind, also when it fails, because a
  failing call may have done part of its work. \<open>act_bind\<close> is sequencing with \<open>?\<close>.
\<close>

type_synonym ('w, 'e, 'a) act = "'w \<Rightarrow> ('e + 'a) \<times> 'w"

named_theorems act_simps \<open>unfolding of actions\<close>

definition act_ok :: "'a \<Rightarrow> ('w, 'e, 'a) act" where
  "act_ok x w = (Inr x, w)"

definition act_res :: "'e + 'a \<Rightarrow> ('w, 'e, 'a) act" where
  "act_res r w = (r, w)"

definition act_bind :: "('w, 'e, 'a) act \<Rightarrow> ('a \<Rightarrow> ('w, 'e, 'b) act) \<Rightarrow> ('w, 'e, 'b) act" where
  "act_bind m f w = (case m w of (Inl e, w') \<Rightarrow> (Inl e, w') | (Inr x, w') \<Rightarrow> f x w')"

definition act_map_err :: "('e \<Rightarrow> 'f) \<Rightarrow> ('w, 'e, 'a) act \<Rightarrow> ('w, 'f, 'a) act" where
  "act_map_err g m w = apfst (map_err g) (m w)"

text \<open>\<open>unwrap_or\<close>: a failure is replaced by a default, the world stays as the call left it.\<close>

definition act_unwrap_or :: "'a \<Rightarrow> ('w, 'e, 'a) act \<Rightarrow> ('w, 'f, 'a) act" where
  "act_unwrap_or d m w = (case m w of (Inl e, w') \<Rightarrow> (Inr d, w') | (Inr x, w') \<Rightarrow> (Inr x, w'))"

text \<open>A loop whose body may fail, collecting the values of the body.\<close>

fun act_collect :: "('a \<Rightarrow> ('w, 'e, 'b) act) \<Rightarrow> 'a list \<Rightarrow> ('w, 'e, 'b list) act" where
  "act_collect f [] = act_ok []"
| "act_collect f (x # xs) = act_bind (f x) (\<lambda>y. act_bind (act_collect f xs) (\<lambda>ys. act_ok (y # ys)))"

definition act_each :: "('a \<Rightarrow> ('w, 'e, unit) act) \<Rightarrow> 'a list \<Rightarrow> ('w, 'e, unit) act" where
  "act_each f xs = act_bind (act_collect f xs) (\<lambda>_. act_ok ())"

text \<open>An action of a part of the world, as an action of the whole.\<close>

definition act_fst :: "('a, 'e, 'r) act \<Rightarrow> ('a \<times> 'b, 'e, 'r) act" where
  "act_fst m w = (case m (fst w) of (r, a) \<Rightarrow> (r, (a, snd w)))"

definition act_snd :: "('b, 'e, 'r) act \<Rightarrow> ('a \<times> 'b, 'e, 'r) act" where
  "act_snd m w = (case m (snd w) of (r, b) \<Rightarrow> (r, (fst w, b)))"

lemma act_fst_eq [act_simps]: "act_fst m w = (r, w') \<longleftrightarrow> (\<exists>a. m (fst w) = (r, a) \<and> w' = (a, snd w))"
  by (auto simp: act_fst_def split: prod.splits)

lemma act_snd_eq [act_simps]: "act_snd m w = (r, w') \<longleftrightarrow> (\<exists>b. m (snd w) = (r, b) \<and> w' = (fst w, b))"
  by (auto simp: act_snd_def split: prod.splits)

lemma act_ok_simp [simp]: "act_ok x w = (Inr x, w)"
  by (simp add: act_ok_def)

lemma act_res_simp [simp]: "act_res r w = (r, w)"
  by (simp add: act_res_def)

lemma act_bind_Inr [act_simps]:
  "act_bind m f w = (Inr y, w'') \<longleftrightarrow> (\<exists>x w'. m w = (Inr x, w') \<and> f x w' = (Inr y, w''))"
  by (auto simp: act_bind_def split: prod.splits sum.splits)

lemma act_bind_Inl [act_simps]:
  "act_bind m f w = (Inl e, w'') \<longleftrightarrow>
     m w = (Inl e, w'') \<or> (\<exists>x w'. m w = (Inr x, w') \<and> f x w' = (Inl e, w''))"
  by (auto simp: act_bind_def split: prod.splits sum.splits)

lemma act_bind_step: "m w = (Inr x, w') \<Longrightarrow> act_bind m f w = f x w'"
  by (simp add: act_bind_def)

lemma act_bind_fail: "m w = (Inl e, w') \<Longrightarrow> act_bind m f w = (Inl e, w')"
  by (simp add: act_bind_def)

lemma fst_eq_Inr: "fst p = Inr x \<longleftrightarrow> (\<exists>w. p = (Inr x, w))"
  by (cases p) simp

lemma act_map_err_Inr [act_simps]: "act_map_err g m w = (Inr y, w') \<longleftrightarrow> m w = (Inr y, w')"
  by (cases "m w") (auto simp: act_map_err_def res_simps)

lemma act_map_err_Inl [act_simps]:
  "act_map_err g m w = (Inl e, w') \<longleftrightarrow> (\<exists>d. m w = (Inl d, w') \<and> e = g d)"
  by (cases "m w") (auto simp: act_map_err_def res_simps)

lemma snd_act_map_err [simp]: "snd (act_map_err g m w) = snd (m w)"
  by (simp add: act_map_err_def)

lemma act_unwrap_or_ok: "m w = (Inr x, w') \<Longrightarrow> act_unwrap_or d m w = (Inr x, w')"
  by (simp add: act_unwrap_or_def)

lemma act_unwrap_or_never_fails: "\<exists>x. fst (act_unwrap_or d m w) = Inr x"
  by (auto simp: act_unwrap_or_def split: prod.splits sum.splits)

lemma act_collect_pure:
  "(\<And>x. x \<in> set xs \<Longrightarrow> f x w = (Inr (g x), w)) \<Longrightarrow> act_collect f xs w = (Inr (map g xs), w)"
  by (induction xs) (simp_all add: act_bind_def)

text \<open>An invariant of the world that every call keeps is kept by the composed action.\<close>

lemma act_bind_keeps:
  assumes "P (snd (m w))" and "\<And>x w'. m w = (Inr x, w') \<Longrightarrow> P w' \<Longrightarrow> P (snd (f x w'))"
  shows "P (snd (act_bind m f w))"
  using assms by (auto simp: act_bind_def split: prod.splits sum.splits)

lemma act_collect_keeps:
  assumes "\<And>x w. x \<in> set xs \<Longrightarrow> P w \<Longrightarrow> P (snd (f x w))" and "P w"
  shows "P (snd (act_collect f xs w))"
  using assms
proof (induction xs arbitrary: w)
  case (Cons x xs)
  have "P (snd (f x w))" using Cons.prems by simp
  moreover have "P (snd (act_collect f xs w'))" if "P w'" for w'
    using Cons.IH [OF _ that] Cons.prems(1) by simp
  ultimately show ?case
    by (simp, intro act_bind_keeps [where P = P]) simp_all
qed simp

end
