(* ===== verification/Service_Registry.thy ===== *)
theory Service_Registry
  imports Mu_Effects Mu_Stack
begin

text \<open>
  The interface that the deployment code relies on, twice: a registry of named services per
  stack. The gateway manager (\<open>src/rust-libs/gateway/src/lib.rs\<close>) and the runtime's table of
  assemblies (\<open>src/rust-libs/runtime/src/providers.rs\<close>) both provide it, as nested hash maps.
  The abstract view of a registry is a partial function from stack and name to the service.
\<close>

section \<open>Nested hash maps\<close>

type_synonym 'd registry = "(StackID, (string, 'd) hash_map) hash_map"

definition reg_view :: "'d registry \<Rightarrow> StackID \<Rightarrow> string \<Rightarrow> 'd option" where
  "reg_view g i n = Option.bind (map_of g i) (\<lambda>m. map_of m n)"

definition reg_wf :: "'d registry \<Rightarrow> bool" where
  "reg_wf g \<longleftrightarrow> (\<forall>i m. map_of g i = Some m \<longrightarrow> distinct (map fst m))"

text \<open>\<open>entry(stack_id).or_insert_with(HashMap::new)\<close> and an insertion into that entry.\<close>

definition reg_entry :: "StackID \<Rightarrow> 'd registry \<Rightarrow> (string, 'd) hash_map" where
  "reg_entry i g = (case map_of g i of None \<Rightarrow> [] | Some m \<Rightarrow> m)"

definition reg_insert :: "StackID \<Rightarrow> string \<Rightarrow> 'd \<Rightarrow> 'd registry \<Rightarrow> 'd registry" where
  "reg_insert i n d g = AList.update i (AList.update n d (reg_entry i g)) g"

definition reg_delete :: "StackID \<Rightarrow> string \<Rightarrow> 'd registry \<Rightarrow> 'd registry" where
  "reg_delete i n g = (case map_of g i of None \<Rightarrow> g | Some m \<Rightarrow> AList.update i (AList.delete n m) g)"

lemma reg_view_entry: "reg_view g i = map_of (reg_entry i g)"
  by (auto simp: reg_view_def reg_entry_def fun_eq_iff split: option.splits)

lemma reg_view_insert [hm_simps]:
  "reg_view (reg_insert i n d g) = (reg_view g)(i := (reg_view g i)(n \<mapsto> d))"
  by (auto simp: reg_view_def reg_insert_def reg_entry_def fun_eq_iff hm_simps split: option.splits)

lemma reg_view_delete [hm_simps]:
  "reg_view (reg_delete i n g) = (reg_view g)(i := (reg_view g i)(n := None))"
  by (auto simp: reg_view_def reg_delete_def fun_eq_iff hm_simps split: option.splits)

lemma reg_view_remove_stack [hm_simps]: "reg_view (AList.delete i g) = (reg_view g)(i := \<lambda>_. None)"
  by (auto simp: reg_view_def fun_eq_iff hm_simps)

lemma reg_wf_insert [simp]: "reg_wf g \<Longrightarrow> reg_wf (reg_insert i n d g)"
  by (auto simp: reg_wf_def reg_insert_def reg_entry_def hm_simps split: option.splits)

lemma reg_wf_delete [simp]: "reg_wf g \<Longrightarrow> reg_wf (reg_delete i n g)"
  by (auto simp: reg_wf_def reg_delete_def hm_simps split: option.splits if_splits)

lemma reg_wf_remove_stack [simp]: "reg_wf g \<Longrightarrow> reg_wf (AList.delete i g)"
  by (auto simp: reg_wf_def hm_simps split: if_splits)

lemma reg_wf_Nil [simp]: "reg_wf []"
  by (simp add: reg_wf_def)

text \<open>Many insertions and deletions.\<close>

definition put_services :: "('d \<Rightarrow> string) \<Rightarrow> ('d \<Rightarrow> 's) \<Rightarrow> 'd list \<Rightarrow> (string \<Rightarrow> 's option) \<Rightarrow> string \<Rightarrow> 's option" where
  "put_services name_of stored ds m = fold (\<lambda>d m. m(name_of d \<mapsto> stored d)) ds m"

lemma reg_insert_fold:
  "reg_view (fold (\<lambda>d. reg_insert i (name_of d) (stored d)) ds g)
     = (reg_view g)(i := put_services name_of stored ds (reg_view g i))"
  by (induction ds arbitrary: g) (simp_all add: put_services_def hm_simps)

lemma reg_wf_insert_fold [simp]: "reg_wf g \<Longrightarrow> reg_wf (fold (\<lambda>d. reg_insert i (f d) (h d)) ds g)"
  by (induction ds arbitrary: g) simp_all

lemma reg_delete_fold:
  "reg_view (fold (reg_delete i) ns g) = (reg_view g)(i := \<lambda>n. if n \<in> set ns then None else reg_view g i n)"
  by (induction ns arbitrary: g) (auto simp: hm_simps fun_eq_iff)

lemma reg_wf_delete_fold [simp]: "reg_wf g \<Longrightarrow> reg_wf (fold (reg_delete i) ns g)"
  by (induction ns arbitrary: g) simp_all

lemma put_services_apply:
  "put_services name_of stored ds m n =
     (case map_of (rev (map (\<lambda>d. (name_of d, stored d)) ds)) n of None \<Rightarrow> m n | Some s \<Rightarrow> Some s)"
  by (induction ds rule: rev_induct) (simp_all add: put_services_def)

lemma put_services_other: "n \<notin> name_of ` set ds \<Longrightarrow> put_services name_of stored ds m n = m n"
  unfolding put_services_def by (induction ds arbitrary: m) simp_all

lemma put_services_in: "n \<in> name_of ` set ds \<Longrightarrow>
    put_services name_of stored ds m n = put_services name_of stored ds (\<lambda>_. None) n"
  by (auto simp: put_services_apply split: option.splits)
    (metis (no_types, lifting) imageI image_image image_set map_of_eq_None_iff rev_map set_rev fst_conv)

lemma put_services_distinct:
  assumes "distinct (map name_of ds)" and "d \<in> set ds"
  shows "put_services name_of stored ds m (name_of d) = Some (stored d)"
proof -
  have "distinct (map fst (rev (map (\<lambda>d. (name_of d, stored d)) ds)))"
    using assms(1) by (simp add: comp_def flip: rev_map)
  then have "map_of (rev (map (\<lambda>d. (name_of d, stored d)) ds)) (name_of d) = Some (stored d)"
    using assms(2) by (intro map_of_is_SomeI) simp_all
  then show ?thesis by (simp add: put_services_apply)
qed

section \<open>The interface\<close>

text \<open>
  \<open>names\<close> lists the services of a stack, \<open>add\<close> registers services (replacing those of the same
  name), \<open>remove\<close> and \<open>remove_all\<close> unregister. \<open>invar\<close> says that the provider is in service.
\<close>

locale service_registry =
  fixes add :: "StackID \<Rightarrow> 'd list \<Rightarrow> ('w, 'e, unit) act"
    and names :: "StackID \<Rightarrow> ('w, 'e, string list) act"
    and remove :: "StackID \<Rightarrow> string list \<Rightarrow> ('w, 'e, unit) act"
    and remove_all :: "StackID \<Rightarrow> ('w, 'e, unit) act"
    and name_of :: "'d \<Rightarrow> string"
    and stored :: "'d \<Rightarrow> 's"
    and valid :: "StackID \<Rightarrow> 'd \<Rightarrow> bool"
    and view :: "'w \<Rightarrow> StackID \<Rightarrow> string \<Rightarrow> 's option"
    and invar :: "'w \<Rightarrow> bool"
  assumes add_ok: "invar w \<Longrightarrow> (\<And>d. d \<in> set ds \<Longrightarrow> valid i d) \<Longrightarrow>
      \<exists>w'. add i ds w = (Inr (), w') \<and> invar w' \<and> view w' = (view w)(i := put_services name_of stored ds (view w i))"
    and names_ok: "invar w \<Longrightarrow> \<exists>ns. names i w = (Inr ns, w) \<and> set ns = dom (view w i)"
    and remove_ok: "invar w \<Longrightarrow> \<exists>w'. remove i ns w = (Inr (), w') \<and> invar w'
        \<and> view w' = (view w)(i := \<lambda>n. if n \<in> set ns then None else view w i n)"
    and remove_all_ok: "invar w \<Longrightarrow> \<exists>w'. remove_all i w = (Inr (), w') \<and> invar w'
        \<and> view w' = (view w)(i := \<lambda>_. None)"
begin

text \<open>
  What deployment does with a registry: register the new services, list what is there and
  remove what is not new. The stack then has exactly the new services.
\<close>

lemma add_prune:
  assumes w: "invar w" and v: "\<And>d. d \<in> set ds \<Longrightarrow> valid i d"
    and a: "add i ds w = (Inr (), w1)" and n: "names i w1 = (Inr ns, w2)"
    and r: "remove i (filter (\<lambda>n. n \<notin> name_of ` set ds) ns) w2 = (x, w3)"
  shows "x = Inr () \<and> invar w3 \<and> view w3 = (view w)(i := put_services name_of stored ds (\<lambda>_. None))"
proof -
  have w1: "invar w1" "view w1 = (view w)(i := put_services name_of stored ds (view w i))"
    using add_ok [OF w, of ds i] v a by auto
  have w2: "w2 = w1" "set ns = dom (view w1 i)" using names_ok [OF w1(1), of i] n by auto
  have w3: "x = Inr ()" "invar w3"
    "view w3 = (view w1)(i := \<lambda>m. if m \<in> set ns \<and> m \<notin> name_of ` set ds then None else view w1 i m)"
    using remove_ok [OF w1(1), of i "filter (\<lambda>n. n \<notin> name_of ` set ds) ns"] r w2(1) by (auto simp: fun_eq_iff)
  have "view w3 i m = put_services name_of stored ds (\<lambda>_. None) m" for m
  proof (cases "m \<in> name_of ` set ds")
    case True
    from put_services_in [OF True, of stored "view w i"] True show ?thesis by (simp add: w3(3) w1(2))
  next
    case False
    then show ?thesis using w3(3) w2(2) by (auto simp: put_services_other)
  qed
  then show ?thesis using w3 w1(2) by (auto simp: fun_eq_iff)
qed

lemma remove_all_empties:
  assumes "invar w" and "remove_all i w = (x, w')"
  shows "x = Inr () \<and> invar w' \<and> view w' = (view w)(i := \<lambda>_. None)"
  using remove_all_ok [OF assms(1), of i] assms(2) by auto

lemma other_stacks_untouched:
  assumes "invar w" and "\<And>d. d \<in> set ds \<Longrightarrow> valid i d" and "j \<noteq> i"
  shows "view (snd (add i ds w)) j = view w j" and "view (snd (remove i ns w)) j = view w j"
    and "view (snd (remove_all i w)) j = view w j"
  using add_ok [OF assms(1), of ds i] remove_ok [OF assms(1), of i ns] remove_all_ok [OF assms(1), of i]
    assms(2,3) by auto

end

end
