(* ===== verification/Http_Common.thy ===== *)
theory Http_Common
  imports Mu_Stack
begin

text \<open>
  Requests and responses of user functions, \<open>src/sdk/common/src/common_http\<close> and
  \<open>src/sdk/common/src/function\<close>: status codes with their reason phrases, headers, and the
  response builder. Lowercasing of header names is Unicode's; it is the parameter \<open>lower\<close>.
\<close>

type_synonym Status = u16

definition status_table :: "(Status \<times> string) list" where
  "status_table =
    [(100, ''Continue''), (101, ''Switching Protocols''), (102, ''Processing''), (200, ''OK''),
     (201, ''Created''), (202, ''Accepted''), (203, ''Non-Authoritative Information''),
     (204, ''No Content''), (205, ''Reset Content''), (206, ''Partial Content''),
     (207, ''Multi-Status''), (208, ''Already Reported''), (226, ''IM Used''),
     (300, ''Multiple Choices''), (301, ''Moved Permanently''), (302, ''Found''), (303, ''See Other''),
     (304, ''Not Modified''), (305, ''Use Proxy''), (307, ''Temporary Redirect''),
     (308, ''Permanent Redirect''), (400, ''Bad Request''), (401, ''Unauthorized''),
     (402, ''Payment Required''), (403, ''Forbidden''), (404, ''Not Found''),
     (405, ''Method Not Allowed''), (406, ''Not Acceptable''), (407, ''Proxy Authentication Required''),
     (408, ''Request Timeout''), (409, ''Conflict''), (410, ''Gone''), (411, ''Length Required''),
     (412, ''Precondition Failed''), (413, ''Payload Too Large''), (414, ''URI Too Long''),
     (415, ''Unsupported Media Type''), (416, ''Range Not Satisfiable''), (417, ''Expectation Failed''),
     (418, ''I'm a teapot''), (421, ''Misdirected Request''), (422, ''Unprocessable Entity''),
     (423, ''Locked''), (424, ''Failed Dependency''), (426, ''Upgrade Required''),
     (428, ''Precondition Required''), (429, ''Too Many Requests''),
     (431, ''Request Header Fields Too Large''), (451, ''Unavailable For Legal Reasons''),
     (500, ''Internal Server Error''), (501, ''Not Implemented''), (502, ''Bad Gateway''),
     (503, ''Service Unavailable''), (504, ''Gateway Timeout''), (505, ''HTTP Version Not Supported''),
     (506, ''Variant Also Negotiates''), (507, ''Insufficient Storage''), (508, ''Loop Detected''),
     (510, ''Not Extended''), (511, ''Network Authentication Required'')]"

definition status_from_code :: "u16 \<Rightarrow> Status option" where
  "status_from_code code = (if map_of status_table code = None then None else Some code)"

definition status_reason :: "Status \<Rightarrow> string option" where
  "status_reason s = map_of status_table s"

definition status_reason_lossy :: "Status \<Rightarrow> string" where
  "status_reason_lossy s =
     (case status_reason s of
        Some lossless \<Rightarrow> lossless
      | None \<Rightarrow>
          let k = s mod 100
          in if k = 1 then ''Informational'' else if k = 2 then ''Success''
             else if k = 3 then ''Redirection'' else if k = 4 then ''Client Error''
             else if k = 5 then ''Server Error'' else ''Unknown'')"

definition status_is_client_error :: "Status \<Rightarrow> bool" where
  "status_is_client_error s \<longleftrightarrow> s mod 100 = 4"

definition CONTENT_TYPE_HEADER :: string where
  "CONTENT_TYPE_HEADER = ''content-type''"

definition BINARY_CONTENT_TYPE :: string where
  "BINARY_CONTENT_TYPE = ''application/octet-stream''"

definition STRING_CONTENT_TYPE :: string where
  "STRING_CONTENT_TYPE = ''text/plain; charset=utf-8''"

record Header =
  hd_name :: string
  hd_value :: string

record Request =
  rq_method :: HttpMethod
  rq_path_params :: "(string, string) hash_map"
  rq_query_params :: "(string, string) hash_map"
  rq_headers :: "Header list"
  rq_body :: bytes

definition request_content_type :: "(string \<Rightarrow> string) \<Rightarrow> Request \<Rightarrow> string option" where
  "request_content_type lower r =
     map_option hd_value (find (\<lambda>h. lower (hd_name h) = ''content-type'') (rq_headers r))"

record Response =
  rs_status :: Status
  rs_headers :: "Header list"
  rs_body :: bytes

record ResponseBuilder =
  rb_status :: Status
  rb_headers :: "(string, Header) hash_map"

definition builder_new :: ResponseBuilder where
  "builder_new = \<lparr>rb_status = 200, rb_headers = []\<rparr>"

definition builder_status :: "Status \<Rightarrow> ResponseBuilder \<Rightarrow> ResponseBuilder" where
  "builder_status s b = b\<lparr>rb_status := s\<rparr>"

definition builder_content_type :: "string \<Rightarrow> ResponseBuilder \<Rightarrow> ResponseBuilder" where
  "builder_content_type ct b =
     (let header = \<lparr>hd_name = CONTENT_TYPE_HEADER, hd_value = ct\<rparr>
      in b\<lparr>rb_headers := AList.update (hd_name header) header (AList.delete (hd_name header) (rb_headers b))\<rparr>)"

definition has_content_type :: "ResponseBuilder \<Rightarrow> bool" where
  "has_content_type b \<longleftrightarrow> map_of (rb_headers b) CONTENT_TYPE_HEADER \<noteq> None"

definition builder_header :: "(string \<Rightarrow> string) \<Rightarrow> Header \<Rightarrow> ResponseBuilder \<Rightarrow> ResponseBuilder" where
  "builder_header lower h b =
     (let name = lower (hd_name h)
      in b\<lparr>rb_headers := AList.update name h (AList.delete name (rb_headers b))\<rparr>)"

definition builder_headers :: "(string \<Rightarrow> string) \<Rightarrow> Header list \<Rightarrow> ResponseBuilder \<Rightarrow> ResponseBuilder" where
  "builder_headers lower hs b = fold (builder_header lower) hs b"

definition finish :: "bytes \<Rightarrow> ResponseBuilder \<Rightarrow> Response" where
  "finish body b = \<lparr>rs_status = rb_status b, rs_headers = map snd (rb_headers b), rs_body = body\<rparr>"

definition no_body :: "ResponseBuilder \<Rightarrow> Response" where
  "no_body b = finish [] b"

definition with_default_type :: "string \<Rightarrow> ResponseBuilder \<Rightarrow> ResponseBuilder" where
  "with_default_type ct b = (if has_content_type b then b else builder_content_type ct b)"

definition body_from_slice :: "bytes \<Rightarrow> ResponseBuilder \<Rightarrow> Response" where
  "body_from_slice sl b = finish sl (with_default_type BINARY_CONTENT_TYPE b)"

definition body_from_vec :: "bytes \<Rightarrow> ResponseBuilder \<Rightarrow> Response" where
  "body_from_vec vec b = finish vec (with_default_type BINARY_CONTENT_TYPE b)"

definition body_from_string :: "string \<Rightarrow> ResponseBuilder \<Rightarrow> Response" where
  "body_from_string s b = finish (as_bytes s) (with_default_type STRING_CONTENT_TYPE b)"

definition body_from_str :: "string \<Rightarrow> ResponseBuilder \<Rightarrow> Response" where
  "body_from_str s b = finish (as_bytes s) (with_default_type STRING_CONTENT_TYPE b)"

lemmas response_defs = no_body_def body_from_slice_def body_from_vec_def body_from_string_def
  body_from_str_def finish_def with_default_type_def has_content_type_def builder_content_type_def
  builder_status_def builder_new_def

section \<open>The builder keeps one header per lowercased name\<close>

definition builder_wf :: "(string \<Rightarrow> string) \<Rightarrow> ResponseBuilder \<Rightarrow> bool" where
  "builder_wf lower b \<longleftrightarrow> distinct (map fst (rb_headers b))
     \<and> (\<forall>(k, h) \<in> set (rb_headers b). lower (hd_name h) = k)"

lemma builder_wf_header [simp]:
  assumes "builder_wf lower b"
  shows "builder_wf lower (builder_header lower h b)"
proof -
  have "lower (hd_name h') = k"
    if "(k, h') \<in> set (AList.update (lower (hd_name h)) h (AList.delete (lower (hd_name h)) (rb_headers b)))" for k h'
  proof -
    from update_values [OF that] have "(k, h') \<in> set (rb_headers b) \<or> (k, h') = (lower (hd_name h), h)"
      by (auto simp: AList.delete_eq)
    with assms show ?thesis by (auto simp: builder_wf_def)
  qed
  then have "\<forall>(k, h') \<in> set (AList.update (lower (hd_name h)) h (AList.delete (lower (hd_name h)) (rb_headers b))).
      lower (hd_name h') = k" by blast
  moreover have "distinct (map fst (rb_headers b))" using assms by (simp add: builder_wf_def)
  ultimately show ?thesis by (simp add: builder_wf_def builder_header_def Let_def)
qed

lemma builder_wf_headers: "builder_wf lower b \<Longrightarrow> builder_wf lower (builder_headers lower hs b)"
  by (induction hs arbitrary: b) (simp_all add: builder_headers_def)

lemma builder_wf_content_type:
  "lower CONTENT_TYPE_HEADER = CONTENT_TYPE_HEADER \<Longrightarrow> builder_wf lower b \<Longrightarrow>
     builder_wf lower (builder_content_type ct b)"
  using builder_wf_header [of lower b "\<lparr>hd_name = CONTENT_TYPE_HEADER, hd_value = ct\<rparr>"]
  by (simp add: builder_header_def builder_content_type_def Let_def)

lemma builder_wf_distinct_names: "builder_wf lower b \<Longrightarrow> distinct (map (\<lambda>h. lower (hd_name h)) (rs_headers (finish body b)))"
proof -
  assume wf: "builder_wf lower b"
  have "map (\<lambda>h. lower (hd_name h)) (rs_headers (finish body b)) = map fst (rb_headers b)"
    using wf by (auto simp: builder_wf_def finish_def)
  with wf show ?thesis by (simp add: builder_wf_def)
qed

section \<open>Properties\<close>

text \<open>
  A response built with any headers and a body carries at most one header of each name,
  names compared case insensitively, and it has a content type.
\<close>

theorem response_headers_unique:
  assumes "lower CONTENT_TYPE_HEADER = CONTENT_TYPE_HEADER"
  shows "let r = body_from_vec body (builder_headers lower hs (builder_status s builder_new))
    in rs_status r = s \<and> rs_body r = body \<and> distinct (map (\<lambda>h. lower (hd_name h)) (rs_headers r))
       \<and> CONTENT_TYPE_HEADER \<in> (\<lambda>h. lower (hd_name h)) ` set (rs_headers r)"
proof -
  let ?b = "builder_headers lower hs (builder_status s builder_new)"
  let ?c = "with_default_type BINARY_CONTENT_TYPE ?b"
  have "builder_wf lower (builder_status s builder_new)"
    by (simp add: builder_wf_def builder_status_def builder_new_def)
  then have "builder_wf lower ?b" by (rule builder_wf_headers)
  then have wf: "builder_wf lower ?c" using assms builder_wf_content_type by (simp add: with_default_type_def)
  have status: "rb_status (builder_headers lower hs b) = rb_status b" for b
    by (induction hs arbitrary: b) (simp_all add: builder_headers_def builder_header_def Let_def)
  have "map_of (rb_headers ?c) CONTENT_TYPE_HEADER \<noteq> None"
    by (auto simp: with_default_type_def has_content_type_def builder_content_type_def Let_def hm_simps)
  then obtain h where "(CONTENT_TYPE_HEADER, h) \<in> set (rb_headers ?c)" using hm_get_Some_in by fastforce
  moreover from this wf have "lower (hd_name h) = CONTENT_TYPE_HEADER" by (auto simp: builder_wf_def)
  ultimately have "CONTENT_TYPE_HEADER \<in> (\<lambda>h. lower (hd_name h)) ` set (rs_headers (finish body ?c))"
    by (force simp: finish_def image_iff)
  moreover have "rb_status ?c = s" using status
    by (simp add: with_default_type_def builder_content_type_def builder_status_def Let_def)
  ultimately show ?thesis
    using builder_wf_distinct_names [OF wf, of body] by (simp add: body_from_vec_def finish_def)
qed

theorem response_headers_unique_witness:
  "let r = body_from_vec [1] (builder_headers id [\<lparr>hd_name = ''a'', hd_value = ''x''\<rparr>,
       \<lparr>hd_name = ''a'', hd_value = ''y''\<rparr>] (builder_status 404 builder_new))
   in rs_status r = 404 \<and> rs_body r = [1] \<and> distinct (map (\<lambda>h. id (hd_name h)) (rs_headers r))
      \<and> CONTENT_TYPE_HEADER \<in> (\<lambda>h. id (hd_name h)) ` set (rs_headers r)"
  by (rule response_headers_unique) simp

text \<open>The client error test looks at the last two digits of the code instead of the first.\<close>

lemma client_error_test_wrong:
  "status_is_client_error 204 \<and> \<not> status_is_client_error 400 \<and> \<not> status_is_client_error 403"
  by (simp add: status_is_client_error_def)

end
