(* ===== verification/Runtime_Registry.thy ===== *)
theory Runtime_Registry
  imports Service_Registry Http_Common Mailbox
begin

text \<open>
  The function runtime, \<open>src/rust-libs/runtime/src/lib.rs\<close> with \<open>types.rs\<close>, \<open>providers.rs\<close>,
  \<open>memory.rs\<close> and \<open>instance/utils.rs\<close>: the table of assemblies, loading and caching of compiled
  modules, and the step function of the runtime's mailbox. The WebAssembly engine and the cache
  on disk are the parameter \<open>wasm_env\<close>: compiling, the hash of a cache key, and loading and
  storing compiled modules.
\<close>

section \<open>Assembly definitions\<close>

record AssemblyDefinition =
  ad_id :: AssemblyID
  ad_source :: bytes
  ad_runtime :: AssemblyRuntime
  ad_envs :: "(string, string) hash_map"
  ad_memory_limit :: u64

datatype FunctionLoadingError =
    AssemblyNotFound AssemblyID | InvalidAssemblyDefinition string | InvalidAssembly AssemblyID
  | RequestedMemorySizeTooBig | CompileWasmModule | SerializeCachedWasmModule

datatype runtime_error =
    RFunctionLoadingError FunctionLoadingError | RInternal | RuntimeIsShutDown

definition env_error :: "string \<times> string \<Rightarrow> string option" where
  "env_error e =
     (if CHR ''='' \<in> set (fst e) then Some ''Env key cannot contain '=' character''
      else if CHR 0x00 \<in> set (fst e) then Some ''Env key cannot contain null character''
      else if CHR 0x00 \<in> set (snd e) then Some ''Env value cannot contain null character''
      else None)"

definition assembly_definition_try_new ::
  "AssemblyID \<Rightarrow> bytes \<Rightarrow> AssemblyRuntime \<Rightarrow> (string \<times> string) list \<Rightarrow> u64 \<Rightarrow> runtime_error + AssemblyDefinition" where
  "assembly_definition_try_new i source rt envs memory_limit =
     (let envs' = hm_from_pairs envs
      in case filter_map env_error envs' of
           e # _ \<Rightarrow> Inl (RFunctionLoadingError (InvalidAssemblyDefinition e))
         | [] \<Rightarrow> Inr \<lparr>ad_id = i, ad_source = source, ad_runtime = rt, ad_envs = envs',
                     ad_memory_limit = memory_limit\<rparr>)"

section \<open>The assembly provider\<close>

type_synonym AssemblyProvider = "AssemblyDefinition registry"

definition provider_get :: "AssemblyID \<Rightarrow> AssemblyProvider \<Rightarrow> AssemblyDefinition option" where
  "provider_get i p = reg_view p (aid_stack_id i) (aid_assembly_name i)"

definition provider_add_function :: "AssemblyDefinition \<Rightarrow> AssemblyProvider \<Rightarrow> AssemblyProvider" where
  "provider_add_function d p = reg_insert (aid_stack_id (ad_id d)) (aid_assembly_name (ad_id d)) d p"

definition provider_remove_function :: "AssemblyID \<Rightarrow> AssemblyProvider \<Rightarrow> AssemblyProvider" where
  "provider_remove_function i p = reg_delete (aid_stack_id i) (aid_assembly_name i) p"

definition provider_remove_all_functions :: "StackID \<Rightarrow> AssemblyProvider \<Rightarrow> string list option \<times> AssemblyProvider" where
  "provider_remove_all_functions i p = (map_option (map fst) (map_of p i), AList.delete i p)"

definition provider_get_function_names :: "StackID \<Rightarrow> AssemblyProvider \<Rightarrow> string list" where
  "provider_get_function_names i p = (case map_of p i of Some m \<Rightarrow> map fst m | None \<Rightarrow> [])"

section \<open>Stores and usage\<close>

text \<open>A memory limit in pages of 64 KiB, which must fit 32 bits.\<close>

definition create_memory :: "u64 \<Rightarrow> u32 option" where
  "create_memory max_size =
     (let pages_count = max_size div 65536 in if pages_count < 2 ^ 32 then Some (ucast pages_count) else None)"

record wasm_store =
  ws_metering_points :: u64
  ws_pages :: u32

definition create_store :: "u64 \<Rightarrow> u32 option \<Rightarrow> runtime_error + wasm_store" where
  "create_store memory_limit giga_instructions_limit =
     (let metering_points = ucast (case giga_instructions_limit of Some g \<Rightarrow> g | None \<Rightarrow> - 1) * 1000000000
      in res_bind (ok_or (RFunctionLoadingError RequestedMemorySizeTooBig) (create_memory memory_limit)) (\<lambda>pages.
           Inr \<lparr>ws_metering_points = metering_points, ws_pages = pages\<rparr>))"

section \<open>The runtime state\<close>

record ('h, 'm, 'c) wasm_env =
  we_hash :: "bytes \<Rightarrow> 'h"
  we_module_new :: "bytes \<Rightarrow> 'm option"
  we_module_from_binary :: "bytes \<Rightarrow> 'm option"
  we_cache_load :: "'h \<Rightarrow> 'c \<Rightarrow> 'm option"
  we_cache_store :: "'h \<Rightarrow> 'm \<Rightarrow> 'c \<Rightarrow> bool \<times> 'c"

record ('h, 'c) runtime_state =
  rt_max_giga_instructions :: "u32 option"
  rt_assembly_provider :: AssemblyProvider
  rt_hashkey_dict :: "(AssemblyID, 'h \<times> u64) hash_map"
  rt_cache :: 'c
  rt_next_instance_id :: u64
  rt_is_shut_down :: bool

definition load_cached_module ::
  "('h, 'm, 'c) wasm_env \<Rightarrow> AssemblyID \<Rightarrow> 'h \<Rightarrow> u64 \<Rightarrow> ('h, 'c) runtime_state \<Rightarrow>
     (runtime_error + wasm_store \<times> 'm) \<times> ('h, 'c) runtime_state" where
  "load_cached_module env a hash memory_limit st =
     (case create_store memory_limit (rt_max_giga_instructions st) of
        Inl e \<Rightarrow> (Inl e, st)
      | Inr store \<Rightarrow>
          (case we_cache_load env hash (rt_cache st) of
             Some modul \<Rightarrow> (Inr (store, modul), st)
           | None \<Rightarrow>
               (case provider_get a (rt_assembly_provider st) of
                  None \<Rightarrow> (Inl (RFunctionLoadingError (AssemblyNotFound a)), st)
                | Some d \<Rightarrow>
                    (case we_module_new env (ad_source d) of
                       None \<Rightarrow> (Inl (RFunctionLoadingError CompileWasmModule), st)
                     | Some modul \<Rightarrow>
                         (case we_cache_store env hash modul (rt_cache st) of
                            (False, c) \<Rightarrow> (Inl (RFunctionLoadingError SerializeCachedWasmModule), st\<lparr>rt_cache := c\<rparr>)
                          | (True, c) \<Rightarrow> (Inr (store, modul), st\<lparr>rt_cache := c\<rparr>))))))"

definition load_new_module ::
  "('h, 'm, 'c) wasm_env \<Rightarrow> AssemblyID \<Rightarrow> ('h, 'c) runtime_state \<Rightarrow>
     (runtime_error + wasm_store \<times> 'm) \<times> ('h, 'c) runtime_state" where
  "load_new_module env a st0 =
     (case provider_get a (rt_assembly_provider st0) of
        None \<Rightarrow> (Inl (RFunctionLoadingError (AssemblyNotFound a)), st0)
      | Some d \<Rightarrow>
          (let hash = we_hash env (stack_id_get_bytes (aid_stack_id a) @ as_bytes (aid_assembly_name a));
               st = st0\<lparr>rt_hashkey_dict := AList.update a (hash, ad_memory_limit d) (rt_hashkey_dict st0)\<rparr>
           in case create_store (ad_memory_limit d) (rt_max_giga_instructions st) of
                Inl e \<Rightarrow> (Inl e, st)
              | Inr store \<Rightarrow>
                  (case we_module_from_binary env (ad_source d) of
                     None \<Rightarrow> (Inl (RFunctionLoadingError (InvalidAssembly a)), st)
                   | Some modul \<Rightarrow>
                       (Inr (store, modul), st\<lparr>rt_cache := snd (we_cache_store env hash modul (rt_cache st))\<rparr>))))"

definition load_module ::
  "('h, 'm, 'c) wasm_env \<Rightarrow> AssemblyID \<Rightarrow> ('h, 'c) runtime_state \<Rightarrow>
     (runtime_error + wasm_store \<times> 'm) \<times> ('h, 'c) runtime_state" where
  "load_module env a st =
     (case map_of (rt_hashkey_dict st) a of
        Some (hash, memory_limit) \<Rightarrow> load_cached_module env a hash memory_limit st
      | None \<Rightarrow> load_new_module env a st)"

text \<open>\<open>start_function\<close> up to \<open>Instance::start\<close>, which gets these arguments.\<close>

record 'm instance_args =
  ia_assembly :: AssemblyID
  ia_instance_id :: u64
  ia_envs :: "(string, string) hash_map"
  ia_store :: wasm_store
  ia_module :: 'm
  ia_memory_limit :: u64
  ia_giga_instructions_limit :: "u32 option"

definition start_function ::
  "('h, 'm, 'c) wasm_env \<Rightarrow> AssemblyID \<Rightarrow> ('h, 'c) runtime_state \<Rightarrow>
     (runtime_error + 'm instance_args) \<times> ('h, 'c) runtime_state" where
  "start_function env a st =
     (case provider_get a (rt_assembly_provider st) of
        None \<Rightarrow> (Inl (RFunctionLoadingError (AssemblyNotFound a)), st)
      | Some d \<Rightarrow>
          (case load_module env a st of
             (Inl e, st1) \<Rightarrow> (Inl e, st1)
           | (Inr (store, modul), st1) \<Rightarrow>
               (Inr \<lparr>ia_assembly = a, ia_instance_id = rt_next_instance_id st1, ia_envs = ad_envs d, ia_store = store,
                    ia_module = modul, ia_memory_limit = ad_memory_limit d,
                    ia_giga_instructions_limit = rt_max_giga_instructions st1\<rparr>,
                st1\<lparr>rt_next_instance_id := rt_next_instance_id st1 + 1\<rparr>)))"

section \<open>The mailbox\<close>

datatype runtime_message =
    InvokeFunction AssemblyID string Request
  | Shutdown
  | AddFunctions "AssemblyDefinition list"
  | RemoveFunctions StackID "string list"
  | RemoveAllFunctions StackID
  | GetFunctionNames StackID

datatype 'm runtime_out =
    RunInstance "'m instance_args" string Request
  | InvokeFailed runtime_error
  | FunctionNames "string list"

definition remove_functions :: "StackID \<Rightarrow> string list \<Rightarrow> ('h, 'c) runtime_state \<Rightarrow> ('h, 'c) runtime_state" where
  "remove_functions i ns st =
     fold (\<lambda>n st. let a = \<lparr>aid_stack_id = i, aid_assembly_name = n\<rparr>
        in st\<lparr>rt_assembly_provider := provider_remove_function a (rt_assembly_provider st),
              rt_hashkey_dict := AList.delete a (rt_hashkey_dict st)\<rparr>) ns st"

definition remove_all_functions :: "StackID \<Rightarrow> ('h, 'c) runtime_state \<Rightarrow> ('h, 'c) runtime_state" where
  "remove_all_functions i st =
     (case provider_remove_all_functions i (rt_assembly_provider st) of
        (names, p) \<Rightarrow> st\<lparr>rt_assembly_provider := p,
          rt_hashkey_dict := fold (\<lambda>n. AList.delete \<lparr>aid_stack_id = i, aid_assembly_name = n\<rparr>)
            (case_option [] id names) (rt_hashkey_dict st)\<rparr>)"

fun runtime_step ::
  "('h, 'm, 'c) wasm_env \<Rightarrow> runtime_message \<Rightarrow> ('h, 'c) runtime_state \<Rightarrow>
     ('h, 'c) runtime_state \<times> 'm runtime_out list" where
  "runtime_step env (InvokeFunction a f r) st =
     (if rt_is_shut_down st then (st, [InvokeFailed RuntimeIsShutDown])
      else case start_function env a st of
        (Inr args, st') \<Rightarrow> (st', [RunInstance args f r])
      | (Inl e, st') \<Rightarrow> (st', [InvokeFailed e]))"
| "runtime_step env Shutdown st = (st\<lparr>rt_is_shut_down := True\<rparr>, [])"
| "runtime_step env (AddFunctions fs) st =
     (st\<lparr>rt_assembly_provider := fold provider_add_function fs (rt_assembly_provider st)\<rparr>, [])"
| "runtime_step env (RemoveFunctions i ns) st = (remove_functions i ns st, [])"
| "runtime_step env (RemoveAllFunctions i) st = (remove_all_functions i st, [])"
| "runtime_step env (GetFunctionNames i) st =
     (st, [FunctionNames (provider_get_function_names i (rt_assembly_provider st))])"

text \<open>
  The operations other components call, on a mailbox that is running or stopped: a post to a
  stopped mailbox is an error, and otherwise returns when the message has been processed.
\<close>

type_synonym ('h, 'c) runtime_world = "('h, 'c) runtime_state \<times> bool"

definition runtime_post :: "('h, 'm, 'c) wasm_env \<Rightarrow> runtime_message \<Rightarrow> (('h, 'c) runtime_world, string, 'm runtime_out list) act" where
  "runtime_post env msg = (\<lambda>(st, running).
     if running then (case runtime_step env msg st of (st', out) \<Rightarrow> (Inr out, (st', running)))
     else (Inl ''MailboxStopped'', (st, running)))"

definition add_functions :: "('h, 'm, 'c) wasm_env \<Rightarrow> AssemblyDefinition list \<Rightarrow> (('h, 'c) runtime_world, string, unit) act" where
  "add_functions env fs = act_bind (runtime_post env (AddFunctions fs)) (\<lambda>_. act_ok ())"

definition post_remove_functions :: "('h, 'm, 'c) wasm_env \<Rightarrow> StackID \<Rightarrow> string list \<Rightarrow> (('h, 'c) runtime_world, string, unit) act" where
  "post_remove_functions env i ns = act_bind (runtime_post env (RemoveFunctions i ns)) (\<lambda>_. act_ok ())"

definition post_remove_all_functions :: "('h, 'm, 'c) wasm_env \<Rightarrow> StackID \<Rightarrow> (('h, 'c) runtime_world, string, unit) act" where
  "post_remove_all_functions env i = act_bind (runtime_post env (RemoveAllFunctions i)) (\<lambda>_. act_ok ())"

definition get_function_names :: "('h, 'm, 'c) wasm_env \<Rightarrow> StackID \<Rightarrow> (('h, 'c) runtime_world, string, string list) act" where
  "get_function_names env i = act_bind (runtime_post env (GetFunctionNames i)) (\<lambda>out.
     act_ok (case out of [FunctionNames ns] \<Rightarrow> ns | _ \<Rightarrow> []))"

section \<open>The runtime as a registry of functions\<close>

lemma remove_functions_provider:
  "rt_assembly_provider (remove_functions i ns st) = fold (reg_delete i) ns (rt_assembly_provider st)"
  unfolding remove_functions_def
  by (induction ns arbitrary: st) (simp_all add: Let_def provider_remove_function_def)

lemma remove_functions_dict:
  "map_of (rt_hashkey_dict (remove_functions i ns st)) a =
     (if aid_stack_id a = i \<and> aid_assembly_name a \<in> set ns then None else map_of (rt_hashkey_dict st) a)"
  unfolding remove_functions_def
  by (induction ns arbitrary: st) (auto simp: Let_def hm_simps)

lemma remove_all_functions_provider:
  "rt_assembly_provider (remove_all_functions i st) = AList.delete i (rt_assembly_provider st)"
  by (simp add: remove_all_functions_def provider_remove_all_functions_def)

lemma fold_delete_names:
  "map_of (fold (\<lambda>n. AList.delete \<lparr>aid_stack_id = i, aid_assembly_name = n\<rparr>) ns m) a =
     (if aid_stack_id a = i \<and> aid_assembly_name a \<in> set ns then None else map_of m a)"
  by (induction ns arbitrary: m) (auto simp: hm_simps)

lemma remove_all_functions_dict:
  "map_of (rt_hashkey_dict (remove_all_functions i st)) a =
     (if aid_stack_id a = i \<and> provider_get a (rt_assembly_provider st) \<noteq> None then None
      else map_of (rt_hashkey_dict st) a)"
proof -
  define ns where "ns = case_option [] id (map_option (map fst) (map_of (rt_assembly_provider st) i))"
  have "map_of (rt_hashkey_dict (remove_all_functions i st)) a =
      (if aid_stack_id a = i \<and> aid_assembly_name a \<in> set ns then None else map_of (rt_hashkey_dict st) a)"
    by (cases "map_of (rt_assembly_provider st) i")
      (simp_all add: remove_all_functions_def provider_remove_all_functions_def fold_delete_names ns_def)
  moreover have "aid_assembly_name a \<in> set ns \<longleftrightarrow> provider_get a (rt_assembly_provider st) \<noteq> None"
    if "aid_stack_id a = i"
    using that by (cases "map_of (rt_assembly_provider st) i")
      (auto simp: ns_def provider_get_def reg_view_def hm_in_keys_iff)
  ultimately show ?thesis by auto
qed

lemma add_functions_provider:
  assumes "\<And>d. d \<in> set fs \<Longrightarrow> aid_stack_id (ad_id d) = i"
  shows "fold provider_add_function fs p = fold (\<lambda>d. reg_insert i (aid_assembly_name (ad_id d)) d) fs p"
  using assms by (induction fs arbitrary: p) (simp_all add: provider_add_function_def)

lemma provider_names: "provider_get_function_names i p = map fst (reg_entry i p)"
  by (simp add: provider_get_function_names_def reg_entry_def split: option.splits)

interpretation function_registry: service_registry "\<lambda>_. add_functions env" "get_function_names env"
  "post_remove_functions env" "post_remove_all_functions env" "\<lambda>d. aid_assembly_name (ad_id d)" "\<lambda>d. d"
  "\<lambda>i d. aid_stack_id (ad_id d) = i" "\<lambda>w. reg_view (rt_assembly_provider (fst w))"
  "\<lambda>w. reg_wf (rt_assembly_provider (fst w)) \<and> snd w"
  for env :: "('h, 'm, 'c) wasm_env"
proof
  fix w :: "('h, 'c) runtime_world" and i and ds :: "AssemblyDefinition list"
  assume w: "reg_wf (rt_assembly_provider (fst w)) \<and> snd w"
    and "\<And>d. d \<in> set ds \<Longrightarrow> aid_stack_id (ad_id d) = i"
  then show "\<exists>w'. add_functions env ds w = (Inr (), w') \<and> (reg_wf (rt_assembly_provider (fst w')) \<and> snd w')
      \<and> reg_view (rt_assembly_provider (fst w')) = (reg_view (rt_assembly_provider (fst w)))
          (i := put_services (\<lambda>d. aid_assembly_name (ad_id d)) (\<lambda>d. d) ds (reg_view (rt_assembly_provider (fst w)) i))"
    by (cases w) (simp add: add_functions_def act_bind_def runtime_post_def add_functions_provider reg_insert_fold)
next
  fix w :: "('h, 'c) runtime_world" and i
  assume w: "reg_wf (rt_assembly_provider (fst w)) \<and> snd w"
  then show "\<exists>ns. get_function_names env i w = (Inr ns, w) \<and> set ns = dom (reg_view (rt_assembly_provider (fst w)) i)"
    by (cases w) (simp add: get_function_names_def act_bind_def runtime_post_def provider_names
        reg_view_entry dom_map_of_conv_image_fst)
  obtain st where st: "w = (st, True)" "reg_wf (rt_assembly_provider st)" using w by (cases w) auto
  fix ns
  show "\<exists>w'. post_remove_functions env i ns w = (Inr (), w') \<and> (reg_wf (rt_assembly_provider (fst w')) \<and> snd w')
      \<and> reg_view (rt_assembly_provider (fst w')) = (reg_view (rt_assembly_provider (fst w)))
          (i := \<lambda>n. if n \<in> set ns then None else reg_view (rt_assembly_provider (fst w)) i n)"
    using st(2) unfolding st(1) by (simp add: post_remove_functions_def act_bind_def runtime_post_def
        remove_functions_provider reg_delete_fold cong: if_cong)
  show "\<exists>w'. post_remove_all_functions env i w = (Inr (), w') \<and> (reg_wf (rt_assembly_provider (fst w')) \<and> snd w')
      \<and> reg_view (rt_assembly_provider (fst w')) = (reg_view (rt_assembly_provider (fst w)))(i := \<lambda>_. None)"
    using st(2) unfolding st(1) by (simp add: post_remove_all_functions_def act_bind_def runtime_post_def
        remove_all_functions_provider hm_simps)
qed

section \<open>Invariant: cache keys belong to known assemblies\<close>

definition runtime_inv :: "('h, 'c) runtime_state \<Rightarrow> bool" where
  "runtime_inv st \<longleftrightarrow>
     (\<forall>a. map_of (rt_hashkey_dict st) a \<noteq> None \<longrightarrow> provider_get a (rt_assembly_provider st) \<noteq> None)"

lemma load_module_frame:
  "rt_assembly_provider (snd (load_module env a st)) = rt_assembly_provider st
   \<and> (map_of (rt_hashkey_dict (snd (load_module env a st))) b \<noteq> None \<longrightarrow>
        map_of (rt_hashkey_dict st) b \<noteq> None \<or> (b = a \<and> provider_get a (rt_assembly_provider st) \<noteq> None))"
  by (auto simp: load_module_def load_cached_module_def load_new_module_def Let_def hm_simps
      split: option.splits sum.splits prod.splits bool.splits if_splits)

lemma runtime_inv_load: "runtime_inv st \<Longrightarrow> runtime_inv (snd (load_module env a st))"
  using load_module_frame [of env a st] unfolding runtime_inv_def by metis

lemma provider_get_add:
  "provider_get a (provider_add_function d p) = (if a = ad_id d then Some d else provider_get a p)"
  by (cases a; cases "ad_id d") (auto simp: provider_get_def provider_add_function_def hm_simps)

lemma provider_get_add_list: "provider_get a p \<noteq> None \<Longrightarrow> provider_get a (fold provider_add_function fs p) \<noteq> None"
  by (induction fs arbitrary: p) (simp_all add: provider_get_add)

interpretation runtime: mailbox_component "runtime_step env" runtime_inv
  for env :: "('h, 'm, 'c) wasm_env"
proof
  fix m and st :: "('h, 'c) runtime_state"
  assume inv: "runtime_inv st"
  show "runtime_inv (fst (runtime_step env m st))"
  proof (cases m)
    case (InvokeFunction a f r)
    have "runtime_inv (st1\<lparr>rt_next_instance_id := n\<rparr>) = runtime_inv st1" for st1 :: "('h, 'c) runtime_state" and n
      by (simp add: runtime_inv_def)
    with InvokeFunction inv runtime_inv_load [OF inv, of env a] show ?thesis
      by (auto simp: start_function_def split: option.splits sum.splits prod.splits)
  next
    case (RemoveFunctions i ns)
    with inv show ?thesis
      by (auto simp: runtime_inv_def remove_functions_dict remove_functions_provider provider_get_def reg_delete_fold
          split: if_splits)
  next
    case (RemoveAllFunctions i)
    with inv show ?thesis
      by (fastforce simp: runtime_inv_def remove_all_functions_dict remove_all_functions_provider provider_get_def hm_simps
          split: if_splits)
  qed (use inv in \<open>auto simp: runtime_inv_def provider_get_add_list\<close>)
qed

lemma provider_get_added:
  assumes "distinct (map (\<lambda>d. aid_assembly_name (ad_id d)) ds)" and "\<And>d. d \<in> set ds \<Longrightarrow> aid_stack_id (ad_id d) = i"
    and "d \<in> set ds"
  shows "provider_get (ad_id d) (fold provider_add_function ds p) = Some d"
proof -
  have "aid_stack_id (ad_id d) = i" using assms(2,3) by blast
  with put_services_distinct [OF assms(1,3), where stored = "\<lambda>d. d"] show ?thesis
    by (simp add: provider_get_def add_functions_provider [OF assms(2)] reg_insert_fold)
qed

section \<open>Properties\<close>

text \<open>
  C32. Undeploying a stack and deploying it again runs the new code: once all functions of a
  stack have been removed and new ones added, an invocation starts an instance of the module
  compiled from the new source, with the new environment and memory limit, whatever was
  cached before.
\<close>

theorem redeployed_code_runs:
  assumes "runtime_inv st" and "\<not> rt_is_shut_down st"
    and "distinct (map (\<lambda>d. aid_assembly_name (ad_id d)) ds)" and "\<And>d. d \<in> set ds \<Longrightarrow> aid_stack_id (ad_id d) = i"
    and "d \<in> set ds" and "we_module_from_binary env (ad_source d) = Some m"
    and "create_memory (ad_memory_limit d) = Some pages"
  shows "\<exists>st' args. runtime_step env (InvokeFunction (ad_id d) f r)
      (fst (runtime_step env (AddFunctions ds) (fst (runtime_step env (RemoveAllFunctions i) st))))
      = (st', [RunInstance args f r])
    \<and> ia_module args = m \<and> ia_envs args = ad_envs d \<and> ws_pages (ia_store args) = pages
    \<and> ia_memory_limit args = ad_memory_limit d"
proof -
  let ?st = "fst (runtime_step env (AddFunctions ds) (fst (runtime_step env (RemoveAllFunctions i) st)))"
  have get: "provider_get (ad_id d) (rt_assembly_provider ?st) = Some d"
    using provider_get_added [OF assms(3,4,5)] by simp
  have dict: "map_of (rt_hashkey_dict ?st) (ad_id d) = None"
    using assms(1,4,5) unfolding runtime_inv_def
    by (cases "map_of (rt_hashkey_dict st) (ad_id d)") (fastforce simp: remove_all_functions_dict)+
  have "\<not> rt_is_shut_down ?st" using assms(2)
    by (simp add: remove_all_functions_def provider_remove_all_functions_def)
  with get dict assms(6,7) show ?thesis
    by (auto simp: start_function_def load_module_def load_new_module_def create_store_def Let_def)
qed

definition demo_wasm :: "(bytes, bytes, (bytes, bytes) hash_map) wasm_env" where
  "demo_wasm = \<lparr>we_hash = id, we_module_new = Some, we_module_from_binary = Some,
     we_cache_load = (\<lambda>h c. map_of c h), we_cache_store = (\<lambda>h m c. (True, AList.update h m c))\<rparr>"

definition demo_runtime :: "(bytes, (bytes, bytes) hash_map) runtime_state" where
  "demo_runtime = \<lparr>rt_max_giga_instructions = Some 1, rt_assembly_provider = [], rt_hashkey_dict = [], rt_cache = [],
     rt_next_instance_id = 0, rt_is_shut_down = False\<rparr>"

definition demo_assembly :: "bytes \<Rightarrow> AssemblyDefinition" where
  "demo_assembly src = \<lparr>ad_id = \<lparr>aid_stack_id = SolanaPublicKey [1], aid_assembly_name = ''m''\<rparr>, ad_source = src,
     ad_runtime = Wasi1_0, ad_envs = [], ad_memory_limit = 1048576\<rparr>"

definition demo_request :: Request where
  "demo_request = \<lparr>rq_method = Get, rq_path_params = [], rq_query_params = [], rq_headers = [], rq_body = []\<rparr>"

theorem redeployed_code_runs_witness:
  "\<exists>st' args. runtime_step demo_wasm (InvokeFunction (ad_id (demo_assembly [2])) ''f'' demo_request)
      (fst (runtime_step demo_wasm (AddFunctions [demo_assembly [2]])
        (fst (runtime_step demo_wasm (RemoveAllFunctions (SolanaPublicKey [1])) demo_runtime))))
      = (st', [RunInstance args ''f'' demo_request])
    \<and> ia_module args = [2] \<and> ia_envs args = [] \<and> ws_pages (ia_store args) = 16 \<and> ia_memory_limit args = 1048576"
  using redeployed_code_runs [of demo_runtime "[demo_assembly [2]]" "SolanaPublicKey [1]" "demo_assembly [2]" demo_wasm "[2]" 16
      "''f''" demo_request]
  by (simp add: runtime_inv_def demo_runtime_def demo_wasm_def demo_assembly_def create_memory_def)

text \<open>
  Updating a stack without undeploying it first runs the old code: adding a function
  definition leaves the cache key of the assembly in place, so when the cached module still
  loads, an invocation starts the old module under the old memory limit with the new
  environment.
\<close>

theorem updated_code_is_stale:
  assumes "\<not> rt_is_shut_down st" and "map_of (rt_hashkey_dict st) (ad_id d) = Some (hash, old_limit)"
    and "we_cache_load env hash (rt_cache st) = Some old_module" and "create_memory old_limit = Some old_pages"
  shows "\<exists>st' args. runtime_step env (InvokeFunction (ad_id d) f r) (fst (runtime_step env (AddFunctions [d]) st))
      = (st', [RunInstance args f r])
    \<and> ia_module args = old_module \<and> ws_pages (ia_store args) = old_pages \<and> ia_envs args = ad_envs d"
  using assms
  by (auto simp: start_function_def load_module_def load_cached_module_def create_store_def provider_get_add Let_def)

theorem updated_code_is_stale_witness:
  "let st1 = fst (runtime_step demo_wasm (AddFunctions [demo_assembly [1]]) demo_runtime);
       st2 = fst (runtime_step demo_wasm (InvokeFunction (ad_id (demo_assembly [1])) ''f'' demo_request) st1)
   in \<exists>st' args. runtime_step demo_wasm (InvokeFunction (ad_id (demo_assembly [2])) ''f'' demo_request)
        (fst (runtime_step demo_wasm (AddFunctions [demo_assembly [2]]) st2)) = (st', [RunInstance args ''f'' demo_request])
      \<and> ia_module args = [1] \<and> ws_pages (ia_store args) = 16"
proof -
  let ?st1 = "fst (runtime_step demo_wasm (AddFunctions [demo_assembly [1]]) demo_runtime)"
  let ?st2 = "fst (runtime_step demo_wasm (InvokeFunction (ad_id (demo_assembly [1])) ''f'' demo_request) ?st1)"
  let ?h = "[1] @ as_bytes ''m''"
  have "\<not> rt_is_shut_down ?st2" "map_of (rt_hashkey_dict ?st2) (ad_id (demo_assembly [2])) = Some (?h, 1048576)"
    "we_cache_load demo_wasm ?h (rt_cache ?st2) = Some [1]" "create_memory 1048576 = Some 16"
    by (simp_all add: demo_runtime_def demo_wasm_def demo_assembly_def create_memory_def start_function_def
        load_module_def load_new_module_def create_store_def Let_def provider_get_add)
  from updated_code_is_stale [OF this, of "''f''" demo_request] show ?thesis
    by (simp only: Let_def) blast
qed

end
