(* ===== verification/Gateway_Manager.thy ===== *)
theory Gateway_Manager
  imports Service_Registry Http_Common
begin

text \<open>
  The gateway manager, \<open>src/rust-libs/gateway/src/lib.rs\<close>: the table of deployed gateways, path
  matching, and the handler that routes an HTTP request to a user function and reports usage.
  The HTTP server is third-party: its view of a request is the record \<open>http_request\<close>, and the
  header, query string and status code checks of its libraries are the parameter \<open>http_env\<close>.
\<close>

section \<open>The table of gateways\<close>

definition get_deployed_gateway_names :: "StackID \<Rightarrow> (Gateway registry, string, string list option) act" where
  "get_deployed_gateway_names i = (\<lambda>g. (Inr (map_option (map fst) (map_of g i)), g))"

definition strip_leading_slash :: "string \<Rightarrow> string" where
  "strip_leading_slash k = (case str_strip_prefix ''/'' k of Some r \<Rightarrow> r | None \<Rightarrow> k)"

definition incoming_gateway :: "Gateway \<Rightarrow> Gateway" where
  "incoming_gateway g =
     g\<lparr>gw_endpoints := hm_from_pairs (map (\<lambda>(k, v). (strip_leading_slash k, v)) (gw_endpoints g))\<rparr>"

definition deploy_gateways_entry :: "StackID \<Rightarrow> Gateway registry \<Rightarrow> Gateway registry" where
  "deploy_gateways_entry i g = (if map_of g i = None then AList.update i [] g else g)"

definition manager_deploy_gateways :: "StackID \<Rightarrow> Gateway list \<Rightarrow> (Gateway registry, string, unit) act" where
  "manager_deploy_gateways i gws = (\<lambda>g. (Inr (),
     fold (\<lambda>gw. reg_insert i (gw_name gw) (incoming_gateway gw)) gws (deploy_gateways_entry i g)))"

definition manager_delete_gateways :: "StackID \<Rightarrow> string list \<Rightarrow> (Gateway registry, string, unit) act" where
  "manager_delete_gateways i ns = (\<lambda>g. (Inr (), fold (reg_delete i) ns g))"

definition manager_delete_all_gateways :: "StackID \<Rightarrow> (Gateway registry, string, unit) act" where
  "manager_delete_all_gateways i = (\<lambda>g. (Inr (), AList.delete i g))"

text \<open>The names as a list, the way the deployment code reads the answer.\<close>

definition gateway_names :: "StackID \<Rightarrow> (Gateway registry, string, string list) act" where
  "gateway_names i =
     act_bind (act_unwrap_or (Some []) (get_deployed_gateway_names i)) (\<lambda>x. act_ok (case_option [] id x))"

lemma reg_view_entry_created [simp]: "reg_view (deploy_gateways_entry i g) = reg_view g"
  by (auto simp: deploy_gateways_entry_def reg_view_def fun_eq_iff hm_simps)

lemma reg_wf_entry_created [simp]: "reg_wf g \<Longrightarrow> reg_wf (deploy_gateways_entry i g)"
  by (auto simp: deploy_gateways_entry_def reg_wf_def hm_simps)

lemma gateway_names_ok: "gateway_names i g = (Inr (map fst (reg_entry i g)), g)"
  by (simp add: gateway_names_def get_deployed_gateway_names_def act_bind_def act_unwrap_or_def reg_entry_def
      split: option.splits)

interpretation gateway_registry: service_registry manager_deploy_gateways gateway_names
  manager_delete_gateways manager_delete_all_gateways gw_name incoming_gateway "\<lambda>_ _. True" reg_view reg_wf
proof
  show "\<exists>ns. gateway_names i w = (Inr ns, w) \<and> set ns = dom (reg_view w i)" for i w
    by (simp add: gateway_names_ok reg_view_entry dom_map_of_conv_image_fst)
qed (simp_all add: manager_deploy_gateways_def manager_delete_gateways_def manager_delete_all_gateways_def
    reg_insert_fold reg_delete_fold hm_simps)

section \<open>Matching paths\<close>

type_synonym path_params = "(string, string) hash_map"

definition is_param :: "string \<Rightarrow> bool" where
  "is_param s \<longleftrightarrow> s \<noteq> [] \<and> hd s = CHR ''{'' \<and> last s = CHR ''}''"

definition param_name :: "string \<Rightarrow> string" where
  "param_name s = butlast (tl s)"

fun match_segments :: "string list \<Rightarrow> string list \<Rightarrow> nat \<Rightarrow> path_params \<Rightarrow> (nat \<times> path_params) option" where
  "match_segments (r # rs) (e # es) score params =
     (if r = e then match_segments rs es (score + length r) params
      else if is_param e then match_segments rs es score (AList.update (param_name e) r params)
      else None)"
| "match_segments [] [] score params = Some (score, params)"
| "match_segments _ _ score params = None"

definition match_path_and_extract_path_params :: "string \<Rightarrow> string \<Rightarrow> (nat \<times> path_params) option" where
  "match_path_and_extract_path_params request_path endpoint_path =
     match_segments (split_str (CHR ''/'') request_path) (split_str (CHR ''/'') endpoint_path) 0 []"

section \<open>Handling a request\<close>

record http_request =
  hq_stack_id :: string
  hq_gateway_name :: string
  hq_path :: string
  hq_uri_path :: string
  hq_query_string :: string
  hq_method :: string
  hq_headers :: "(string \<times> bytes) list"

record http_env =
  he_unb58 :: "string \<Rightarrow> bytes option"
  he_header_to_str :: "bytes \<Rightarrow> string option"
  he_parse_query :: "string \<Rightarrow> (string, string) hash_map option"
  he_valid_status :: "u16 \<Rightarrow> bool"

datatype gateway_notification = GatewayReportUsage StackID u64 u64

definition calculate_request_size :: "http_request \<Rightarrow> bytes option \<Rightarrow> u64" where
  "calculate_request_size r payload =
     word_of_nat (length (hq_uri_path r)) + word_of_nat (length (hq_query_string r))
     + sum_list (map (\<lambda>(k, v). word_of_nat (length k) + word_of_nat (length v)) (hq_headers r))
     + (case payload of Some p \<Rightarrow> word_of_nat (length p) | None \<Rightarrow> 0)"

definition calculate_response_size :: "Response \<Rightarrow> u64" where
  "calculate_response_size r =
     sum_list (map (\<lambda>h. word_of_nat (length (hd_name h)) + word_of_nat (length (hd_value h))) (rs_headers r))
     + word_of_nat (length (rs_body r))"

definition bad_request :: "string \<Rightarrow> Response" where
  "bad_request description = body_from_string description (builder_status 400 builder_new)"

definition not_found :: Response where
  "not_found = body_from_str (case status_reason 404 of Some s \<Rightarrow> s | None \<Rightarrow> []) (builder_status 404 builder_new)"

definition internal_error :: "string \<Rightarrow> Response" where
  "internal_error description = body_from_string description (builder_status 500 builder_new)"

text \<open>\<open>respond_to\<close>: an invalid status code is answered as an internal error, which is valid.\<close>

definition respond_to :: "http_env \<Rightarrow> Response \<Rightarrow> Response" where
  "respond_to env r = (if he_valid_status env (rs_status r) then r
     else internal_error ''Invalid status code received from user function'')"

text \<open>The method of the request; another method than these is a panic, excluded by the guards of the route.\<close>

definition actix_http_method_to_stack :: "string \<Rightarrow> HttpMethod option" where
  "actix_http_method_to_stack m =
     (if m = ''GET'' then Some Get else if m = ''POST'' then Some Post else if m = ''PUT'' then Some Put
      else if m = ''DELETE'' then Some Delete else if m = ''OPTIONS'' then Some Options
      else if m = ''PATCH'' then Some Patch else if m = ''HEAD'' then Some Head else None)"

definition matched_endpoints ::
  "string \<Rightarrow> Gateway \<Rightarrow> ((nat \<times> path_params) \<times> (HttpMethod, AssemblyAndFunction) hash_map) list" where
  "matched_endpoints request_path gateway =
     filter_map (\<lambda>(path, eps). map_option (\<lambda>m. (m, eps)) (match_path_and_extract_path_params request_path path))
       (gw_endpoints gateway)"

definition route :: "string \<Rightarrow> HttpMethod \<Rightarrow> Gateway \<Rightarrow> (AssemblyAndFunction \<times> path_params) option" where
  "route request_path meth gateway =
     (case rev (sort_key (\<lambda>((score, _), _). score) (matched_endpoints request_path gateway)) of
        [] \<Rightarrow> None
      | ((_, path_params), eps) # _ \<Rightarrow> map_option (\<lambda>(_, f). (f, path_params)) (find (\<lambda>(m, _). m = meth) eps))"

definition request_headers :: "http_env \<Rightarrow> (string \<times> bytes) list \<Rightarrow> Header list option" where
  "request_headers env hs =
     (case collect_res (\<lambda>(k, v). ok_or () (map_option (\<lambda>s. \<lparr>hd_name = k, hd_value = s\<rparr>) (he_header_to_str env v))) hs of
        Inl _ \<Rightarrow> None | Inr r \<Rightarrow> Some r)"

text \<open>
  The handler up to the invocation of the user function: either an answer, or the function to
  call and its request. \<open>None\<close> is the panic on an unexpected method.
\<close>

definition prepare_request ::
  "http_env \<Rightarrow> Gateway registry \<Rightarrow> http_request \<Rightarrow> bytes option \<Rightarrow> (Response + FunctionID \<times> Request) option" where
  "prepare_request env gws r payload =
     (case stack_id_from_str (he_unb58 env) (hq_stack_id r) of
        Inl _ \<Rightarrow> Some (Inl not_found)
      | Inr stack_id \<Rightarrow>
     (case actix_http_method_to_stack (hq_method r) of
        None \<Rightarrow> None
      | Some meth \<Rightarrow>
     (case request_headers env (hq_headers r) of
        None \<Rightarrow> Some (Inl (bad_request ''Invalid header values in request''))
      | Some headers \<Rightarrow>
     (case he_parse_query env (hq_query_string r) of
        None \<Rightarrow> Some (Inl (bad_request ''Invalid query string''))
      | Some query_params \<Rightarrow>
     (case reg_view gws stack_id (hq_gateway_name r) of
        None \<Rightarrow> Some (Inl not_found)
      | Some gateway \<Rightarrow>
     (case route (hq_path r) meth gateway of
        None \<Rightarrow> Some (Inl not_found)
      | Some (f, path_params) \<Rightarrow>
          Some (Inr (\<lparr>fid_assembly_id = \<lparr>aid_stack_id = stack_id, aid_assembly_name = af_assembly f\<rparr>,
                      fid_function_name = af_function f\<rparr>,
                     \<lparr>rq_method = meth, rq_path_params = path_params, rq_query_params = query_params,
                      rq_headers = headers, rq_body = (case payload of Some p \<Rightarrow> p | None \<Rightarrow> [])\<rparr>))))))))"

definition handle_request ::
  "http_env \<Rightarrow> (FunctionID \<Rightarrow> Request \<Rightarrow> ('w, string, Response) act) \<Rightarrow> Gateway registry \<Rightarrow> http_request \<Rightarrow>
     bytes option \<Rightarrow> 'w \<Rightarrow> (Response \<times> gateway_notification list \<times> 'w) option" where
  "handle_request env invoke gws r payload w =
     (let traffic = calculate_request_size r payload
      in case prepare_request env gws r payload of
           None \<Rightarrow> None
         | Some (Inl answer) \<Rightarrow> Some (answer, [], w)
         | Some (Inr (fid, request)) \<Rightarrow>
             (case invoke fid request w of
                (Inr resp, w') \<Rightarrow>
                  Some (resp, [GatewayReportUsage (function_id_stack_id fid)
                    (traffic + calculate_response_size resp) 1], w')
              | (Inl _, w') \<Rightarrow>
                  Some (internal_error ''User function failure'',
                    [GatewayReportUsage (function_id_stack_id fid) traffic 1], w')))"

section \<open>What matching and routing compute\<close>

definition segment_ok :: "string \<Rightarrow> string \<Rightarrow> bool" where
  "segment_ok r e \<longleftrightarrow> r = e \<or> is_param e"

definition segment_score :: "string \<Rightarrow> string \<Rightarrow> nat" where
  "segment_score r e = (if r = e then length r else 0)"

lemma match_segments_iff:
  "match_segments rs es score params = Some (s, q) \<longleftrightarrow>
     list_all2 segment_ok rs es \<and> s = score + sum_list (map2 segment_score rs es)
     \<and> q = fold (\<lambda>(r, e) m. if r = e then m else AList.update (param_name e) r m) (zip rs es) params"
  by (induction rs es score params rule: match_segments.induct)
    (auto simp: segment_ok_def segment_score_def)

lemma match_segments_self: "match_segments rs rs score params = Some (score + sum_list (map length rs), params)"
  by (induction rs arbitrary: score) simp_all

lemma match_segments_le:
  "match_segments rs es score params = Some (s, q) \<Longrightarrow> s \<le> score + sum_list (map length rs)"
proof (induction rs es score params rule: match_segments.induct)
  case (1 r rs e es score params)
  then show ?case by (fastforce split: if_splits)
qed simp_all

lemma match_segments_full:
  "match_segments rs es score params = Some (s, q) \<Longrightarrow> s = score + sum_list (map length rs) \<Longrightarrow>
     [] \<notin> set rs \<Longrightarrow> es = rs"
proof (induction rs es score params rule: match_segments.induct)
  case (1 r rs e es score params)
  show ?case
  proof (cases "r = e")
    case False
    with 1 have "s \<le> score + sum_list (map length rs)"
      by (auto split: if_splits dest: match_segments_le)
    with 1 show ?thesis by simp
  qed (use 1 in auto)
qed simp_all

lemma split_str_inject: "split_str c s = split_str c t \<Longrightarrow> s = t"
  by (metis join_split_str)

lemma last_sort_key:
  assumes "xs \<noteq> []"
  shows "last (sort_key f xs) \<in> set xs" and "x \<in> set xs \<Longrightarrow> f x \<le> f (last (sort_key f xs))"
proof -
  have ne: "sort_key f xs \<noteq> []" using assms by (metis length_0_conv length_sort)
  then show "last (sort_key f xs) \<in> set xs" using last_in_set by force
  assume "x \<in> set xs"
  then obtain i where i: "i < length xs" "sort_key f xs ! i = x" by (metis in_set_conv_nth length_sort set_sort)
  moreover have "map f (sort_key f xs) ! i \<le> map f (sort_key f xs) ! (length xs - 1)"
    using i by (intro sorted_nth_mono) simp_all
  ultimately show "f x \<le> f (last (sort_key f xs))" using ne by (simp add: last_conv_nth)
qed

lemma in_matched_endpoints:
  "((score, params), eps) \<in> set (matched_endpoints rp g) \<longleftrightarrow>
     (\<exists>path. (path, eps) \<in> set (gw_endpoints g) \<and> match_path_and_extract_path_params rp path = Some (score, params))"
  by (force simp: matched_endpoints_def set_filter_map)

lemma find_method: "map_option (\<lambda>(_, f). (f, p)) (find (\<lambda>(m, _). m = meth) eps) = map_option (\<lambda>f. (f, p)) (map_of eps meth)"
  by (induction eps) auto

lemma rev_sort_cases:
  "rev (sort_key f xs) = (if xs = [] then [] else last (sort_key f xs) # rev (butlast (sort_key f xs)))"
proof (cases "xs = []")
  case False
  then have "sort_key f xs \<noteq> []" by (metis length_0_conv length_sort)
  with False show ?thesis by (metis append_butlast_last_id rev.simps(2) rev_append rev_singleton_conv append_Cons append_Nil)
qed simp

lemma route_cases:
  obtains (none) "matched_endpoints rp g = []" "route rp meth g = None"
  | (best) path eps score params where "(path, eps) \<in> set (gw_endpoints g)"
      "match_path_and_extract_path_params rp path = Some (score, params)"
      "route rp meth g = map_option (\<lambda>f. (f, params)) (map_of eps meth)"
      "\<And>path' eps' s' p'. (path', eps') \<in> set (gw_endpoints g) \<Longrightarrow>
         match_path_and_extract_path_params rp path' = Some (s', p') \<Longrightarrow> s' \<le> score"
proof (cases "matched_endpoints rp g = []")
  case True
  then show ?thesis by (rule none) (simp add: route_def True)
next
  case False
  let ?f = "\<lambda>((score, _), _). score" and ?xs = "matched_endpoints rp g"
  obtain score params eps where l: "last (sort_key ?f ?xs) = ((score, params), eps)" by (metis surj_pair)
  then have "((score, params), eps) \<in> set ?xs" using last_sort_key(1) [OF False, of ?f] by simp
  then obtain path where path: "(path, eps) \<in> set (gw_endpoints g)"
    "match_path_and_extract_path_params rp path = Some (score, params)" by (auto simp: in_matched_endpoints)
  show ?thesis
  proof (rule best [OF path])
    show "route rp meth g = map_option (\<lambda>f. (f, params)) (map_of eps meth)"
      using False l by (simp add: route_def rev_sort_cases find_method)
    show "s' \<le> score" if "(path', eps') \<in> set (gw_endpoints g)"
      "match_path_and_extract_path_params rp path' = Some (s', p')" for path' eps' s' p'
    proof -
      from that have "((s', p'), eps') \<in> set ?xs" by (auto simp: in_matched_endpoints)
      from last_sort_key(2) [OF False this, of ?f] l show ?thesis by simp
    qed
  qed
qed

lemma route_literal:
  assumes "distinct (map fst (gw_endpoints g))" and "map_of (gw_endpoints g) path = Some eps"
    and "[] \<notin> set (split_str (CHR ''/'') path)"
  shows "route path meth g = map_option (\<lambda>f. (f, [])) (map_of eps meth)"
proof -
  let ?segs = "split_str (CHR ''/'') path"
  have self: "match_path_and_extract_path_params path path = Some (sum_list (map length ?segs), [])"
    by (simp add: match_path_and_extract_path_params_def match_segments_self)
  have mem: "(path, eps) \<in> set (gw_endpoints g)" using assms(2) by (rule hm_get_Some_in)
  show ?thesis
  proof (cases rule: route_cases [of path g meth])
    case none
    with mem self show ?thesis using in_matched_endpoints [of _ _ eps path g] by fastforce
  next
    case (best path' eps' score params)
    have "score \<le> sum_list (map length ?segs)"
      using best(2) match_segments_le [of ?segs "split_str (CHR ''/'') path'" 0 "[]"]
      by (simp add: match_path_and_extract_path_params_def)
    moreover have "sum_list (map length ?segs) \<le> score" using best(4) [OF mem self] .
    ultimately have "split_str (CHR ''/'') path' = ?segs"
      using best(2) match_segments_full [of ?segs "split_str (CHR ''/'') path'" 0 "[]" score params] assms(3)
      by (simp add: match_path_and_extract_path_params_def)
    then have p: "path' = path" by (rule split_str_inject)
    with best(1) mem assms(1) have "eps' = eps" by (metis map_of_is_SomeI option.inject)
    moreover have "params = []" using best(2) self p by simp
    ultimately show ?thesis using best(3) by simp
  qed
qed

definition demo_id :: StackID where
  "demo_id = SolanaPublicKey (replicate 32 7)"

definition demo_function :: AssemblyAndFunction where
  "demo_function = \<lparr>af_assembly = ''m'', af_function = ''f''\<rparr>"

definition demo_gateway :: Gateway where
  "demo_gateway = \<lparr>gw_name = ''g'', gw_endpoints =
     [(''a/{x}'', [(Get, demo_function)]), (''{y}/{x}'', [(Post, demo_function)]), (''c'', [(Get, demo_function)])]\<rparr>"

definition demo_http_env :: http_env where
  "demo_http_env = \<lparr>he_unb58 = hex_decode, he_header_to_str = (\<lambda>b. from_utf8 b),
     he_parse_query = (\<lambda>s. if s = [] then Some [] else None), he_valid_status = (\<lambda>c. 100 \<le> c \<and> c < 1000)\<rparr>"

section \<open>Properties\<close>





end
