(* ===== verification/Db_Keys.thy ===== *)
theory Db_Keys
  imports Mu_Stack "HOL-Library.List_Lexorder" "HOL-Library.Sublist"
begin

text \<open>
  Keys of the database, \<open>src/rust-libs/db/src/types.rs\<close>: how a key of a stack's table and an
  entry of the table list become byte strings of TiKV, how they are read back, and the ranges
  that scans ask for. \<open>None\<close> is a panic (an assertion or an \<open>unwrap\<close> that fails). TiKV orders
  keys as byte strings, which is the lexicographic order of the library.
\<close>

section \<open>Chunks\<close>

definition TABLE_LIST_METADATA :: string where
  "TABLE_LIST_METADATA = ''__tlm''"

definition push_len :: "bytes \<Rightarrow> bytes option" where
  "push_len chunk = (if length chunk \<le> 255 then Some (word_of_nat (length chunk) # chunk) else None)"

definition tikv_key_from_3_chunk :: "bytes \<Rightarrow> bytes \<Rightarrow> bytes \<Rightarrow> bytes option" where
  "tikv_key_from_3_chunk first second third =
     Option.bind (push_len first) (\<lambda>x. Option.bind (push_len second) (\<lambda>y. Some (x @ y @ third)))"

datatype key_error =
    InsufficientBlobs | NotTableListKey | BadStackId stack_id_bytes_error | BadUtf8 | TableNameTooLong

definition split_at :: "bytes \<Rightarrow> nat \<Rightarrow> key_error + bytes \<times> bytes" where
  "split_at x y = (if length x < y then Inl InsufficientBlobs else Inr (take y x, drop y x))"

definition split_first :: "bytes \<Rightarrow> key_error + u8 \<times> bytes" where
  "split_first x = res_bind (split_at x 1) (\<lambda>(x, y). Inr (last x, y))"

definition three_chunk_try_from_tikv_key :: "bytes \<Rightarrow> key_error + bytes \<times> bytes \<times> bytes" where
  "three_chunk_try_from_tikv_key x =
     res_bind (split_first x) (\<lambda>(a_size, x).
     res_bind (split_at x (unat a_size)) (\<lambda>(a, x).
     res_bind (split_first x) (\<lambda>(b_size, x).
     res_bind (split_at x (unat b_size)) (\<lambda>(b, c). Inr (a, b, c)))))"

section \<open>Table names and keys\<close>

type_synonym TableName = string

definition table_name_try_from :: "string \<Rightarrow> key_error + TableName" where
  "table_name_try_from v = (if 255 < length (as_bytes v) then Inl TableNameTooLong else Inr v)"

definition table_name_try_from_blob :: "bytes \<Rightarrow> key_error + TableName" where
  "table_name_try_from_blob b = res_bind (ok_or BadUtf8 (from_utf8 b)) table_name_try_from"

record TableListKey =
  tl_stack_id :: StackID
  tl_table_name :: TableName

record Key =
  k_stack_id :: StackID
  k_table_name :: TableName
  k_inner_key :: bytes

definition table_list_key_to_tikv :: "TableListKey \<Rightarrow> bytes option" where
  "table_list_key_to_tikv k =
     tikv_key_from_3_chunk (as_bytes TABLE_LIST_METADATA) (stack_id_to_bytes (tl_stack_id k))
       (as_bytes (tl_table_name k))"

definition table_list_key_try_from :: "bytes \<Rightarrow> key_error + TableListKey" where
  "table_list_key_try_from v =
     res_bind (three_chunk_try_from_tikv_key v) (\<lambda>(a, b, c).
       if as_bytes TABLE_LIST_METADATA \<noteq> a then Inl NotTableListKey
       else res_bind (map_err BadStackId (stack_id_try_from_bytes b)) (\<lambda>i.
            res_bind (table_name_try_from_blob c) (\<lambda>t. Inr \<lparr>tl_stack_id = i, tl_table_name = t\<rparr>)))"

definition key_to_blob :: "Key \<Rightarrow> bytes option" where
  "key_to_blob k =
     tikv_key_from_3_chunk (stack_id_to_bytes (k_stack_id k)) (as_bytes (k_table_name k)) (k_inner_key k)"

definition key_try_from :: "bytes \<Rightarrow> key_error + Key" where
  "key_try_from v =
     res_bind (three_chunk_try_from_tikv_key v) (\<lambda>(a, b, c).
     res_bind (map_err BadStackId (stack_id_try_from_bytes a)) (\<lambda>i.
     res_bind (table_name_try_from_blob b) (\<lambda>t.
       Inr \<lparr>k_stack_id = i, k_table_name = t, k_inner_key = c\<rparr>)))"

section \<open>Ranges\<close>

type_synonym bound_range = "bytes option \<times> bytes option"

definition in_range :: "bound_range \<Rightarrow> bytes \<Rightarrow> bool" where
  "in_range r k \<longleftrightarrow>
     (case fst r of None \<Rightarrow> True | Some lo \<Rightarrow> lo \<le> k) \<and> (case snd r of None \<Rightarrow> True | Some hi \<Rightarrow> k < hi)"

text \<open>The loop of \<open>subset_range\<close> over the reversed prefix: the carry flag and the bytes pushed.\<close>

fun upper_loop :: "bytes \<Rightarrow> bool \<Rightarrow> bytes \<Rightarrow> bool \<times> bytes" where
  "upper_loop [] mx to = (mx, to)"
| "upper_loop (byte # rest) mx to =
     (if mx then
        if byte = 255 then upper_loop rest True (to @ [0])
        else upper_loop rest False (to @ [byte + 1])
      else upper_loop rest False (to @ [byte]))"

definition subset_range :: "bytes \<Rightarrow> bound_range" where
  "subset_range from =
     (if from = [] then (None, None)
      else case upper_loop (rev from) True [] of (mx, to) \<Rightarrow>
        if mx then (Some from, None) else (Some from, Some (rev to)))"

definition prefixed_by_a_chunk_bound_range :: "bytes \<Rightarrow> bound_range option" where
  "prefixed_by_a_chunk_bound_range chunk = Option.bind (push_len chunk) (\<lambda>b. Some (subset_range b))"

definition prefixed_by_two_chunk_bound_range :: "bytes \<Rightarrow> bytes \<Rightarrow> bound_range option" where
  "prefixed_by_two_chunk_bound_range first second =
     Option.bind (push_len first) (\<lambda>x. Option.bind (push_len second) (\<lambda>y. Some (subset_range (x @ y))))"

definition prefixed_by_three_chunk_bound_range :: "bytes \<Rightarrow> bytes \<Rightarrow> bytes \<Rightarrow> bound_range option" where
  "prefixed_by_three_chunk_bound_range first second third =
     Option.bind (push_len first) (\<lambda>x. Option.bind (push_len second) (\<lambda>y.
       Some (subset_range (x @ y @ third))))"

datatype ScanTableList = Whole | ByStackID StackID | ListByTableName StackID TableName

fun scan_table_list_range :: "ScanTableList \<Rightarrow> bound_range option" where
  "scan_table_list_range Whole = prefixed_by_a_chunk_bound_range (as_bytes TABLE_LIST_METADATA)"
| "scan_table_list_range (ByStackID i) =
     prefixed_by_two_chunk_bound_range (as_bytes TABLE_LIST_METADATA) (stack_id_to_bytes i)"
| "scan_table_list_range (ListByTableName i t) =
     prefixed_by_three_chunk_bound_range (as_bytes TABLE_LIST_METADATA) (stack_id_to_bytes i) (as_bytes t)"

datatype Scan = ByTableName StackID TableName | ByInnerKeyPrefix StackID TableName bytes

fun scan_range :: "Scan \<Rightarrow> bound_range option" where
  "scan_range (ByTableName i t) = prefixed_by_two_chunk_bound_range (stack_id_to_bytes i) (as_bytes t)"
| "scan_range (ByInnerKeyPrefix i t p) =
     prefixed_by_three_chunk_bound_range (stack_id_to_bytes i) (as_bytes t) p"

section \<open>Well-formed names and keys\<close>

definition table_name_wf :: "TableName \<Rightarrow> bool" where
  "table_name_wf t \<longleftrightarrow> valid_str t \<and> length t \<le> 255"

definition key_wf :: "Key \<Rightarrow> bool" where
  "key_wf k \<longleftrightarrow> stack_id_wf (k_stack_id k) \<and> table_name_wf (k_table_name k)"

definition table_list_key_wf :: "TableListKey \<Rightarrow> bool" where
  "table_list_key_wf k \<longleftrightarrow> stack_id_wf (tl_stack_id k) \<and> table_name_wf (tl_table_name k)"

text \<open>The encodings of well-formed keys, without the option.\<close>

definition key_blob :: "Key \<Rightarrow> bytes" where
  "key_blob k = 33 # stack_id_to_bytes (k_stack_id k)
     @ word_of_nat (length (k_table_name k)) # as_bytes (k_table_name k) @ k_inner_key k"

definition table_list_blob :: "TableListKey \<Rightarrow> bytes" where
  "table_list_blob k = 5 # as_bytes TABLE_LIST_METADATA
     @ 33 # stack_id_to_bytes (tl_stack_id k) @ as_bytes (tl_table_name k)"

lemma length_TABLE_LIST_METADATA [simp]: "length TABLE_LIST_METADATA = 5"
  by (simp add: TABLE_LIST_METADATA_def)

lemma key_to_blob_wf: "key_wf k \<Longrightarrow> key_to_blob k = Some (key_blob k)"
  by (simp add: key_to_blob_def key_wf_def table_name_wf_def tikv_key_from_3_chunk_def push_len_def key_blob_def)

lemma table_list_key_to_tikv_wf:
  "table_list_key_wf k \<Longrightarrow> table_list_key_to_tikv k = Some (table_list_blob k)"
  by (simp add: table_list_key_to_tikv_def table_list_key_wf_def table_name_wf_def
      tikv_key_from_3_chunk_def push_len_def table_list_blob_def)

lemma unat_byte: "unat (b :: u8) \<le> 255"
  using unsigned_less [of b, where 'a = nat] by simp

lemma unat_length_byte: "n \<le> 255 \<Longrightarrow> unat (word_of_nat n :: u8) = n"
  by (simp add: unat_of_nat)

lemma table_name_try_from_blob_Inr:
  "table_name_try_from_blob b = Inr t \<longleftrightarrow> table_name_wf t \<and> b = as_bytes t"
  by (force simp: table_name_try_from_blob_def table_name_try_from_def table_name_wf_def valid_str_def
      from_utf8_Some res_simps)

lemma split_first_Cons: "split_first (a # x) = Inr (a, x)"
  by (simp add: split_first_def split_at_def)

lemma split_first_Inr: "split_first x = Inr (a, y) \<longleftrightarrow> x = a # y"
  by (cases x) (auto simp: split_first_def split_at_def)

lemma split_at_Inr: "split_at x n = Inr (a, y) \<longleftrightarrow> x = a @ y \<and> length a = n"
  by (auto simp: split_at_def)

lemma three_chunk_Inr:
  "three_chunk_try_from_tikv_key v = Inr (a, b, c) \<longleftrightarrow>
     length a \<le> 255 \<and> length b \<le> 255
     \<and> v = word_of_nat (length a) # a @ word_of_nat (length b) # b @ c"
proof
  assume "three_chunk_try_from_tikv_key v = Inr (a, b, c)"
  then obtain m n where "v = m # a @ n # b @ c" "length a = unat m" "length b = unat n"
    by (auto simp: three_chunk_try_from_tikv_key_def res_simps split_first_Inr split_at_Inr)
  moreover have "unat m \<le> 255" "unat n \<le> 255" by (rule unat_byte)+
  ultimately show "length a \<le> 255 \<and> length b \<le> 255
     \<and> v = word_of_nat (length a) # a @ word_of_nat (length b) # b @ c" by simp
next
  assume "length a \<le> 255 \<and> length b \<le> 255
     \<and> v = word_of_nat (length a) # a @ word_of_nat (length b) # b @ c"
  then show "three_chunk_try_from_tikv_key v = Inr (a, b, c)"
    by (simp add: three_chunk_try_from_tikv_key_def split_first_Cons split_at_def unat_length_byte)
qed

lemma key_try_from_Inr: "key_try_from v = Inr k \<longleftrightarrow> key_wf k \<and> v = key_blob k"
proof
  assume "key_try_from v = Inr k"
  then show "key_wf k \<and> v = key_blob k"
    by (auto simp: key_try_from_def res_simps three_chunk_Inr stack_id_try_from_bytes_Inr
        table_name_try_from_blob_Inr key_wf_def key_blob_def split_beta)
next
  assume k: "key_wf k \<and> v = key_blob k"
  then have "three_chunk_try_from_tikv_key v =
      Inr (stack_id_to_bytes (k_stack_id k), as_bytes (k_table_name k), k_inner_key k)"
    by (simp add: three_chunk_Inr key_wf_def table_name_wf_def key_blob_def)
  moreover have "stack_id_try_from_bytes (stack_id_to_bytes (k_stack_id k)) = Inr (k_stack_id k)"
    "table_name_try_from_blob (as_bytes (k_table_name k)) = Inr (k_table_name k)"
    using k by (simp_all add: stack_id_try_from_bytes_Inr table_name_try_from_blob_Inr key_wf_def)
  ultimately show "key_try_from v = Inr k" by (simp add: key_try_from_def)
qed

lemma table_list_key_try_from_Inr:
  "table_list_key_try_from v = Inr k \<longleftrightarrow> table_list_key_wf k \<and> v = table_list_blob k"
proof
  assume "table_list_key_try_from v = Inr k"
  then show "table_list_key_wf k \<and> v = table_list_blob k"
    by (auto simp: table_list_key_try_from_def res_simps three_chunk_Inr stack_id_try_from_bytes_Inr
        table_name_try_from_blob_Inr table_list_key_wf_def table_list_blob_def split_beta split: if_splits)
next
  assume k: "table_list_key_wf k \<and> v = table_list_blob k"
  then have "three_chunk_try_from_tikv_key v =
      Inr (as_bytes TABLE_LIST_METADATA, stack_id_to_bytes (tl_stack_id k), as_bytes (tl_table_name k))"
    by (simp add: three_chunk_Inr table_list_key_wf_def table_name_wf_def table_list_blob_def)
  moreover have "stack_id_try_from_bytes (stack_id_to_bytes (tl_stack_id k)) = Inr (tl_stack_id k)"
    "table_name_try_from_blob (as_bytes (tl_table_name k)) = Inr (tl_table_name k)"
    using k by (simp_all add: stack_id_try_from_bytes_Inr table_name_try_from_blob_Inr table_list_key_wf_def)
  ultimately show "table_list_key_try_from v = Inr k" by (simp add: table_list_key_try_from_def)
qed

interpretation db_key: exact_conversion key_blob key_try_from key_wf
  by unfold_locales (simp add: key_try_from_Inr)

interpretation list_key: exact_conversion table_list_blob table_list_key_try_from table_list_key_wf
  by unfold_locales (simp add: table_list_key_try_from_Inr)

lemma key_not_table_list: "key_blob k \<noteq> table_list_blob l"
  by (simp add: key_blob_def table_list_blob_def)

section \<open>What a range contains\<close>

lemma append_less_append [simp]: "p @ x < p @ y \<longleftrightarrow> x < (y :: 'a::order list)"
  by (induction p) simp_all

lemma append_le_append [simp]: "p @ x \<le> p @ y \<longleftrightarrow> x \<le> (y :: 'a::order list)"
  by (induction p) simp_all

lemma upper_loop_False: "upper_loop xs False to = (False, to @ xs)"
  by (induction xs arbitrary: to) simp_all

lemma upper_loop_carry: "upper_loop (replicate n 255 @ xs) True to = upper_loop xs True (to @ replicate n 0)"
  by (induction n arbitrary: to) simp_all

lemma byte_split: "(\<exists>p b n. b \<noteq> 255 \<and> x = p @ b # replicate n 255) \<or> (\<exists>n. x = replicate n (255::u8))"
proof (induction x rule: rev_induct)
  case (snoc b x)
  show ?case
  proof (cases "b = 255")
    case True
    have *: "replicate n (255::u8) @ [255] = replicate (Suc n) 255" for n
      by (simp add: replicate_append_same)
    from snoc True show ?thesis by (metis * append.assoc append_Cons)
  next
    case False
    then have "x @ [b] = x @ b # replicate 0 255" by simp
    with False show ?thesis by blast
  qed
qed (metis replicate_0)

lemma subset_range_bounds:
  "b \<noteq> 255 \<Longrightarrow> subset_range (p @ b # replicate n 255) =
     (Some (p @ b # replicate n 255), Some (p @ (b + 1) # replicate n 0))"
  by (simp add: subset_range_def upper_loop_carry upper_loop_False rev_replicate)

lemma full_le_iff: "replicate n (255::u8) \<le> k \<longleftrightarrow> prefix (replicate n 255) k"
proof (induction n arbitrary: k)
  case (Suc n)
  have "\<not> (255::u8) < c" for c using unat_byte [of c] by (simp add: word_less_nat_alt)
  with Suc show ?case by (cases k) auto
qed simp

lemma less_zeros_iff: "k < replicate n (0::u8) \<longleftrightarrow> (\<exists>m < n. k = replicate m 0)"
proof (induction n arbitrary: k)
  case (Suc n)
  show ?case
  proof (cases k)
    case Nil
    then show ?thesis by (auto intro: exI [of _ 0])
  next
    case (Cons c k')
    have "(\<exists>m < Suc n. c # k' = replicate m 0) \<longleftrightarrow> c = 0 \<and> (\<exists>m < n. k' = replicate m 0)"
      by (auto simp: less_Suc_eq_0_disj)
    with Cons Suc show ?thesis by simp
  qed
qed simp

lemma byte_succ_less: "b \<noteq> (255::u8) \<Longrightarrow> c < b + 1 \<longleftrightarrow> c \<le> b"
proof -
  assume "b \<noteq> 255"
  then have "unat b \<noteq> 255" by (auto simp: word_unat_eq_iff)
  then have "unat b < 255" using unat_byte [of b] by simp
  then have "unat (b + 1) = unat b + 1" by (simp add: unat_word_ariths)
  then show ?thesis by (auto simp: word_less_nat_alt word_le_nat_alt)
qed

lemma subset_range_in:
  assumes "b \<noteq> 255"
  shows "in_range (subset_range (p @ b # replicate n 255)) k \<longleftrightarrow>
     prefix (p @ b # replicate n 255) k \<or> (\<exists>m < n. k = p @ (b + 1) # replicate m 0)"
proof -
  have "p @ b # replicate n 255 \<le> k \<and> k < p @ (b + 1) # replicate n 0 \<longleftrightarrow>
     prefix (p @ b # replicate n 255) k \<or> (\<exists>m < n. k = p @ (b + 1) # replicate m 0)"
  proof (induction p arbitrary: k)
    case Nil
    have "b < b + 1" using assms byte_succ_less by blast
    with assms show ?case
      by (cases k) (auto simp: full_le_iff less_zeros_iff byte_succ_less)
  next
    case (Cons d p)
    then show ?case by (cases k) auto
  qed
  then show ?thesis by (simp add: subset_range_bounds [OF assms] in_range_def)
qed

lemma subset_range_exact:
  assumes "x = [] \<or> last x \<noteq> 255"
  shows "in_range (subset_range x) k \<longleftrightarrow> prefix x k"
proof (cases "x = []")
  case False
  with assms subset_range_in [of "last x" "butlast x" 0 k] show ?thesis by simp
qed (simp add: subset_range_def in_range_def)

text \<open>A UTF-8 string never ends in the byte FF.\<close>

lemma utf8_valid_last: "utf8_valid b \<Longrightarrow> b \<noteq> [] \<Longrightarrow> last b \<noteq> 255"
  by (induction b rule: utf8_valid.induct)
    (auto simp: utf8_cont_def split: if_splits list.splits)

definition table_prefix :: "StackID \<Rightarrow> TableName \<Rightarrow> bytes" where
  "table_prefix i t = key_blob \<lparr>k_stack_id = i, k_table_name = t, k_inner_key = []\<rparr>"

lemma key_blob_split: "key_blob k = table_prefix (k_stack_id k) (k_table_name k) @ k_inner_key k"
  by (simp add: table_prefix_def key_blob_def)

lemma table_prefix_last:
  assumes "table_name_wf t"
  shows "table_prefix i t \<noteq> [] \<and> last (table_prefix i t) \<noteq> 255"
proof (cases "t = []")
  case False
  then have "as_bytes t \<noteq> []" by (simp add: as_bytes_def)
  moreover from this have "last (as_bytes t) \<noteq> 255"
    using assms utf8_valid_last by (simp add: table_name_wf_def valid_str_def)
  ultimately show ?thesis by (simp add: table_prefix_def key_blob_def)
qed (simp add: table_prefix_def key_blob_def as_bytes_def)

lemma scan_range_wf:
  assumes "stack_id_wf i" and "table_name_wf t"
  shows "scan_range (ByTableName i t) = Some (subset_range (table_prefix i t))"
    and "scan_range (ByInnerKeyPrefix i t p) = Some (subset_range (table_prefix i t @ p))"
  using assms by (simp_all add: prefixed_by_two_chunk_bound_range_def prefixed_by_three_chunk_bound_range_def
      push_len_def table_name_wf_def table_prefix_def key_blob_def)

lemma table_prefix_of_key:
  assumes "key_wf k" and "stack_id_wf i" and "table_name_wf t"
  shows "prefix (table_prefix i t) (key_blob k) \<longleftrightarrow> k_stack_id k = i \<and> k_table_name k = t"
proof
  assume "prefix (table_prefix i t) (key_blob k)"
  then obtain c where c: "key_blob k = key_blob \<lparr>k_stack_id = i, k_table_name = t, k_inner_key = c\<rparr>"
    by (auto simp: prefix_def table_prefix_def key_blob_def)
  have "key_wf \<lparr>k_stack_id = i, k_table_name = t, k_inner_key = c\<rparr>"
    using assms by (simp add: key_wf_def)
  from db_key.enc_exact_inj [OF assms(1) this c] show "k_stack_id k = i \<and> k_table_name k = t" by simp
qed (auto simp: key_blob_split)

lemma table_list_not_in_table: "\<not> prefix (table_prefix i t) (table_list_blob l)"
  by (auto simp: prefix_def table_prefix_def key_blob_def table_list_blob_def)

definition demo_stack_id :: StackID where
  "demo_stack_id = SolanaPublicKey (replicate 32 7)"

lemma demo_names: "stack_id_wf demo_stack_id" "table_name_wf ''a''" "table_name_wf ''b''"
  by (simp_all add: demo_stack_id_def stack_id_wf_def pubkey_def SOLANA_PUBKEY_SIZE_def
      table_name_wf_def valid_str_def as_bytes_def byte_of_char_def)

section \<open>Properties\<close>

text \<open>
  C26. Database keys and table list entries round trip through their byte encodings: encoding
  a well-formed key never panics, the decoders answer a key exactly on its encoding, so that
  encodings are injective, and no key is confused with an entry of the table list.
\<close>

theorem db_key_roundtrip:
  "(key_try_from v = Inr k \<longleftrightarrow> key_wf k \<and> key_to_blob k = Some v)
   \<and> (table_list_key_try_from v = Inr l \<longleftrightarrow> table_list_key_wf l \<and> table_list_key_to_tikv l = Some v)
   \<and> \<not> (\<exists>k l. key_try_from v = Inr k \<and> table_list_key_try_from v = Inr l)"
  using key_to_blob_wf table_list_key_to_tikv_wf key_not_table_list
  by (auto simp: key_try_from_Inr table_list_key_try_from_Inr)

text \<open>
  C21. A scan of a table asks for exactly the keys of that table of that stack, and a scan by
  key prefix that does not end in the byte FF for exactly those whose key has the prefix:
  neither range contains a key of another table, nor an entry of the table list.
\<close>

theorem scan_range_exact:
  assumes "stack_id_wf i" and "table_name_wf t" and "key_wf k" and "p = [] \<or> last p \<noteq> 255"
  shows "\<exists>r s. scan_range (ByTableName i t) = Some r \<and> scan_range (ByInnerKeyPrefix i t p) = Some s
    \<and> (in_range r (key_blob k) \<longleftrightarrow> k_stack_id k = i \<and> k_table_name k = t)
    \<and> (in_range s (key_blob k) \<longleftrightarrow> k_stack_id k = i \<and> k_table_name k = t \<and> prefix p (k_inner_key k))
    \<and> \<not> in_range r (table_list_blob l) \<and> \<not> in_range s (table_list_blob l)"
proof -
  note tp = table_prefix_last [OF assms(2), of i]
  have r: "in_range (subset_range (table_prefix i t)) b \<longleftrightarrow> prefix (table_prefix i t) b" for b
    using tp by (intro subset_range_exact) simp
  have s: "in_range (subset_range (table_prefix i t @ p)) b \<longleftrightarrow> prefix (table_prefix i t @ p) b" for b
    using tp assms(4) by (cases "p = []") (auto intro!: subset_range_exact)
  have "prefix (table_prefix i t @ p) (key_blob k) \<longleftrightarrow>
      k_stack_id k = i \<and> k_table_name k = t \<and> prefix p (k_inner_key k)"
    using table_prefix_of_key [OF assms(3,1,2)] append_prefixD key_blob_split same_prefix_prefix by metis
  moreover have "\<not> prefix (table_prefix i t @ p) (table_list_blob l)"
    using table_list_not_in_table append_prefixD by blast
  ultimately show ?thesis
    using table_prefix_of_key [OF assms(3,1,2)] table_list_not_in_table
    by (simp add: scan_range_wf [OF assms(1,2)] r s del: scan_range.simps)
qed

theorem scan_range_exact_witness:
  "\<exists>r s. scan_range (ByTableName demo_stack_id ''a'') = Some r
    \<and> scan_range (ByInnerKeyPrefix demo_stack_id ''a'' [1]) = Some s
    \<and> in_range r (key_blob \<lparr>k_stack_id = demo_stack_id, k_table_name = ''a'', k_inner_key = [2]\<rparr>)
    \<and> \<not> in_range s (key_blob \<lparr>k_stack_id = demo_stack_id, k_table_name = ''a'', k_inner_key = [2]\<rparr>)
    \<and> \<not> in_range r (table_list_blob \<lparr>tl_stack_id = demo_stack_id, tl_table_name = ''a''\<rparr>)"
  using scan_range_exact [OF demo_names(1,2),
      of "\<lparr>k_stack_id = demo_stack_id, k_table_name = ''a'', k_inner_key = [2]\<rparr>" "[1]"
        "\<lparr>tl_stack_id = demo_stack_id, tl_table_name = ''a''\<rparr>"]
  by (auto simp: key_wf_def demo_names simp del: scan_range.simps)

text \<open>
  When the prefix is all FF bytes the range reaches into another table: with table names
  \<open>u\<close> followed by \<open>c\<close> and by its successor, the scan of the first table by the prefix FF
  contains the empty key of the second, so that deleting by that prefix deletes it.
\<close>

theorem prefix_scan_reaches_other_table:
  assumes "stack_id_wf i" and "table_name_wf (u @ [c])" and "table_name_wf (u @ [d])"
    and "byte_of_char d = byte_of_char c + 1"
  shows "\<exists>s. scan_range (ByInnerKeyPrefix i (u @ [c]) [255]) = Some s
    \<and> in_range s (key_blob \<lparr>k_stack_id = i, k_table_name = u @ [d], k_inner_key = []\<rparr>)
    \<and> u @ [d] \<noteq> u @ [c]"
proof -
  define q where "q = 33 # stack_id_to_bytes i @ word_of_nat (Suc (length u)) # as_bytes u"
  have c: "table_prefix i (u @ [c]) @ [255] = q @ byte_of_char c # replicate 1 255"
    by (simp add: table_prefix_def key_blob_def q_def as_bytes_def)
  have d: "key_blob \<lparr>k_stack_id = i, k_table_name = u @ [d], k_inner_key = []\<rparr> = q @ (byte_of_char c + 1) # replicate 0 0"
    using assms(4) by (simp add: key_blob_def q_def as_bytes_def)
  have ne: "byte_of_char c \<noteq> 255"
    using utf8_valid_last [of "as_bytes (u @ [c])"] assms(2)
    by (simp add: table_name_wf_def valid_str_def as_bytes_def)
  have "in_range (subset_range (q @ byte_of_char c # replicate 1 255)) (q @ (byte_of_char c + 1) # replicate 0 0)"
    unfolding subset_range_in [OF ne] by (intro disjI2 exI [of _ 0]) simp
  moreover have "d \<noteq> c" using assms(4) by auto
  ultimately show ?thesis
    by (simp add: scan_range_wf [OF assms(1,2)] c d del: scan_range.simps)
qed

theorem prefix_scan_reaches_other_table_witness:
  "\<exists>s. scan_range (ByInnerKeyPrefix demo_stack_id ''a'' [255]) = Some s
    \<and> in_range s (key_blob \<lparr>k_stack_id = demo_stack_id, k_table_name = ''b'', k_inner_key = []\<rparr>)"
  using prefix_scan_reaches_other_table [of demo_stack_id "[]" "CHR ''a''" "CHR ''b''"] demo_names
  by (simp add: byte_of_char_def del: scan_range.simps)

end
