(* ===== verification/Storage.thy ===== *)
theory Storage
  imports Mu_Stack Mu_Effects "HOL-Library.List_Lexorder" "HOL-Library.Char_ord" "HOL-Library.Sublist"
begin

text \<open>
  Object storage of users and stacks, \<open>src/rust-libs/storage/src/lib.rs\<close>: the paths of objects
  in the bucket, the manifest of a stack's storages kept under the prefix \<open>!\<close>, and the operations
  of \<open>StorageClientImpl\<close>. The S3 client is the parameter \<open>bucket\<close>: streaming an object is
  handing over its bytes, and a listing answers its pages. Base 58 is the parameter \<open>b58\<close>.
\<close>

section \<open>Paths\<close>

definition METADATA_PREFIX :: string where
  "METADATA_PREFIX = ''!''"

datatype storage_owner = OwnerUser StackOwner | OwnerStack StackID

fun path_prefix :: "(bytes \<Rightarrow> string) \<Rightarrow> storage_owner \<Rightarrow> string" where
  "path_prefix b58 (OwnerUser pk) = ''u!'' @ owner_to_string b58 pk"
| "path_prefix b58 (OwnerStack i) = ''s!'' @ stack_id_to_string b58 i"

definition create_path :: "(bytes \<Rightarrow> string) \<Rightarrow> storage_owner \<Rightarrow> string \<Rightarrow> string \<Rightarrow> string" where
  "create_path b58 owner storage_name key = path_prefix b58 owner @ ''/'' @ storage_name @ ''/'' @ key"

definition manifest_prefix :: "(bytes \<Rightarrow> string) \<Rightarrow> storage_owner \<Rightarrow> string" where
  "manifest_prefix b58 owner = METADATA_PREFIX @ ''/'' @ path_prefix b58 owner @ ''/''"

text \<open>\<open>match_indices('/').nth(n)\<close> and the rest of the key after that slash.\<close>

fun after_slash :: "nat \<Rightarrow> string \<Rightarrow> string option" where
  "after_slash n [] = None"
| "after_slash n (c # s) = (if c = CHR ''/'' then (case n of 0 \<Rightarrow> Some s | Suc m \<Rightarrow> after_slash m s) else after_slash n s)"

record storage_object =
  so_key :: string
  so_size :: u64

definition create_object :: "string \<times> u64 \<Rightarrow> storage_object" where
  "create_object obj = \<lparr>so_key = (case after_slash 1 (fst obj) of Some k \<Rightarrow> k | None \<Rightarrow> []), so_size = snd obj\<rparr>"

text \<open>\<open>split('/').last()\<close>.\<close>

definition last_segment :: "string \<Rightarrow> string" where
  "last_segment s = rev (takeWhile (\<lambda>c. c \<noteq> CHR ''/'') (rev s))"

section \<open>The bucket\<close>

record 'w bucket =
  bk_put :: "string \<Rightarrow> bytes \<Rightarrow> ('w, string, unit) act"
  bk_get :: "string \<Rightarrow> ('w, string, bytes) act"
  bk_delete :: "string \<Rightarrow> ('w, string, unit) act"
  bk_list :: "string \<Rightarrow> ('w, string, (string \<times> u64) list list) act"

text \<open>\<open>resp[0].contents\<close>: the first page of a listing; indexing an empty answer panics.\<close>

definition first_page :: "(string \<times> u64) list list \<Rightarrow> string + (string \<times> u64) list" where
  "first_page pages = (case pages of [] \<Rightarrow> Inl ''index out of bounds'' | p # _ \<Rightarrow> Inr p)"

section \<open>Operations\<close>

definition add_storage :: "(bytes \<Rightarrow> string) \<Rightarrow> 'w bucket \<Rightarrow> storage_owner \<Rightarrow> string \<Rightarrow> ('w, string, unit) act" where
  "add_storage b58 bk owner name =
     (case owner of OwnerStack _ \<Rightarrow> bk_put bk (manifest_prefix b58 owner @ name) [] | OwnerUser _ \<Rightarrow> act_ok ())"

definition storage_list :: "(bytes \<Rightarrow> string) \<Rightarrow> 'w bucket \<Rightarrow> storage_owner \<Rightarrow> ('w, string, string list) act" where
  "storage_list b58 bk owner =
     act_bind (bk_list bk (manifest_prefix b58 owner)) (\<lambda>resp.
     act_bind (act_res (first_page resp)) (\<lambda>contents. act_ok (map (last_segment \<circ> fst) contents)))"

definition contains_storage ::
  "(bytes \<Rightarrow> string) \<Rightarrow> 'w bucket \<Rightarrow> storage_owner \<Rightarrow> string \<Rightarrow> ('w, string, bool) act" where
  "contains_storage b58 bk owner name =
     (case owner of
        OwnerUser _ \<Rightarrow> act_ok True
      | OwnerStack _ \<Rightarrow> act_bind (storage_list b58 bk owner) (\<lambda>names. act_ok (name \<in> set names)))"

definition guard_storage ::
  "(bytes \<Rightarrow> string) \<Rightarrow> 'w bucket \<Rightarrow> storage_owner \<Rightarrow> string \<Rightarrow> ('w, string, 'a) act \<Rightarrow> ('w, string, 'a) act" where
  "guard_storage b58 bk owner name m =
     act_bind (contains_storage b58 bk owner name) (\<lambda>found. if found then m else act_res (Inl ''Storage not found''))"

definition storage_get ::
  "(bytes \<Rightarrow> string) \<Rightarrow> 'w bucket \<Rightarrow> storage_owner \<Rightarrow> string \<Rightarrow> string \<Rightarrow> ('w, string, bytes) act" where
  "storage_get b58 bk owner name key = guard_storage b58 bk owner name (bk_get bk (create_path b58 owner name key))"

definition storage_put ::
  "(bytes \<Rightarrow> string) \<Rightarrow> 'w bucket \<Rightarrow> storage_owner \<Rightarrow> string \<Rightarrow> string \<Rightarrow> bytes \<Rightarrow> ('w, string, unit) act" where
  "storage_put b58 bk owner name key data =
     guard_storage b58 bk owner name (bk_put bk (create_path b58 owner name key) data)"

definition storage_delete ::
  "(bytes \<Rightarrow> string) \<Rightarrow> 'w bucket \<Rightarrow> storage_owner \<Rightarrow> string \<Rightarrow> string \<Rightarrow> ('w, string, unit) act" where
  "storage_delete b58 bk owner name key =
     guard_storage b58 bk owner name (bk_delete bk (create_path b58 owner name key))"

definition list_objects ::
  "(bytes \<Rightarrow> string) \<Rightarrow> 'w bucket \<Rightarrow> storage_owner \<Rightarrow> string \<Rightarrow> string \<Rightarrow> ('w, string, storage_object list) act" where
  "list_objects b58 bk owner name pre =
     guard_storage b58 bk owner name
       (act_bind (bk_list bk (create_path b58 owner name pre)) (\<lambda>resp.
        act_bind (act_res (first_page resp)) (\<lambda>contents. act_ok (map create_object contents))))"

definition remove_storage :: "(bytes \<Rightarrow> string) \<Rightarrow> 'w bucket \<Rightarrow> storage_owner \<Rightarrow> string \<Rightarrow> ('w, string, unit) act" where
  "remove_storage b58 bk owner name =
     act_bind (case owner of OwnerStack _ \<Rightarrow> bk_delete bk (manifest_prefix b58 owner @ name) | OwnerUser _ \<Rightarrow> act_ok ()) (\<lambda>_.
     act_bind (list_objects b58 bk owner name '''') (\<lambda>objects.
     act_each (\<lambda>obj. bk_delete bk (create_path b58 owner name (so_key obj))) objects))"

definition update_stack_storages ::
  "(bytes \<Rightarrow> string) \<Rightarrow> 'w bucket \<Rightarrow> storage_owner \<Rightarrow> (string \<times> bool) list \<Rightarrow> ('w, string, unit) act" where
  "update_stack_storages b58 bk owner storage_delete_pairs =
     act_bind (storage_list b58 bk owner) (\<lambda>existing.
     act_each (\<lambda>(name, is_delete).
       if name \<notin> set existing \<and> \<not> is_delete then add_storage b58 bk owner name
       else if name \<in> set existing \<and> is_delete then remove_storage b58 bk owner name
       else act_ok ()) storage_delete_pairs)"

section \<open>Start\<close>

text \<open>
  The health check reads an object of the zero owner until it is found, is answered with
  \<open>HTTP 404\<close>, or has been tried too often; the delays between the attempts are left out.
\<close>

function storage_health_helper ::
  "(bytes \<Rightarrow> string) \<Rightarrow> (string \<Rightarrow> bool) \<Rightarrow> 'w bucket \<Rightarrow> nat \<Rightarrow> nat \<Rightarrow> ('w, string, unit) act" where
  "storage_health_helper b58 is_404 bk try_count max_try_count w =
     (case storage_get b58 bk (OwnerUser (Solana (replicate 32 0))) '''' '''' w of
        (Inr _, w') \<Rightarrow> (Inr (), w')
      | (Inl e, w') \<Rightarrow>
          if is_404 e then (Inr (), w')
          else if try_count < max_try_count then storage_health_helper b58 is_404 bk (try_count + 1) max_try_count w'
          else (Inl e, w'))"
  by pat_completeness auto

termination by (relation "measure (\<lambda>(_, _, _, n, m, _). m - n)") auto

definition ensure_storage_backend_is_healthy ::
  "(bytes \<Rightarrow> string) \<Rightarrow> (string \<Rightarrow> bool) \<Rightarrow> 'w bucket \<Rightarrow> nat \<Rightarrow> ('w, string, unit) act" where
  "ensure_storage_backend_is_healthy b58 is_404 bk max_try_count = storage_health_helper b58 is_404 bk 0 max_try_count"

text \<open>
  The choice of the configuration: exactly one of the two must be given; the internal one starts
  the embedded server, the action \<open>start_internal\<close>.
\<close>

definition storage_start ::
  "(bytes \<Rightarrow> string) \<Rightarrow> (string \<Rightarrow> bool) \<Rightarrow> ('cfg \<Rightarrow> 'w bucket) \<Rightarrow> ('int \<Rightarrow> ('w, string, 'cfg) act) \<Rightarrow>
     'cfg option \<Rightarrow> 'int option \<Rightarrow> ('w, string, 'cfg \<times> bool) act" where
  "storage_start b58 is_404 connect start_internal external internal =
     act_bind (case (external, internal) of
         (Some ext_config, None) \<Rightarrow> act_ok (ext_config, False)
       | (None, Some int_config) \<Rightarrow> act_bind (start_internal int_config) (\<lambda>config. act_ok (config, True))
       | _ \<Rightarrow> act_res (Inl ''Exactly one of internal or external storage config should be provided'')) (\<lambda>(config, inner).
     act_bind (ensure_storage_backend_is_healthy b58 is_404 (connect config) 5) (\<lambda>_. act_ok (config, inner)))"

end
