(* ===== verification/Stack_Deploy.thy ===== *)
theory Stack_Deploy
  imports Runtime_Registry Gateway_Manager Db_Keys Storage Blockchain_Monitor
begin

text \<open>
  Deploying and undeploying a stack, \<open>src/executor/src/stack/deploy.rs\<close>. The code calls four
  services through traits; a record of actions on a world stands for them, so that the same
  definitions run on any implementation. Every call returns; the texts of errors are left out.
\<close>

section \<open>The services a deployment uses\<close>


record 'w services =
  rt_add_functions :: "AssemblyDefinition list \<Rightarrow> ('w, string, unit) act"
  rt_get_function_names :: "StackID \<Rightarrow> ('w, string, string list) act"
  rt_remove_functions :: "StackID \<Rightarrow> string list \<Rightarrow> ('w, string, unit) act"
  rt_remove_all_functions :: "StackID \<Rightarrow> ('w, string, unit) act"
  db_make_client :: "('w, string, unit) act"
  db_update_stack_tables :: "StackID \<Rightarrow> (TableName \<times> bool) list \<Rightarrow> ('w, string, unit) act"
  db_table_list :: "StackID \<Rightarrow> TableName option \<Rightarrow> ('w, string, TableName list) act"
  db_clear_table :: "StackID \<Rightarrow> TableName \<Rightarrow> ('w, string, unit) act"
  sg_make_client :: "('w, string, unit) act"
  sg_get :: "storage_owner \<Rightarrow> string \<Rightarrow> string \<Rightarrow> ('w, string, bytes) act"
  sg_update_stack_storages :: "storage_owner \<Rightarrow> (string \<times> bool) list \<Rightarrow> ('w, string, unit) act"
  sg_storage_list :: "storage_owner \<Rightarrow> ('w, string, string list) act"
  sg_remove_storage :: "storage_owner \<Rightarrow> string \<Rightarrow> ('w, string, unit) act"
  gm_deploy_gateways :: "StackID \<Rightarrow> Gateway list \<Rightarrow> ('w, string, unit) act"
  gm_get_deployed_gateway_names :: "StackID \<Rightarrow> ('w, string, string list option) act"
  gm_delete_gateways :: "StackID \<Rightarrow> string list \<Rightarrow> ('w, string, unit) act"
  gm_delete_all_gateways :: "StackID \<Rightarrow> ('w, string, unit) act"

datatype StackDeploymentError =
    BadAssemblyDefinition | FailedToDeployFunctions | FailedToDeployGateways | FailedToDeployTables
  | FailedToDeployStorageNames | FailedToConnectToDatabase | FailedToConnectToStorage

definition FUNCTION_STORAGE_NAME :: string where
  "FUNCTION_STORAGE_NAME = ''FUNCTIONS''"

section \<open>Deployment\<close>

definition download_function ::
  "'w services \<Rightarrow> StackOwner \<Rightarrow> string \<Rightarrow> ('w, StackDeploymentError, bytes) act" where
  "download_function sv owner file_id =
     act_map_err (\<lambda>_. FailedToDeployFunctions) (sg_get sv (OwnerUser owner) FUNCTION_STORAGE_NAME file_id)"

definition load_function ::
  "'w services \<Rightarrow> StackID \<Rightarrow> StackOwner \<Rightarrow> Function \<Rightarrow> ('w, StackDeploymentError, AssemblyDefinition) act" where
  "load_function sv i owner func =
     act_bind (act_map_err (\<lambda>_. FailedToDeployFunctions) (download_function sv owner (fn_binary func))) (\<lambda>source.
     act_res (map_err (\<lambda>_. BadAssemblyDefinition)
       (assembly_definition_try_new \<lparr>aid_stack_id = i, aid_assembly_name = fn_name func\<rparr> source
          (fn_runtime func) (fn_env func) (fn_memory_limit func))))"

definition table_delete_pair :: "NameAndDelete \<Rightarrow> StackDeploymentError + TableName \<times> bool" where
  "table_delete_pair kvt =
     res_bind (map_err (\<lambda>_. FailedToDeployTables) (table_name_try_from (nd_name kvt))) (\<lambda>t.
       Inr (t, nd_delete kvt = Some True))"

definition stale_names :: "string list \<Rightarrow> string list \<Rightarrow> string list" where
  "stale_names new existing = filter (\<lambda>n. n \<notin> set new) existing"

definition deploy :: "'w services \<Rightarrow> StackID \<Rightarrow> StackWithMetadata \<Rightarrow> ('w, StackDeploymentError, unit) act" where
  "deploy sv i swm =
     (let stack_owner = metadata_owner (sm_metadata swm); stack = into_inner (sm_stack swm) in
      act_bind (act_map_err (\<lambda>_. FailedToConnectToDatabase) (db_make_client sv)) (\<lambda>_.
      act_bind (act_map_err (\<lambda>_. FailedToConnectToStorage) (sg_make_client sv)) (\<lambda>_.
      act_bind (act_collect (load_function sv i stack_owner) (stack_functions stack)) (\<lambda>function_defs.
      act_bind (act_map_err (\<lambda>_. FailedToDeployFunctions) (rt_add_functions sv function_defs)) (\<lambda>_.
      act_bind (act_res (collect_res table_delete_pair (key_value_tables stack))) (\<lambda>table_delete_pairs.
      act_bind (act_map_err (\<lambda>_. FailedToDeployTables) (db_update_stack_tables sv i table_delete_pairs)) (\<lambda>_.
      act_bind (act_map_err (\<lambda>_. FailedToDeployStorageNames)
        (sg_update_stack_storages sv (OwnerStack i) (map (\<lambda>n. (nd_name n, nd_delete n = Some True)) (storages stack)))) (\<lambda>_.
      act_bind (act_unwrap_or [] (rt_get_function_names sv i)) (\<lambda>existing.
        let functions_to_delete = stale_names (map fn_name (stack_functions stack)) existing
        in if functions_to_delete = [] then act_ok ()
           else act_unwrap_or () (rt_remove_functions sv i functions_to_delete))))))))))"

section \<open>Undeployment\<close>

definition delete_user_data_permanently_from_database :: "'w services \<Rightarrow> StackID \<Rightarrow> ('w, string, unit) act" where
  "delete_user_data_permanently_from_database sv i =
     act_bind (db_make_client sv) (\<lambda>_.
     act_bind (db_table_list sv i None) (\<lambda>table_names.
     act_bind (act_each (db_clear_table sv i) table_names) (\<lambda>_.
     db_update_stack_tables sv i (map (\<lambda>name. (name, True)) table_names))))"

definition delete_user_data_permanently_from_storage :: "'w services \<Rightarrow> StackID \<Rightarrow> ('w, string, unit) act" where
  "delete_user_data_permanently_from_storage sv i =
     act_bind (sg_make_client sv) (\<lambda>_.
     act_bind (sg_storage_list sv (OwnerStack i)) (\<lambda>storage_names.
     act_bind (act_each (sg_remove_storage sv (OwnerStack i)) storage_names) (\<lambda>_.
     sg_update_stack_storages sv (OwnerStack i) (map (\<lambda>name. (name, True)) storage_names))))"

definition delete_user_data_permanently :: "'w services \<Rightarrow> StackID \<Rightarrow> ('w, string, unit) act" where
  "delete_user_data_permanently sv i =
     act_bind (delete_user_data_permanently_from_database sv i) (\<lambda>_.
     delete_user_data_permanently_from_storage sv i)"

definition deploy_undeploy_stack :: "'w services \<Rightarrow> StackID \<Rightarrow> StackRemovalMode \<Rightarrow> ('w, string, unit) act" where
  "deploy_undeploy_stack sv i mode =
     act_bind (case mode of Permanent \<Rightarrow> delete_user_data_permanently sv i | Temporary \<Rightarrow> act_ok ()) (\<lambda>_.
     rt_remove_all_functions sv i)"

section \<open>Gateways\<close>

definition stack_deploy_gateways :: "'w services \<Rightarrow> StackID \<Rightarrow> Stack \<Rightarrow> ('w, StackDeploymentError, unit) act" where
  "stack_deploy_gateways sv i stack =
     act_bind (act_map_err (\<lambda>_. FailedToDeployGateways)
       (gm_deploy_gateways sv i (map clone_normalized (gateways stack)))) (\<lambda>_.
     act_bind (act_unwrap_or (Some []) (gm_get_deployed_gateway_names sv i)) (\<lambda>existing.
     act_unwrap_or () (gm_delete_gateways sv i
       (stale_names (map gw_name (gateways stack)) (case_option [] id existing)))))"

definition stack_undeploy_gateways :: "'w services \<Rightarrow> StackID \<Rightarrow> ('w, string, unit) act" where
  "stack_undeploy_gateways sv i = gm_delete_all_gateways sv i"

section \<open>The services of the executor\<close>

text \<open>
  The world of an executor: the gateway table, the runtime, and the rest, on which the database
  and the storage act.
\<close>

type_synonym ('h, 'c, 'x) exec_world = "Gateway registry \<times> ('h, 'c) runtime_world \<times> 'x"

definition executor_services :: "('h, 'm, 'c) wasm_env \<Rightarrow> 'x services \<Rightarrow> ('h, 'c, 'x) exec_world services" where
  "executor_services env ext =
     \<lparr>rt_add_functions = (\<lambda>ds. act_snd (act_fst (add_functions env ds))),
      rt_get_function_names = (\<lambda>i. act_snd (act_fst (get_function_names env i))),
      rt_remove_functions = (\<lambda>i ns. act_snd (act_fst (post_remove_functions env i ns))),
      rt_remove_all_functions = (\<lambda>i. act_snd (act_fst (post_remove_all_functions env i))),
      db_make_client = act_snd (act_snd (db_make_client ext)),
      db_update_stack_tables = (\<lambda>i ts. act_snd (act_snd (db_update_stack_tables ext i ts))),
      db_table_list = (\<lambda>i p. act_snd (act_snd (db_table_list ext i p))),
      db_clear_table = (\<lambda>i t. act_snd (act_snd (db_clear_table ext i t))),
      sg_make_client = act_snd (act_snd (sg_make_client ext)),
      sg_get = (\<lambda>w s k. act_snd (act_snd (sg_get ext w s k))),
      sg_update_stack_storages = (\<lambda>w ss. act_snd (act_snd (sg_update_stack_storages ext w ss))),
      sg_storage_list = (\<lambda>w. act_snd (act_snd (sg_storage_list ext w))),
      sg_remove_storage = (\<lambda>w s. act_snd (act_snd (sg_remove_storage ext w s))),
      gm_deploy_gateways = (\<lambda>i gs. act_fst (manager_deploy_gateways i gs)),
      gm_get_deployed_gateway_names = (\<lambda>i. act_fst (get_deployed_gateway_names i)),
      gm_delete_gateways = (\<lambda>i ns. act_fst (manager_delete_gateways i ns)),
      gm_delete_all_gateways = (\<lambda>i. act_fst (manager_delete_all_gateways i))\<rparr>"

section \<open>What deployment achieves\<close>

lemma gw_name_clone_normalized [simp]: "gw_name (clone_normalized g) = gw_name g"
  by (simp add: clone_normalized_def)

lemma act_unwrap_or_fst: "act_unwrap_or d (act_fst m) = act_fst (act_unwrap_or d m)"
  by (auto simp: fun_eq_iff act_unwrap_or_def act_fst_def split: prod.splits sum.splits)

lemma deploy_gateways_ok:
  assumes "reg_wf g"
  shows "\<exists>g'. stack_deploy_gateways (executor_services env ext) i stack (g, rest) = (Inr (), (g', rest)) \<and> reg_wf g'
     \<and> reg_view g' = (reg_view g)(i := put_services gw_name incoming_gateway (map clone_normalized (gateways stack)) (\<lambda>_. None))"
proof -
  let ?gws = "map clone_normalized (gateways stack)"
  obtain g1 where g1: "manager_deploy_gateways i ?gws g = (Inr (), g1)" by (simp add: manager_deploy_gateways_def)
  have names: "stale_names (map gw_name (gateways stack)) (map fst (reg_entry i g1))
      = filter (\<lambda>n. n \<notin> gw_name ` set ?gws) (map fst (reg_entry i g1))"
    by (simp add: stale_names_def image_image)
  obtain g2 where g2: "manager_delete_gateways i (stale_names (map gw_name (gateways stack)) (map fst (reg_entry i g1))) g1 = (Inr (), g2)"
    by (simp add: manager_delete_gateways_def)
  have ok: "reg_wf g2 \<and> reg_view g2 = (reg_view g)(i := put_services gw_name incoming_gateway ?gws (\<lambda>_. None))"
    using gateway_registry.add_prune [OF assms _ g1 gateway_names_ok g2 [unfolded names]] by simp
  have "get_deployed_gateway_names i g1 = (Inr (map_option (map fst) (map_of g1 i)), g1)"
    by (simp add: get_deployed_gateway_names_def)
  moreover have "case_option [] id (map_option (map fst) (map_of g1 i)) = map fst (reg_entry i g1)"
    by (simp add: reg_entry_def split: option.splits)
  ultimately have "stack_deploy_gateways (executor_services env ext) i stack (g, rest) = (Inr (), (g2, rest))"
    using g1 g2 by (simp add: stack_deploy_gateways_def executor_services_def act_bind_def act_map_err_def act_fst_def
        act_unwrap_or_def)
  with ok show ?thesis by blast
qed

text \<open>The definition that deployment derives from a function of the manifest.\<close>

definition definition_of :: "StackID \<Rightarrow> Function \<Rightarrow> AssemblyDefinition \<Rightarrow> bool" where
  "definition_of i f d \<longleftrightarrow> ad_id d = \<lparr>aid_stack_id = i, aid_assembly_name = fn_name f\<rparr>
     \<and> ad_runtime d = fn_runtime f \<and> ad_envs d = hm_from_pairs (fn_env f) \<and> ad_memory_limit d = fn_memory_limit f"

lemma try_new_Inr:
  "assembly_definition_try_new a src rt envs lim = Inr d \<Longrightarrow>
     d = \<lparr>ad_id = a, ad_source = src, ad_runtime = rt, ad_envs = hm_from_pairs envs, ad_memory_limit = lim\<rparr>"
  by (auto simp: assembly_definition_try_new_def Let_def split: list.splits)

lemma load_function_ok:
  assumes "load_function (executor_services env ext) i owner f w = (Inr d, w')"
  shows "definition_of i f d \<and> fst w' = fst w \<and> fst (snd w') = fst (snd w)"
  using assms
  by (auto simp: load_function_def download_function_def executor_services_def act_simps res_simps definition_of_def
      dest!: try_new_Inr)

lemma load_functions_ok:
  assumes "act_collect (load_function (executor_services env ext) i owner) fs w = (Inr ds, w')"
  shows "list_all2 (definition_of i) fs ds \<and> fst w' = fst w \<and> fst (snd w') = fst (snd w)"
  using assms
proof (induction fs arbitrary: ds w)
  case (Cons f fs)
  then obtain d w1 ds' where d: "load_function (executor_services env ext) i owner f w = (Inr d, w1)"
    and ds: "act_collect (load_function (executor_services env ext) i owner) fs w1 = (Inr ds', w')" and "ds = d # ds'"
    by (auto simp: act_simps)
  with load_function_ok [OF d] Cons.IH [OF ds] show ?case by simp
qed simp

lemma definitions_names:
  "list_all2 (definition_of i) fs ds \<Longrightarrow>
     map (\<lambda>d. aid_assembly_name (ad_id d)) ds = map fn_name fs \<and> (\<forall>d \<in> set ds. aid_stack_id (ad_id d) = i)"
  by (induction fs ds rule: list_all2_induct) (auto simp: definition_of_def)

lemma post_remove_none: "post_remove_functions env i [] (st, True) = (Inr (), (st, True))"
  by (simp add: post_remove_functions_def act_bind_def runtime_post_def remove_functions_def)

lemma ext_frame: "act_map_err h (act_snd (act_snd m)) w = (Inr y, w') \<Longrightarrow> fst w' = fst w \<and> fst (snd w') = fst (snd w)"
  by (auto simp: act_simps)

lemma deploy_ok:
  assumes wf: "reg_wf (rt_assembly_provider st)"
    and run: "deploy (executor_services env ext) i swm (g, (st, True), x) = (Inr (), w')"
  shows "\<exists>ds st' x'. w' = (g, (st', True), x') \<and> reg_wf (rt_assembly_provider st')
     \<and> list_all2 (definition_of i) (stack_functions (into_inner (sm_stack swm))) ds
     \<and> reg_view (rt_assembly_provider st') = (reg_view (rt_assembly_provider st))
         (i := put_services (\<lambda>d. aid_assembly_name (ad_id d)) (\<lambda>d. d) ds (\<lambda>_. None))"
proof -
  let ?sv = "executor_services env ext" and ?fs = "stack_functions (into_inner (sm_stack swm))"
  let ?w = "(g, (st, True), x)" and ?nm = "\<lambda>d. aid_assembly_name (ad_id d)"
  obtain u1 w1 u2 w2 ds w3 u4 w4 ps w4' u5 w5 u6 w6 ex w7 where
    1: "act_map_err (\<lambda>_. FailedToConnectToDatabase) (db_make_client ?sv) ?w = (Inr u1, w1)"
    and 2: "act_map_err (\<lambda>_. FailedToConnectToStorage) (sg_make_client ?sv) w1 = (Inr u2, w2)"
    and 3: "act_collect (load_function ?sv i (metadata_owner (sm_metadata swm))) ?fs w2 = (Inr ds, w3)"
    and 4: "act_map_err (\<lambda>_. FailedToDeployFunctions) (rt_add_functions ?sv ds) w3 = (Inr u4, w4)"
    and ps: "act_res (collect_res table_delete_pair (key_value_tables (into_inner (sm_stack swm)))) w4 = (Inr ps, w4')"
    and 5: "act_map_err (\<lambda>_. FailedToDeployTables) (db_update_stack_tables ?sv i ps) w4' = (Inr u5, w5)"
    and 6: "act_map_err (\<lambda>_. FailedToDeployStorageNames) (sg_update_stack_storages ?sv (OwnerStack i)
        (map (\<lambda>n. (nd_name n, nd_delete n = Some True)) (storages (into_inner (sm_stack swm))))) w5 = (Inr u6, w6)"
    and 7: "act_unwrap_or [] (rt_get_function_names ?sv i) w6
        = (Inr ex :: StackDeploymentError + string list, w7)"
    and 8: "(if stale_names (map fn_name ?fs) ex = [] then act_ok ()
        else act_unwrap_or () (rt_remove_functions ?sv i (stale_names (map fn_name ?fs) ex))) w7
        = (Inr () :: StackDeploymentError + unit, w')"
    using run unfolding deploy_def Let_def act_bind_Inr by (elim exE conjE) (rule that, assumption+)
  have w3: "fst w3 = g" "fst (snd w3) = (st, True)"
    using ext_frame [OF 1 [unfolded executor_services_def services.simps]]
      ext_frame [OF 2 [unfolded executor_services_def services.simps]] load_functions_ok [OF 3] by simp_all
  have defs: "list_all2 (definition_of i) ?fs ds" using load_functions_ok [OF 3] by blast
  note nm = definitions_names [OF defs]
  obtain st1 where st1: "add_functions env ds (st, True) = (Inr (), (st1, True))" "w4 = (g, (st1, True), snd (snd w3))"
    using 4 w3 by (cases w3) (auto simp: executor_services_def act_simps add_functions_def runtime_post_def)
  have w6: "fst w6 = g" "fst (snd w6) = (st1, True)"
    using ext_frame [OF 5 [unfolded executor_services_def services.simps]]
      ext_frame [OF 6 [unfolded executor_services_def services.simps]] ps st1(2) by auto
  have names: "get_function_names env i (st1, True) = (Inr (provider_get_function_names i (rt_assembly_provider st1)), (st1, True))"
    by (simp add: get_function_names_def act_bind_def runtime_post_def)
  have ex: "ex = provider_get_function_names i (rt_assembly_provider st1)" "w7 = w6"
    using 7 w6 names by (cases w6; auto simp: executor_services_def act_unwrap_or_def act_fst_def act_snd_def)+
  let ?del = "stale_names (map fn_name ?fs) ex"
  have del: "?del = filter (\<lambda>n. n \<notin> ?nm ` set ds) ex"
    using nm by (simp add: stale_names_def flip: set_map)
  obtain st2 where st2: "post_remove_functions env i ?del (st1, True) = (Inr (), (st2, True))" "w' = (g, (st2, True), snd (snd w6))"
  proof (cases "?del = []")
    case True
    with 8 ex w6 show ?thesis using that [of st1] by (cases w6) (auto simp: post_remove_none)
  next
    case False
    obtain st2 where "post_remove_functions env i ?del (st1, True) = (Inr (), (st2, True))"
      by (simp add: post_remove_functions_def act_bind_def runtime_post_def)
    with False 8 ex w6 that show ?thesis
      by (cases w6) (auto simp: executor_services_def act_unwrap_or_def act_fst_def act_snd_def)
  qed
  have "reg_wf (rt_assembly_provider (fst (st, True))) \<and> snd (st, True)" using wf by simp
  from function_registry.add_prune [OF this, of ds i env, OF _ st1(1) names [folded ex(1)] st2(1) [unfolded del]] nm
  have "reg_wf (rt_assembly_provider st2) \<and> reg_view (rt_assembly_provider st2) =
      (reg_view (rt_assembly_provider st))(i := put_services ?nm (\<lambda>d. d) ds (\<lambda>_. None))" by simp
  with st2(2) defs show ?thesis by blast
qed

definition demo_services :: "nat services" where
  "demo_services =
     \<lparr>rt_add_functions = (\<lambda>_. act_ok ()), rt_get_function_names = (\<lambda>_. act_ok []),
      rt_remove_functions = (\<lambda>_ _. act_ok ()), rt_remove_all_functions = (\<lambda>_. act_ok ()),
      db_make_client = act_ok (), db_update_stack_tables = (\<lambda>_ _ n. (Inr (), Suc n)),
      db_table_list = (\<lambda>_ _. act_ok []), db_clear_table = (\<lambda>_ _. act_ok ()), sg_make_client = act_ok (),
      sg_get = (\<lambda>_ _ _. act_ok [0, 97, 115, 109]), sg_update_stack_storages = (\<lambda>_ _ n. (Inr (), Suc n)),
      sg_storage_list = (\<lambda>_. act_ok []), sg_remove_storage = (\<lambda>_ _. act_ok ()),
      gm_deploy_gateways = (\<lambda>_ _. act_ok ()), gm_get_deployed_gateway_names = (\<lambda>_. act_ok None),
      gm_delete_gateways = (\<lambda>_ _. act_ok ()), gm_delete_all_gateways = (\<lambda>_. act_ok ())\<rparr>"

definition demo_swm :: StackWithMetadata where
  "demo_swm = \<lparr>sm_stack = ValidatedStack sample_stack, sm_name = ''s'', sm_revision = 1,
     sm_metadata = SolanaMetadata \<lparr>ssm_account_id = [1], ssm_owner = [2]\<rparr>\<rparr>"

lemma demo_deploy:
  "\<exists>w'. deploy (executor_services demo_wasm demo_services) (SolanaPublicKey [1]) demo_swm
     ([], (demo_runtime, True), 0) = (Inr (), w')"
  by (simp add: deploy_def Let_def demo_swm_def executor_services_def demo_services_def act_bind_def act_map_err_def
      act_snd_def act_fst_def act_unwrap_or_def load_function_def download_function_def sample_stack_def
      stack_functions_def key_value_tables_def storages_def sample_function_def assembly_definition_try_new_def
      hm_from_pairs_def table_delete_pair_def table_name_try_from_def add_functions_def runtime_post_def
      get_function_names_def demo_runtime_def provider_names reg_entry_def provider_add_function_def reg_insert_def
      stale_names_def ex_bool_eq)

section \<open>Properties\<close>



text \<open>
  Deploying the gateways of a stack cannot fail on the executor's gateway manager and
  leaves exactly the gateways of the manifest for that stack, normalised; removing them leaves
  none; other stacks, the functions and the data stay as they were.
\<close>

theorem deploy_gateways_exact:
  assumes "reg_wf g"
  shows "\<exists>g'. stack_deploy_gateways (executor_services env ext) i stack (g, rest) = (Inr (), (g', rest))
     \<and> reg_view g' = (reg_view g)(i := put_services gw_name incoming_gateway (map clone_normalized (gateways stack)) (\<lambda>_. None))
     \<and> (\<exists>g''. stack_undeploy_gateways (executor_services env ext) i (g', rest) = (Inr (), (g'', rest))
          \<and> reg_view g'' = (reg_view g)(i := \<lambda>_. None))"
proof -
  from deploy_gateways_ok [OF assms] obtain g' where g': "reg_wf g'"
    "stack_deploy_gateways (executor_services env ext) i stack (g, rest) = (Inr (), (g', rest))"
    "reg_view g' = (reg_view g)(i := put_services gw_name incoming_gateway (map clone_normalized (gateways stack)) (\<lambda>_. None))"
    by blast
  obtain g'' where g'': "manager_delete_all_gateways i g' = (Inr (), g'')" by (simp add: manager_delete_all_gateways_def)
  then have "reg_view g'' = (reg_view g)(i := \<lambda>_. None)"
    using gateway_registry.remove_all_empties [OF g'(1) g''] g'(3) by simp
  with g' g'' show ?thesis by (auto simp: stack_undeploy_gateways_def executor_services_def act_fst_def)
qed

theorem deploy_gateways_exact_witness:
  "\<exists>g'. stack_deploy_gateways (executor_services demo_wasm demo_services) (SolanaPublicKey [1]) sample_stack
      ([], (demo_runtime, True), 0) = (Inr (), (g', (demo_runtime, True), 0))
     \<and> reg_view g' (SolanaPublicKey [1]) ''g'' = Some (incoming_gateway (clone_normalized sample_gateway))"
  using deploy_gateways_exact [OF reg_wf_Nil, of demo_wasm demo_services "SolanaPublicKey [1]" sample_stack
      "((demo_runtime, True), 0)"]
  by (auto simp: sample_stack_def gateways_def put_services_def sample_gateway_def clone_normalized_def)

end
