(* ===== verification/Scheduler.thy ===== *)
theory Scheduler
  imports Stack_Deploy
begin

unbundle bit_operations_syntax

text \<open>
  The scheduler, \<open>src/executor/src/stack/scheduler.rs\<close>: which stacks this node runs, which it
  leaves to others, and how that changes as nodes and stacks come and go. The step function
  acts on the scheduler's own state and, through the services of \<open>Stack_Deploy\<close>, on the world.
\<close>

section \<open>State and messages\<close>

type_synonym NodeHash = bytes

datatype StackDeploymentStatus =
    StatusDeployedToSelf "NodeHash list"
  | StatusDeployedToOthers "NodeHash list"
  | StatusNotDeployed
  | StatusUnknown

datatype SchedulerNotification =
    StackDeployed StackID | StackUndeployed StackID | FailedToDeployStack StackID

datatype SchedulerMessage =
    NodeDiscovered NodeHash
  | NodeDied NodeHash
  | NodeDeployedStacks NodeHash "StackID list"
  | NodeUndeployedStacks NodeHash "StackID list"
  | StacksAvailable "StackWithMetadata list"
  | StacksRemoved "(StackID \<times> StackRemovalMode) list"
  | ReadyToScheduleStacks
  | GetDeploymentStatus StackID
  | Tick

datatype StackDeployment =
    Unknown "NodeHash hash_set"
  | Undeployed StackWithMetadata
  | HasDeploymentCandidate StackWithMetadata NodeHash
  | DeployedToSelf StackWithMetadata "NodeHash hash_set"
  | DeployedToSelfWithPendingUpdate StackWithMetadata "NodeHash hash_set"
  | DeployedToOthers StackWithMetadata "NodeHash hash_set"

record SchedulerState =
  ss_my_hash :: NodeHash
  ss_known_nodes :: "NodeHash hash_set"
  ss_stacks :: "(StackID, StackDeployment) hash_map"
  ss_reevaluate_on_next_tick :: "StackID hash_set"
  ss_ready_to_schedule :: bool

datatype scheduler_out = ONotification SchedulerNotification | OStatus StackDeploymentStatus

section \<open>Startup\<close>

definition initial_deployments :: "(NodeHash \<times> StackID list) list \<Rightarrow> (StackID, NodeHash hash_set) hash_map" where
  "initial_deployments known_nodes =
     fold (\<lambda>(node, ids) m. fold (\<lambda>i m. AList.update i
        (List.insert node (case map_of m i of None \<Rightarrow> [] | Some s \<Rightarrow> s)) m) ids m) known_nodes []"

definition scheduler_start ::
  "NodeHash \<Rightarrow> (NodeHash \<times> StackID list) list \<Rightarrow> StackWithMetadata list \<Rightarrow> SchedulerState" where
  "scheduler_start my_hash known_nodes available_stacks =
     (let stack_deployment = initial_deployments known_nodes;
          unknown_deployments = filter (\<lambda>k. \<not> list_ex (\<lambda>s. sm_id s = k) available_stacks) (map fst stack_deployment)
      in \<lparr>ss_my_hash = my_hash,
          ss_known_nodes = fold (\<lambda>n s. List.insert (fst n) s) known_nodes [],
          ss_stacks = hm_from_pairs
            (map (\<lambda>stack. (sm_id stack, case map_of stack_deployment (sm_id stack) of
                 None \<Rightarrow> Undeployed stack | Some nodes \<Rightarrow> DeployedToOthers stack nodes)) available_stacks
             @ map (\<lambda>i. (i, Unknown (case map_of stack_deployment i of Some nodes \<Rightarrow> nodes | None \<Rightarrow> []))) unknown_deployments),
          ss_reevaluate_on_next_tick = [],
          ss_ready_to_schedule = False\<rparr>)"

section \<open>The closest node\<close>

datatype GetClosestNodeResult = Me | Other NodeHash

fun from_bytes_le :: "bytes \<Rightarrow> nat" where
  "from_bytes_le [] = 0"
| "from_bytes_le (b # bs) = unat b + 256 * from_bytes_le bs"

definition distance :: "StackID \<Rightarrow> NodeHash \<Rightarrow> nat" where
  "distance i h = from_bytes_le (stack_id_get_bytes i) XOR from_bytes_le h"

fun closest_loop :: "StackID \<Rightarrow> NodeHash list \<Rightarrow> nat \<Rightarrow> GetClosestNodeResult \<Rightarrow> GetClosestNodeResult" where
  "closest_loop i [] min_distance result = result"
| "closest_loop i (h # hs) min_distance result =
     (if distance i h < min_distance then closest_loop i hs (distance i h) (Other h)
      else closest_loop i hs min_distance result)"

definition get_closest_node :: "StackID \<Rightarrow> NodeHash \<Rightarrow> NodeHash list \<Rightarrow> GetClosestNodeResult" where
  "get_closest_node i my_hash others = closest_loop i others (distance i my_hash) Me"

definition check_stack_also_deployed_to_closer_remote :: "StackID \<Rightarrow> NodeHash \<Rightarrow> NodeHash hash_set \<Rightarrow> NodeHash option" where
  "check_stack_also_deployed_to_closer_remote i my_hash deployed_to_others =
     (if deployed_to_others \<noteq> [] then
        (case get_closest_node i my_hash deployed_to_others of Other node \<Rightarrow> Some node | Me \<Rightarrow> None)
      else None)"

section \<open>Calls to the deployment code\<close>

definition scheduler_deploy_gateways :: "'w services \<Rightarrow> StackID \<Rightarrow> Stack \<Rightarrow> 'w \<Rightarrow> 'w" where
  "scheduler_deploy_gateways sv i stack w = snd (stack_deploy_gateways sv i stack w)"

definition scheduler_undeploy_gateways :: "'w services \<Rightarrow> StackID \<Rightarrow> 'w \<Rightarrow> 'w" where
  "scheduler_undeploy_gateways sv i w = snd (stack_undeploy_gateways sv i w)"

definition deploy_stack :: "'w services \<Rightarrow> StackID \<Rightarrow> StackWithMetadata \<Rightarrow> 'w \<Rightarrow> bool \<times> SchedulerNotification list \<times> 'w" where
  "deploy_stack sv i stack w =
     (case deploy sv i stack w of
        (Inl f, w') \<Rightarrow> (False, [FailedToDeployStack i], w')
      | (Inr _, w') \<Rightarrow> (True, [StackDeployed i], w'))"

definition undeploy_stack :: "'w services \<Rightarrow> StackID \<Rightarrow> StackRemovalMode \<Rightarrow> 'w \<Rightarrow> SchedulerNotification list \<times> 'w" where
  "undeploy_stack sv i mode w =
     (case deploy_undeploy_stack sv i mode w of
        (Inl f, w') \<Rightarrow> ([], w')
      | (Inr _, w') \<Rightarrow> ([StackUndeployed i], w'))"

section \<open>Nodes\<close>

text \<open>The new deployment, and whether the stack is to be re-evaluated.\<close>

fun node_died_deployment :: "NodeHash \<Rightarrow> StackDeployment \<Rightarrow> StackDeployment \<times> bool" where
  "node_died_deployment node (Unknown deployed_to) = (Unknown (removeAll node deployed_to), node \<in> set deployed_to)"
| "node_died_deployment node (DeployedToSelf stack others) =
     (DeployedToSelf stack (removeAll node others), node \<in> set others)"
| "node_died_deployment node (DeployedToSelfWithPendingUpdate stack others) =
     (DeployedToSelfWithPendingUpdate stack (removeAll node others), node \<in> set others)"
| "node_died_deployment node (Undeployed stack) = (Undeployed stack, False)"
| "node_died_deployment node (HasDeploymentCandidate stack candidate) =
     (if candidate = node then (Undeployed stack, True) else (HasDeploymentCandidate stack candidate, False))"
| "node_died_deployment node (DeployedToOthers stack deployed_to) =
     (let deployed_to' = removeAll node deployed_to
      in if node \<in> set deployed_to \<and> deployed_to' = [] then (Undeployed stack, True)
         else (DeployedToOthers stack deployed_to', False))"

definition node_died :: "NodeHash \<Rightarrow> SchedulerState \<Rightarrow> SchedulerState" where
  "node_died node st =
     st\<lparr>ss_known_nodes := removeAll node (ss_known_nodes st),
        ss_stacks := map (\<lambda>(i, d). (i, fst (node_died_deployment node d))) (ss_stacks st),
        ss_reevaluate_on_next_tick := fold (\<lambda>(i, d) s. if snd (node_died_deployment node d) then List.insert i s else s)
          (ss_stacks st) (ss_reevaluate_on_next_tick st)\<rparr>"

fun node_deployed_deployment :: "NodeHash \<Rightarrow> StackDeployment option \<Rightarrow> StackDeployment" where
  "node_deployed_deployment node None = Unknown [node]"
| "node_deployed_deployment node (Some (DeployedToOthers stack to)) = DeployedToOthers stack (List.insert node to)"
| "node_deployed_deployment node (Some (DeployedToSelf stack to)) = DeployedToSelf stack (List.insert node to)"
| "node_deployed_deployment node (Some (DeployedToSelfWithPendingUpdate stack to)) =
     DeployedToSelfWithPendingUpdate stack (List.insert node to)"
| "node_deployed_deployment node (Some (Unknown to)) = Unknown (List.insert node to)"
| "node_deployed_deployment node (Some (HasDeploymentCandidate stack c)) = DeployedToOthers stack [node]"
| "node_deployed_deployment node (Some (Undeployed stack)) = DeployedToOthers stack [node]"

definition reevaluate :: "StackID \<Rightarrow> SchedulerState \<Rightarrow> SchedulerState" where
  "reevaluate i st = st\<lparr>ss_reevaluate_on_next_tick := List.insert i (ss_reevaluate_on_next_tick st)\<rparr>"

definition set_deployment :: "StackID \<Rightarrow> StackDeployment option \<Rightarrow> SchedulerState \<Rightarrow> SchedulerState" where
  "set_deployment i d st =
     st\<lparr>ss_stacks := (case d of Some d \<Rightarrow> AList.update i d (ss_stacks st) | None \<Rightarrow> AList.delete i (ss_stacks st))\<rparr>"

definition node_deployed_stacks :: "NodeHash \<Rightarrow> StackID list \<Rightarrow> SchedulerState \<Rightarrow> SchedulerState" where
  "node_deployed_stacks node ids st =
     fold (\<lambda>i st. set_deployment i (Some (node_deployed_deployment node (map_of (ss_stacks st) i))) (reevaluate i st)) ids st"

fun node_undeployed_deployment :: "NodeHash \<Rightarrow> StackDeployment \<Rightarrow> StackDeployment option" where
  "node_undeployed_deployment node (DeployedToSelf stack others) = Some (DeployedToSelf stack (removeAll node others))"
| "node_undeployed_deployment node (DeployedToSelfWithPendingUpdate stack others) =
     Some (DeployedToSelfWithPendingUpdate stack (removeAll node others))"
| "node_undeployed_deployment node (Unknown deployed_to) =
     (let deployed_to' = removeAll node deployed_to in if deployed_to' = [] then None else Some (Unknown deployed_to'))"
| "node_undeployed_deployment node (HasDeploymentCandidate stack c) = Some (HasDeploymentCandidate stack c)"
| "node_undeployed_deployment node (Undeployed stack) = Some (Undeployed stack)"
| "node_undeployed_deployment node (DeployedToOthers stack deployed_to) =
     (let deployed_to' = removeAll node deployed_to
      in if node \<in> set deployed_to \<and> deployed_to' = [] then Some (Undeployed stack)
         else Some (DeployedToOthers stack deployed_to'))"

definition node_undeployed_stacks :: "NodeHash \<Rightarrow> StackID list \<Rightarrow> SchedulerState \<Rightarrow> SchedulerState" where
  "node_undeployed_stacks node ids st =
     fold (\<lambda>i st. case map_of (ss_stacks st) i of
        None \<Rightarrow> reevaluate i st
      | Some d \<Rightarrow> set_deployment i (node_undeployed_deployment node d) (reevaluate i st)) ids st"

section \<open>Stacks\<close>

fun stack_available_deployment :: "StackWithMetadata \<Rightarrow> StackDeployment option \<Rightarrow> StackDeployment" where
  "stack_available_deployment new None = Undeployed new"
| "stack_available_deployment new (Some (Unknown deployed_to)) =
     (if deployed_to = [] then Undeployed new else DeployedToOthers new deployed_to)"
| "stack_available_deployment new (Some (DeployedToSelf stack others)) =
     (if sm_revision stack < sm_revision new then DeployedToSelfWithPendingUpdate new others else DeployedToSelf stack others)"
| "stack_available_deployment new (Some (DeployedToSelfWithPendingUpdate previous others)) =
     DeployedToSelfWithPendingUpdate (if sm_revision previous < sm_revision new then new else previous) others"
| "stack_available_deployment new (Some (HasDeploymentCandidate stack c)) =
     HasDeploymentCandidate (if sm_revision stack < sm_revision new then new else stack) c"
| "stack_available_deployment new (Some (DeployedToOthers stack deployed_to)) =
     DeployedToOthers (if sm_revision stack < sm_revision new then new else stack) deployed_to"
| "stack_available_deployment new (Some (Undeployed stack)) =
     Undeployed (if sm_revision stack < sm_revision new then new else stack)"

definition stack_available :: "'w services \<Rightarrow> StackWithMetadata \<Rightarrow> SchedulerState \<times> 'w \<Rightarrow> SchedulerState \<times> 'w" where
  "stack_available sv new = (\<lambda>(st, w).
     let i = sm_id new in
     (set_deployment i (Some (stack_available_deployment new (map_of (ss_stacks st) i))) (reevaluate i st),
      scheduler_deploy_gateways sv i (into_inner (sm_stack new)) w))"

definition stack_removed ::
  "'w services \<Rightarrow> StackID \<times> StackRemovalMode \<Rightarrow> SchedulerState \<times> 'w \<Rightarrow> (SchedulerState \<times> 'w) \<times> SchedulerNotification list" where
  "stack_removed sv = (\<lambda>(i, mode) (st, w0).
     let w = scheduler_undeploy_gateways sv i w0 in
     case map_of (ss_stacks st) i of
       None \<Rightarrow> ((st, w), [])
     | Some d \<Rightarrow>
         (let (ns, w') = (case d of
              DeployedToSelf _ _ \<Rightarrow> undeploy_stack sv i mode w
            | DeployedToSelfWithPendingUpdate _ _ \<Rightarrow> undeploy_stack sv i mode w
            | _ \<Rightarrow> ([], w))
          in ((set_deployment i None st, w'), ns)))"

fun stacks_removed ::
  "'w services \<Rightarrow> (StackID \<times> StackRemovalMode) list \<Rightarrow> SchedulerState \<times> 'w \<Rightarrow> (SchedulerState \<times> 'w) \<times> SchedulerNotification list" where
  "stacks_removed sv [] s = (s, [])"
| "stacks_removed sv (im # ims) s =
     (let (s', ns) = stack_removed sv im s; (s'', ns') = stacks_removed sv ims s' in (s'', ns @ ns'))"

fun deployment_status :: "StackDeployment option \<Rightarrow> StackDeploymentStatus" where
  "deployment_status None = StatusUnknown"
| "deployment_status (Some (Undeployed _)) = StatusNotDeployed"
| "deployment_status (Some (HasDeploymentCandidate _ _)) = StatusNotDeployed"
| "deployment_status (Some (Unknown deployed_to)) = StatusDeployedToOthers deployed_to"
| "deployment_status (Some (DeployedToOthers _ deployed_to)) = StatusDeployedToOthers deployed_to"
| "deployment_status (Some (DeployedToSelf _ others)) = StatusDeployedToSelf others"
| "deployment_status (Some (DeployedToSelfWithPendingUpdate _ others)) = StatusDeployedToSelf others"

section \<open>The tick\<close>

text \<open>Re-evaluation of one stack.\<close>

fun tick_deployment ::
  "'w services \<Rightarrow> NodeHash \<Rightarrow> NodeHash hash_set \<Rightarrow> StackID \<Rightarrow> StackDeployment \<Rightarrow> 'w \<Rightarrow>
     StackDeployment \<times> SchedulerNotification list \<times> 'w" where
  "tick_deployment sv my_hash known_nodes i (Undeployed stack) w =
     (case get_closest_node i my_hash known_nodes of
        Me \<Rightarrow> (case deploy_stack sv i stack w of
                  (ok, ns, w') \<Rightarrow> (if ok then DeployedToSelf stack [] else Undeployed stack, ns, w'))
      | Other node \<Rightarrow> (HasDeploymentCandidate stack node, [], w))"
| "tick_deployment sv my_hash known_nodes i (DeployedToSelf stack others) w =
     (case check_stack_also_deployed_to_closer_remote i my_hash others of
        Some node \<Rightarrow> (case undeploy_stack sv i Temporary w of (ns, w') \<Rightarrow> (DeployedToOthers stack others, ns, w'))
      | None \<Rightarrow> (DeployedToSelf stack others, [], w))"
| "tick_deployment sv my_hash known_nodes i (DeployedToSelfWithPendingUpdate new_stack others) w =
     (case check_stack_also_deployed_to_closer_remote i my_hash others of
        Some node \<Rightarrow> (case undeploy_stack sv i Temporary w of (ns, w') \<Rightarrow> (DeployedToOthers new_stack others, ns, w'))
      | None \<Rightarrow> (case deploy_stack sv i new_stack w of
          (ok, ns, w') \<Rightarrow> (if ok then DeployedToSelf new_stack others
             else DeployedToSelfWithPendingUpdate new_stack others, ns, w')))"
| "tick_deployment sv my_hash known_nodes i (DeployedToOthers stack deployed_to) w =
     (case get_closest_node i my_hash deployed_to of
        Me \<Rightarrow> (case deploy_stack sv i stack w of
                  (ok, ns, w') \<Rightarrow> (if ok then DeployedToSelf stack deployed_to else DeployedToOthers stack deployed_to, ns, w'))
      | Other node \<Rightarrow> (DeployedToOthers stack deployed_to, [], w))"
| "tick_deployment sv my_hash known_nodes i (HasDeploymentCandidate stack c) w = (HasDeploymentCandidate stack c, [], w)"
| "tick_deployment sv my_hash known_nodes i (Unknown deployed_to) w = (Unknown deployed_to, [], w)"

definition tick_one :: "'w services \<Rightarrow> StackID \<Rightarrow> SchedulerState \<times> 'w \<Rightarrow> (SchedulerState \<times> 'w) \<times> SchedulerNotification list" where
  "tick_one sv i = (\<lambda>(st, w).
     case map_of (ss_stacks st) i of
       None \<Rightarrow> ((st, w), [])
     | Some d \<Rightarrow> (case tick_deployment sv (ss_my_hash st) (ss_known_nodes st) i d w of
         (d', ns, w') \<Rightarrow> ((set_deployment i (Some d') st, w'), ns)))"

fun tick_all :: "'w services \<Rightarrow> StackID list \<Rightarrow> SchedulerState \<times> 'w \<Rightarrow> (SchedulerState \<times> 'w) \<times> SchedulerNotification list" where
  "tick_all sv [] s = (s, [])"
| "tick_all sv (i # is) s = (let (s', ns) = tick_one sv i s; (s'', ns') = tick_all sv is s' in (s'', ns @ ns'))"

definition tick :: "'w services \<Rightarrow> SchedulerState \<times> 'w \<Rightarrow> (SchedulerState \<times> 'w) \<times> SchedulerNotification list" where
  "tick sv = (\<lambda>(st, w).
     if \<not> ss_ready_to_schedule st then ((st, w), [])
     else (case tick_all sv (ss_reevaluate_on_next_tick st) (st, w) of
        ((st', w'), ns) \<Rightarrow> ((st'\<lparr>ss_reevaluate_on_next_tick := []\<rparr>, w'), ns)))"

section \<open>The step function\<close>

fun scheduler_step :: "'w services \<Rightarrow> SchedulerMessage \<Rightarrow> SchedulerState \<times> 'w \<Rightarrow> (SchedulerState \<times> 'w) \<times> scheduler_out list" where
  "scheduler_step sv ReadyToScheduleStacks (st, w) = ((st\<lparr>ss_ready_to_schedule := True\<rparr>, w), [])"
| "scheduler_step sv (NodeDiscovered h) (st, w) = ((st\<lparr>ss_known_nodes := List.insert h (ss_known_nodes st)\<rparr>, w), [])"
| "scheduler_step sv (NodeDied node) (st, w) = ((node_died node st, w), [])"
| "scheduler_step sv (NodeDeployedStacks node ids) (st, w) = ((node_deployed_stacks node ids st, w), [])"
| "scheduler_step sv (NodeUndeployedStacks node ids) (st, w) = ((node_undeployed_stacks node ids st, w), [])"
| "scheduler_step sv (StacksAvailable stacks) s = (fold (stack_available sv) stacks s, [])"
| "scheduler_step sv (StacksRemoved id_modes) s = apsnd (map ONotification) (stacks_removed sv id_modes s)"
| "scheduler_step sv (GetDeploymentStatus i) (st, w) = ((st, w), [OStatus (deployment_status (map_of (ss_stacks st) i))])"
| "scheduler_step sv Tick s = apsnd (map ONotification) (tick sv s)"

end
