(* ===== verification/Scheduler_Props.thy ===== *)
theory Scheduler_Props
  imports Scheduler Mailbox
begin

text \<open>
  Properties of the scheduler: the closest node is well defined and the same for every node,
  the invariant of the state, that the notifications tell what runs here, and what a tick
  decides across a cluster.
\<close>

section \<open>Distances\<close>

lemma base256_digit: "(a::nat) < 256 \<Longrightarrow> b < 256 \<Longrightarrow> a + 256 * m = b + 256 * n \<Longrightarrow> a = b \<and> m = n"
proof -
  assume lt: "a < 256" "b < 256" and eq: "a + 256 * m = b + 256 * n"
  from eq have "(a + 256 * m) mod 256 = (b + 256 * n) mod 256" by (rule arg_cong)
  with lt have "a = b" by simp
  with eq show ?thesis by simp
qed

lemma from_bytes_le_inject:
  "length a = length b \<Longrightarrow> from_bytes_le a = from_bytes_le b \<Longrightarrow> a = b"
proof (induction a b rule: list_induct2)
  case (Cons x xs y ys)
  have "unat x < 256" "unat y < 256" using unat_byte [of x] unat_byte [of y] by simp_all
  moreover from Cons.prems have "unat x + 256 * from_bytes_le xs = unat y + 256 * from_bytes_le ys" by simp
  ultimately have "unat x = unat y \<and> from_bytes_le xs = from_bytes_le ys" by (rule base256_digit)
  with Cons.IH show ?case by (simp add: word_unat_eq_iff)
qed simp

lemma xor_nat_inject: "(a::nat) XOR b = a XOR c \<longleftrightarrow> b = c"
  by (auto simp: bit_eq_iff bit_xor_iff)

lemma distance_inject: "length g = length h \<Longrightarrow> distance i g = distance i h \<longleftrightarrow> g = h"
  by (auto simp: distance_def xor_nat_inject dest: from_bytes_le_inject)

lemma closest_loop_cases:
  "(closest_loop i hs d r = r \<and> (\<forall>h \<in> set hs. d \<le> distance i h))
   \<or> (\<exists>h \<in> set hs. closest_loop i hs d r = Other h \<and> distance i h < d \<and> (\<forall>h' \<in> set hs. distance i h \<le> distance i h'))"
proof (induction hs arbitrary: d r)
  case (Cons g hs)
  show ?case
  proof (cases "distance i g < d")
    case True
    then show ?thesis using Cons.IH [of "distance i g" "Other g"] by fastforce
  next
    case False
    then show ?thesis using Cons.IH [of d r] by fastforce
  qed
qed simp

lemma closest_Me: "get_closest_node i me hs = Me \<longleftrightarrow> (\<forall>h \<in> set hs. distance i me \<le> distance i h)"
  using closest_loop_cases [of i hs "distance i me" Me] by (force simp: get_closest_node_def)

lemma closest_Other:
  "get_closest_node i me hs = Other h \<Longrightarrow>
     h \<in> set hs \<and> distance i h < distance i me \<and> (\<forall>h' \<in> set hs. distance i h \<le> distance i h')"
  using closest_loop_cases [of i hs "distance i me" Me] by (auto simp: get_closest_node_def)

text \<open>The node closest to a stack among all nodes, and that every node computes it.\<close>

definition closest_in :: "StackID \<Rightarrow> NodeHash set \<Rightarrow> NodeHash \<Rightarrow> bool" where
  "closest_in i N n \<longleftrightarrow> n \<in> N \<and> (\<forall>m \<in> N. distance i n \<le> distance i m)"

lemma closest_in_exists: "finite N \<Longrightarrow> N \<noteq> {} \<Longrightarrow> \<exists>n. closest_in i N n"
  using ex_min_if_finite [of "distance i ` N"] unfolding closest_in_def by fastforce

lemma closest_in_unique:
  assumes "\<And>n. n \<in> N \<Longrightarrow> length n = 32" and "closest_in i N a" and "closest_in i N b"
  shows "a = b"
proof -
  have "distance i a = distance i b" using assms(2,3) by (meson closest_in_def order_antisym)
  then show ?thesis using distance_inject [of a b i] assms by (simp add: closest_in_def)
qed

lemma every_node_agrees:
  assumes N: "\<And>n. n \<in> N \<Longrightarrow> length n = 32" and c: "closest_in i N c" and me: "me \<in> N" and hs: "set hs = N - {me}"
  shows "get_closest_node i me hs = (if me = c then Me else Other c)"
proof (cases "get_closest_node i me hs")
  case Me
  then have "closest_in i N me" using me hs by (auto simp: closest_Me closest_in_def)
  with closest_in_unique [OF N _ c] Me show ?thesis by simp
next
  case (Other h)
  note h = closest_Other [OF Other]
  then have "distance i h \<le> distance i m" if "m \<in> N" for m
    using that hs by (cases "m = me") auto
  with h hs have "closest_in i N h" "h \<noteq> me" by (auto simp: closest_in_def)
  with closest_in_unique [OF N _ c] Other show ?thesis by auto
qed

section \<open>Lookups after the operations\<close>

lemma set_deployment_get [simp]:
  "map_of (ss_stacks (set_deployment i d st)) j = (if j = i then d else map_of (ss_stacks st) j)"
  by (auto simp: set_deployment_def hm_simps split: option.splits)

lemma set_deployment_frame [simp]:
  "ss_my_hash (set_deployment i d st) = ss_my_hash st" "ss_known_nodes (set_deployment i d st) = ss_known_nodes st"
  "ss_reevaluate_on_next_tick (set_deployment i d st) = ss_reevaluate_on_next_tick st"
  "ss_ready_to_schedule (set_deployment i d st) = ss_ready_to_schedule st"
  by (simp_all add: set_deployment_def)

lemma reevaluate_frame [simp]:
  "ss_my_hash (reevaluate i st) = ss_my_hash st" "ss_known_nodes (reevaluate i st) = ss_known_nodes st"
  "ss_stacks (reevaluate i st) = ss_stacks st" "ss_ready_to_schedule (reevaluate i st) = ss_ready_to_schedule st"
  by (simp_all add: reevaluate_def)

lemma node_died_get:
  "map_of (ss_stacks (node_died node st)) i = map_option (\<lambda>d. fst (node_died_deployment node d)) (map_of (ss_stacks st) i)"
  by (simp add: node_died_def map_of_map)

section \<open>The invariant\<close>

fun deployment_stack :: "StackDeployment \<Rightarrow> StackWithMetadata option" where
  "deployment_stack (Unknown _) = None"
| "deployment_stack (Undeployed s) = Some s"
| "deployment_stack (HasDeploymentCandidate s _) = Some s"
| "deployment_stack (DeployedToSelf s _) = Some s"
| "deployment_stack (DeployedToSelfWithPendingUpdate s _) = Some s"
| "deployment_stack (DeployedToOthers s _) = Some s"

definition deployment_ok :: "NodeHash hash_set \<Rightarrow> StackID \<Rightarrow> StackDeployment \<Rightarrow> bool" where
  "deployment_ok kn i d \<longleftrightarrow>
     (\<forall>s. deployment_stack d = Some s \<longrightarrow> sm_id s = i)
     \<and> (case d of DeployedToOthers _ to \<Rightarrow> to \<noteq> [] | HasDeploymentCandidate _ c \<Rightarrow> c \<in> set kn | _ \<Rightarrow> True)"

definition scheduler_inv :: "SchedulerState \<Rightarrow> bool" where
  "scheduler_inv st \<longleftrightarrow> distinct (ss_reevaluate_on_next_tick st)
     \<and> (\<forall>i d. map_of (ss_stacks st) i = Some d \<longrightarrow> deployment_ok (ss_known_nodes st) i d)"

lemma scheduler_inv_get: "scheduler_inv st \<Longrightarrow> map_of (ss_stacks st) i = Some d \<Longrightarrow> deployment_ok (ss_known_nodes st) i d"
  by (simp add: scheduler_inv_def)

lemma scheduler_inv_set:
  "scheduler_inv st \<Longrightarrow> (\<And>d. x = Some d \<Longrightarrow> deployment_ok (ss_known_nodes st) i d) \<Longrightarrow> scheduler_inv (set_deployment i x st)"
  by (auto simp: scheduler_inv_def)

lemma scheduler_inv_reevaluate [simp]: "scheduler_inv st \<Longrightarrow> scheduler_inv (reevaluate i st)"
  by (simp add: scheduler_inv_def reevaluate_def)

lemma scheduler_inv_ready: "scheduler_inv st \<Longrightarrow> scheduler_inv (st\<lparr>ss_ready_to_schedule := True\<rparr>)"
  by (simp add: scheduler_inv_def)

lemma fold_keeps: "P s \<Longrightarrow> (\<And>x s. P s \<Longrightarrow> P (f x s)) \<Longrightarrow> P (fold f xs s)"
  by (induction xs arbitrary: s) simp_all

lemma node_died_ok:
  "deployment_ok kn i d \<Longrightarrow> deployment_ok (removeAll node kn) i (fst (node_died_deployment node d))"
  by (cases d) (auto simp: deployment_ok_def Let_def)

lemma fold_insert_distinct: "distinct s \<Longrightarrow> distinct (fold (\<lambda>(i, d) s. if P i d then List.insert i s else s) xs s)"
  by (rule fold_keeps [where P = distinct]) auto

lemma scheduler_inv_node_died: "scheduler_inv st \<Longrightarrow> scheduler_inv (node_died node st)"
proof -
  assume inv: "scheduler_inv st"
  have k: "ss_known_nodes (node_died node st) = removeAll node (ss_known_nodes st)" by (simp add: node_died_def)
  have "distinct (ss_reevaluate_on_next_tick (node_died node st))"
    using inv by (simp add: node_died_def scheduler_inv_def fold_insert_distinct)
  with inv show ?thesis
    by (auto simp: scheduler_inv_def node_died_get k intro: node_died_ok)
qed

lemma node_deployed_ok:
  "(\<And>d. x = Some d \<Longrightarrow> deployment_ok kn i d) \<Longrightarrow> deployment_ok kn i (node_deployed_deployment node x)"
  by (cases "(node, x)" rule: node_deployed_deployment.cases) (auto simp: deployment_ok_def List.insert_def)

lemma node_undeployed_ok:
  "deployment_ok kn i d \<Longrightarrow> node_undeployed_deployment node d = Some d' \<Longrightarrow> deployment_ok kn i d'"
  by (cases d) (auto simp: deployment_ok_def Let_def split: if_splits)

lemma stack_available_ok:
  "(\<And>d. x = Some d \<Longrightarrow> deployment_ok kn (sm_id new) d) \<Longrightarrow> deployment_ok kn (sm_id new) (stack_available_deployment new x)"
  by (cases "(new, x)" rule: stack_available_deployment.cases) (auto simp: deployment_ok_def)

lemma closest_Me_Nil [simp]: "get_closest_node i me [] = Me"
  by (simp add: closest_Me)

lemma check_closer_Some: "check_stack_also_deployed_to_closer_remote i me others = Some node \<Longrightarrow> others \<noteq> []"
  by (simp add: check_stack_also_deployed_to_closer_remote_def split: if_splits)

lemma tick_deployment_ok:
  "deployment_ok kn i d \<Longrightarrow> deployment_ok kn i (fst (tick_deployment sv me kn i d w))"
  by (cases d) (auto simp: deployment_ok_def dest: closest_Other check_closer_Some
      split: GetClosestNodeResult.splits option.splits prod.splits)

lemma tick_one_frame:
  "ss_my_hash (fst (fst (tick_one sv i (st, w)))) = ss_my_hash st"
  "ss_known_nodes (fst (fst (tick_one sv i (st, w)))) = ss_known_nodes st"
  "ss_reevaluate_on_next_tick (fst (fst (tick_one sv i (st, w)))) = ss_reevaluate_on_next_tick st"
  "ss_ready_to_schedule (fst (fst (tick_one sv i (st, w)))) = ss_ready_to_schedule st"
  by (simp_all add: tick_one_def split: option.splits prod.splits)

lemma tick_one_get:
  "map_of (ss_stacks (fst (fst (tick_one sv i (st, w))))) j =
     (if j = i then map_option (\<lambda>d. fst (tick_deployment sv (ss_my_hash st) (ss_known_nodes st) i d w)) (map_of (ss_stacks st) i)
      else map_of (ss_stacks st) j)"
  by (auto simp: tick_one_def split: option.splits prod.splits)

lemma scheduler_inv_tick_one: "scheduler_inv (fst s) \<Longrightarrow> scheduler_inv (fst (fst (tick_one sv i s)))"
  by (cases s) (auto simp: scheduler_inv_def tick_one_frame tick_one_get tick_deployment_ok split: if_splits)

lemma scheduler_inv_tick_all: "scheduler_inv (fst s) \<Longrightarrow> scheduler_inv (fst (fst (tick_all sv is s)))"
proof (induction "is" arbitrary: s)
  case (Cons i "is")
  then show ?case using scheduler_inv_tick_one [OF Cons.prems, of sv i] by (simp add: split_beta)
qed simp

lemma scheduler_inv_tick: "scheduler_inv (fst s) \<Longrightarrow> scheduler_inv (fst (fst (tick sv s)))"
  using scheduler_inv_tick_all [of s sv "ss_reevaluate_on_next_tick (fst s)"]
  by (cases s) (auto simp: tick_def scheduler_inv_def split: prod.splits)

lemma scheduler_inv_removed: "scheduler_inv (fst s) \<Longrightarrow> scheduler_inv (fst (fst (stack_removed sv im s)))"
  by (cases s; cases im)
    (auto simp: stack_removed_def Let_def intro: scheduler_inv_set split: option.splits prod.splits StackDeployment.splits)

lemma scheduler_inv_all_removed: "scheduler_inv (fst s) \<Longrightarrow> scheduler_inv (fst (fst (stacks_removed sv ims s)))"
  by (induction ims arbitrary: s) (simp_all add: split_beta scheduler_inv_removed)

lemma scheduler_inv_available: "scheduler_inv (fst s) \<Longrightarrow> scheduler_inv (fst (stack_available sv new s))"
  by (cases s) (auto simp: stack_available_def Let_def intro!: scheduler_inv_set stack_available_ok scheduler_inv_get)

interpretation scheduler: mailbox_component "scheduler_step sv" "\<lambda>s. scheduler_inv (fst s)"
  for sv :: "'w services"
proof
  fix m and s :: "SchedulerState \<times> 'w"
  assume inv: "scheduler_inv (fst s)"
  obtain st w where s: "s = (st, w)" by (cases s)
  show "scheduler_inv (fst (fst (scheduler_step sv m s)))"
  proof (cases m)
    case (NodeDeployedStacks node ids)
    have "scheduler_inv (node_deployed_stacks node ids st)" unfolding node_deployed_stacks_def
      by (rule fold_keeps [where P = scheduler_inv])
        (use inv s in \<open>auto intro!: scheduler_inv_set node_deployed_ok scheduler_inv_get\<close>)
    then show ?thesis using NodeDeployedStacks s by simp
  next
    case (NodeUndeployedStacks node ids)
    have "scheduler_inv (node_undeployed_stacks node ids st)" unfolding node_undeployed_stacks_def
      by (rule fold_keeps [where P = scheduler_inv])
        (use inv s in \<open>auto intro!: scheduler_inv_set intro: node_undeployed_ok [OF scheduler_inv_get] split: option.splits\<close>)
    then show ?thesis using NodeUndeployedStacks s by simp
  next
    case (StacksAvailable stacks)
    have "scheduler_inv (fst (fold (stack_available sv) stacks s))"
      by (rule fold_keeps [where P = "\<lambda>s. scheduler_inv (fst s)"]) (use inv in \<open>auto intro: scheduler_inv_available\<close>)
    then show ?thesis using StacksAvailable by simp
  next
    case (NodeDiscovered h)
    with inv s show ?thesis
      by (auto simp: scheduler_inv_def deployment_ok_def split: StackDeployment.splits)
  qed (use inv s in \<open>auto simp: scheduler_inv_node_died scheduler_inv_all_removed scheduler_inv_tick scheduler_inv_ready\<close>)
qed

section \<open>Notifications tell what runs here\<close>

fun is_self :: "StackDeployment option \<Rightarrow> bool" where
  "is_self (Some (DeployedToSelf _ _)) = True"
| "is_self (Some (DeployedToSelfWithPendingUpdate _ _)) = True"
| "is_self _ = False"

definition running_here :: "SchedulerState \<Rightarrow> StackID set" where
  "running_here st = {i. is_self (map_of (ss_stacks st) i)}"

fun tell :: "SchedulerNotification \<Rightarrow> StackID set \<Rightarrow> StackID set" where
  "tell (StackDeployed i) A = insert i A"
| "tell (StackUndeployed i) A = A - {i}"
| "tell (FailedToDeployStack i) A = A"

definition scheduler_notes :: "scheduler_out list \<Rightarrow> SchedulerNotification list" where
  "scheduler_notes out = filter_map (\<lambda>x. case x of ONotification n \<Rightarrow> Some n | OStatus _ \<Rightarrow> None) out"

definition undeploys :: "'w services \<Rightarrow> bool" where
  "undeploys sv \<longleftrightarrow> (\<forall>i mode w. \<exists>w'. deploy_undeploy_stack sv i mode w = (Inr (), w'))"

definition tells :: "bool \<Rightarrow> StackID set \<Rightarrow> SchedulerState \<Rightarrow> bool" where
  "tells exact A st \<longleftrightarrow> running_here st \<subseteq> A \<and> (exact \<longrightarrow> A \<subseteq> running_here st)"

lemma scheduler_notes_append: "scheduler_notes (a @ b) = scheduler_notes a @ scheduler_notes b"
  by (simp add: scheduler_notes_def filter_map_def)

lemma scheduler_notes_Nil [simp]: "scheduler_notes [] = []"
  by (simp add: scheduler_notes_def)

lemma scheduler_notes_map [simp]: "scheduler_notes (map ONotification ns) = ns"
  by (induction ns) (simp_all add: scheduler_notes_def)

lemma tells_set:
  assumes "tells exact A st" and "A' - {i} = A - {i}" and "is_self x \<Longrightarrow> i \<in> A'" and "exact \<Longrightarrow> i \<in> A' \<Longrightarrow> is_self x"
  shows "tells exact A' (set_deployment i x st)"
  using assms by (auto simp: tells_def running_here_def)

lemma tells_same:
  assumes "tells exact A st" and "is_self x = is_self (map_of (ss_stacks st) i)"
  shows "tells exact A (set_deployment i x st)"
  using assms by (auto simp: tells_def running_here_def split: if_splits)

lemma tells_cong: "(\<And>i. is_self (map_of (ss_stacks st') i) = is_self (map_of (ss_stacks st) i)) \<Longrightarrow>
    tells exact A st \<Longrightarrow> tells exact A st'"
  by (simp add: tells_def running_here_def)

lemma tells_reevaluate [simp]: "tells exact A (reevaluate i st) = tells exact A st"
  by (simp add: tells_def running_here_def)

lemma is_self_node_died: "is_self (map_option (\<lambda>d. fst (node_died_deployment node d)) x) = is_self x"
  by (cases x; simp; cases "the x") (auto simp: Let_def)

lemma is_self_node_deployed: "is_self (Some (node_deployed_deployment node x)) = is_self x"
  by (cases "(node, x)" rule: node_deployed_deployment.cases) simp_all

lemma is_self_node_undeployed: "is_self (node_undeployed_deployment node d) = is_self (Some d)"
  by (cases d) (auto simp: Let_def)

lemma is_self_available: "is_self (Some (stack_available_deployment new x)) = is_self x"
  by (cases "(new, x)" rule: stack_available_deployment.cases) simp_all

lemma undeploy_stack_cases:
  obtains (gone) w' where "undeploy_stack sv i mode w = ([StackUndeployed i], w')"
  | (failed) w' where "undeploy_stack sv i mode w = ([], w')" "\<not> undeploys sv"
proof (cases "deploy_undeploy_stack sv i mode w")
  case (Pair r w')
  show ?thesis
  proof (cases r)
    case (Inl e)
    then have "\<not> undeploys sv" using Pair by (metis Pair_inject sum.simps(4) undeploys_def)
    with Inl Pair failed show ?thesis by (simp add: undeploy_stack_def)
  qed (use Pair gone in \<open>simp add: undeploy_stack_def\<close>)
qed

lemma deploy_stack_cases:
  obtains (deployed) w' where "deploy_stack sv i stack w = (True, [StackDeployed i], w')"
  | (failed) w' where "deploy_stack sv i stack w = (False, [FailedToDeployStack i], w')"
proof (cases "deploy sv i stack w")
  case (Pair r w')
  with that show ?thesis by (cases r) (simp_all add: deploy_stack_def)
qed

lemma tells_removed:
  assumes "tells (undeploys sv) A (fst s)"
  shows "tells (undeploys sv) (fold tell (snd (stack_removed sv im s)) A) (fst (fst (stack_removed sv im s)))"
proof -
  obtain i mode st w where e: "im = (i, mode)" "s = (st, w)" by (cases im; cases s)
  define w0 where "w0 = scheduler_undeploy_gateways sv i w"
  show ?thesis
  proof (cases "map_of (ss_stacks st) i")
    case None
    with assms e show ?thesis by (simp add: stack_removed_def Let_def)
  next
    case (Some d)
    show ?thesis
    proof (cases "is_self (Some d)")
      case True
      then have r: "stack_removed sv im s =
          ((set_deployment i None st, snd (undeploy_stack sv i mode w0)), fst (undeploy_stack sv i mode w0))"
        using Some e by (cases d) (simp_all add: stack_removed_def w0_def split_beta Let_def)
      show ?thesis
      proof (cases rule: undeploy_stack_cases [of sv i mode w0])
        case (gone w')
        with assms e r show ?thesis by (auto intro!: tells_set)
      next
        case (failed w')
        with assms e r show ?thesis by (auto simp: tells_def running_here_def)
      qed
    next
      case False
      then have "stack_removed sv im s = ((set_deployment i None st, w0), [])"
        using Some e by (cases d) (simp_all add: stack_removed_def w0_def split_beta Let_def)
      with False Some assms e show ?thesis by (auto intro!: tells_same)
    qed
  qed
qed

lemma tells_all_removed:
  "tells (undeploys sv) A (fst s) \<Longrightarrow>
     tells (undeploys sv) (fold tell (snd (stacks_removed sv ims s)) A) (fst (fst (stacks_removed sv ims s)))"
proof (induction ims arbitrary: s A)
  case (Cons im ims)
  then show ?case using tells_removed [OF Cons.prems, of im] by (simp add: split_beta)
qed simp

lemma tells_tick_one:
  assumes "tells (undeploys sv) A (fst s)"
  shows "tells (undeploys sv) (fold tell (snd (tick_one sv i s)) A) (fst (fst (tick_one sv i s)))"
proof -
  obtain st w where e: "s = (st, w)" by (cases s)
  show ?thesis
  proof (cases "map_of (ss_stacks st) i")
    case None
    with assms e show ?thesis by (simp add: tick_one_def)
  next
    case (Some d)
    have iA: "i \<in> A" if "is_self (Some d)" using that assms Some e by (force simp: tells_def running_here_def)
    have "tells (undeploys sv) (fold tell ns A) (set_deployment i (Some d') st)"
      if "tick_deployment sv (ss_my_hash st) (ss_known_nodes st) i d w = (d', ns, w')" for d' ns w'
    proof (cases d)
      case (Undeployed stack)
      with that Some assms e show ?thesis
        by (cases rule: deploy_stack_cases [of sv i stack w])
          (auto split: GetClosestNodeResult.splits if_splits simp: tells_def running_here_def)
    next
      case (DeployedToSelf stack others)
      with that Some assms e iA show ?thesis
        by (cases rule: undeploy_stack_cases [of sv i Temporary w])
          (auto split: option.splits intro!: tells_set intro: tells_same simp: tells_def running_here_def)
    next
      case (DeployedToSelfWithPendingUpdate stack others)
      with that Some assms e iA show ?thesis
        by (cases rule: undeploy_stack_cases [of sv i Temporary w]; cases rule: deploy_stack_cases [of sv i stack w])
          (auto split: option.splits intro!: tells_set intro: tells_same simp: tells_def running_here_def)
    next
      case (DeployedToOthers stack deployed_to)
      with that Some assms e show ?thesis
        by (cases rule: deploy_stack_cases [of sv i stack w])
          (auto split: GetClosestNodeResult.splits if_splits simp: tells_def running_here_def)
    qed (use that Some assms e in \<open>auto intro: tells_same\<close>)
    then show ?thesis using Some e by (auto simp: tick_one_def split: prod.splits)
  qed
qed

lemma tells_tick_all:
  "tells (undeploys sv) A (fst s) \<Longrightarrow>
     tells (undeploys sv) (fold tell (snd (tick_all sv is s)) A) (fst (fst (tick_all sv is s)))"
proof (induction "is" arbitrary: s A)
  case (Cons i "is")
  then show ?case using tells_tick_one [OF Cons.prems, of i] by (simp add: split_beta)
qed simp

lemma tells_step:
  assumes "tells (undeploys sv) A (fst s)"
  shows "tells (undeploys sv) (fold tell (scheduler_notes (snd (scheduler_step sv m s))) A) (fst (fst (scheduler_step sv m s)))"
proof -
  obtain st w where s: "s = (st, w)" by (cases s)
  have t: "tells (undeploys sv) A st" using assms s by simp
  show ?thesis
  proof (cases m)
    case (NodeDied node)
    with s t show ?thesis
      by (auto simp: scheduler_notes_def node_died_get is_self_node_died intro: tells_cong)
  next
    case (NodeDeployedStacks node ids)
    have "tells (undeploys sv) A (node_deployed_stacks node ids st)" unfolding node_deployed_stacks_def
      by (rule fold_keeps [where P = "tells (undeploys sv) A", OF t])
        (auto intro!: tells_same simp: is_self_node_deployed intro: tells_cong)
    with NodeDeployedStacks s show ?thesis by (simp add: scheduler_notes_def)
  next
    case (NodeUndeployedStacks node ids)
    have "tells (undeploys sv) A (node_undeployed_stacks node ids st)" unfolding node_undeployed_stacks_def
      by (rule fold_keeps [where P = "tells (undeploys sv) A", OF t])
        (auto intro!: tells_same simp: is_self_node_undeployed intro: tells_cong split: option.splits)
    with NodeUndeployedStacks s show ?thesis by (simp add: scheduler_notes_def)
  next
    case (StacksAvailable stacks)
    have "tells (undeploys sv) A (fst (fold (stack_available sv) stacks s))"
      by (rule fold_keeps [where P = "\<lambda>s. tells (undeploys sv) A (fst s)"])
        (use assms in \<open>auto simp: stack_available_def Let_def is_self_available intro!: tells_same intro: tells_cong\<close>)
    with StacksAvailable show ?thesis by (simp add: scheduler_notes_def)
  next
    case Tick
    have "fst (fst (tick sv s)) = (fst (fst (tick_all sv (ss_reevaluate_on_next_tick st) s)))\<lparr>ss_reevaluate_on_next_tick := []\<rparr>
       \<and> snd (tick sv s) = snd (tick_all sv (ss_reevaluate_on_next_tick st) s) \<or> tick sv s = (s, [])"
      using s by (simp add: tick_def split_beta)
    then show ?thesis
    proof
      assume r: "tick sv s = (s, [])"
      with assms show ?thesis by (simp add: Tick)
    qed (use tells_tick_all [OF assms] in \<open>auto simp: Tick tells_def running_here_def\<close>)
  qed (use s t assms tells_all_removed in \<open>auto simp: scheduler_notes_def [of "[]"] scheduler_notes_def [of "[OStatus _]"] intro: tells_cong\<close>)
qed

lemma tells_run:
  "tells (undeploys sv) A (fst s) \<Longrightarrow>
     tells (undeploys sv) (fold tell (scheduler_notes (snd (run_steps (scheduler_step sv) ms s))) A)
       (fst (fst (run_steps (scheduler_step sv) ms s)))"
proof (induction ms arbitrary: s A)
  case (Cons m ms)
  then show ?case using Cons.IH [OF tells_step [OF Cons.prems, of m]]
    by (simp add: split_beta scheduler_notes_append)
qed (simp add: scheduler_notes_def)

section \<open>What a tick decides\<close>

lemma tick_all_get:
  assumes "distinct is"
  shows "\<exists>w1. map_of (ss_stacks (fst (fst (tick_all sv is (st, w))))) i =
     (if i \<in> set is then map_option (\<lambda>d. fst (tick_deployment sv (ss_my_hash st) (ss_known_nodes st) i d w1)) (map_of (ss_stacks st) i)
      else map_of (ss_stacks st) i)"
  using assms
proof (induction "is" arbitrary: st w)
  case (Cons j "is")
  obtain st1 w1 ns where s1: "tick_one sv j (st, w) = ((st1, w1), ns)" by (metis prod.collapse)
  have frame: "ss_my_hash st1 = ss_my_hash st" "ss_known_nodes st1 = ss_known_nodes st"
    using tick_one_frame [of sv j st w] s1 by simp_all
  have get: "map_of (ss_stacks st1) i =
     (if i = j then map_option (\<lambda>d. fst (tick_deployment sv (ss_my_hash st) (ss_known_nodes st) j d w)) (map_of (ss_stacks st) j)
      else map_of (ss_stacks st) i)" using tick_one_get [of sv j st w i] s1 by simp
  show ?case
  proof (cases "i = j")
    case True
    with Cons.IH [of st1 w1] Cons.prems get show ?thesis by (intro exI [of _ w]) (auto simp: s1 split_beta)
  next
    case False
    with Cons.IH [of st1 w1] Cons.prems show ?thesis by (auto simp: s1 split_beta frame get)
  qed
qed simp

lemma tick_get:
  assumes "scheduler_inv st" and "ss_ready_to_schedule st" and "i \<in> set (ss_reevaluate_on_next_tick st)"
  shows "\<exists>w1. map_of (ss_stacks (fst (fst (scheduler_step sv Tick (st, w))))) i =
     map_option (\<lambda>d. fst (tick_deployment sv (ss_my_hash st) (ss_known_nodes st) i d w1)) (map_of (ss_stacks st) i)"
  using tick_all_get [of "ss_reevaluate_on_next_tick st" sv st w i] assms
  by (auto simp: tick_def scheduler_inv_def split_beta)

lemma tick_undeployed:
  assumes "\<And>w. \<exists>w'. deploy sv i stack w = (Inr (), w')"
  shows "fst (tick_deployment sv me kn i (Undeployed stack) w) =
     (case get_closest_node i me kn of Me \<Rightarrow> DeployedToSelf stack [] | Other c \<Rightarrow> HasDeploymentCandidate stack c)"
proof -
  obtain w' where "deploy sv i stack w = (Inr (), w')" using assms by blast
  then show ?thesis by (simp add: deploy_stack_def split: GetClosestNodeResult.splits)
qed

lemma start_running_none: "running_here (scheduler_start me nodes stacks) = {}"
proof -
  have "\<not> is_self (map_of (ss_stacks (scheduler_start me nodes stacks)) i)" for i
  proof (cases "map_of (ss_stacks (scheduler_start me nodes stacks)) i")
    case (Some d)
    then have "(i, d) \<in> set (rev (map (\<lambda>stack. (sm_id stack, case map_of (initial_deployments nodes) (sm_id stack) of
                 None \<Rightarrow> Undeployed stack | Some nodes \<Rightarrow> DeployedToOthers stack nodes)) stacks
             @ map (\<lambda>i. (i, Unknown (case map_of (initial_deployments nodes) i of Some nodes \<Rightarrow> nodes | None \<Rightarrow> [])))
                (filter (\<lambda>k. \<not> list_ex (\<lambda>s. sm_id s = k) stacks) (map fst (initial_deployments nodes)))))"
      by (intro hm_get_Some_in) (simp add: scheduler_start_def Let_def hm_simps)
    then show ?thesis using Some by (auto split: option.splits)
  qed simp
  then show ?thesis by (simp add: running_here_def)
qed

section \<open>Properties\<close>

text \<open>
  C11. The scheduler's notifications tell what runs on this node: whatever messages arrive,
  every stack deployed here has been reported deployed and not undeployed since, and when
  undeploying never fails, exactly those stacks have.
\<close>

theorem scheduler_notifications_exact:
  "case run_steps (scheduler_step sv) ms (scheduler_start me nodes stacks, w) of (s, out) \<Rightarrow>
     running_here (fst s) \<subseteq> fold tell (scheduler_notes out) {}
     \<and> (undeploys sv \<longrightarrow> running_here (fst s) = fold tell (scheduler_notes out) {})"
proof -
  have "tells (undeploys sv) {} (fst (scheduler_start me nodes stacks, w))"
    by (simp add: tells_def start_running_none)
  from tells_run [OF this, of ms] show ?thesis by (auto simp: tells_def split_beta)
qed

lemma demo_undeploys: "undeploys demo_services"
  by (auto simp: undeploys_def deploy_undeploy_stack_def demo_services_def act_bind_def act_each_def
      delete_user_data_permanently_def delete_user_data_permanently_from_database_def
      delete_user_data_permanently_from_storage_def split: StackRemovalMode.splits)

theorem scheduler_notifications_exact_witness:
  "case run_steps (scheduler_step demo_services) [ReadyToScheduleStacks, StacksAvailable [demo_swm], Tick]
      (scheduler_start [0] [] [], 0) of (s, out) \<Rightarrow>
     running_here (fst s) = fold tell (scheduler_notes out) {}"
  using scheduler_notifications_exact [of demo_services "[ReadyToScheduleStacks, StacksAvailable [demo_swm], Tick]" "[0]" "[]" "[]" 0]
    demo_undeploys by (simp add: split_beta)


definition demo_node :: "NodeHash \<Rightarrow> NodeHash \<Rightarrow> SchedulerState" where
  "demo_node me other = \<lparr>ss_my_hash = me, ss_known_nodes = [other],
     ss_stacks = [(SolanaPublicKey [1], Undeployed demo_swm)], ss_reevaluate_on_next_tick = [SolanaPublicKey [1]],
     ss_ready_to_schedule = True\<rparr>"

lemma demo_deploys: "\<exists>w'. deploy demo_services (SolanaPublicKey [1]) demo_swm w = (Inr (), w')"
  by (simp add: deploy_def Let_def demo_swm_def demo_services_def act_bind_def act_map_err_def
      act_unwrap_or_def load_function_def download_function_def sample_stack_def
      stack_functions_def key_value_tables_def storages_def sample_function_def assembly_definition_try_new_def
      hm_from_pairs_def table_delete_pair_def table_name_try_from_def stale_names_def)

lemma demo_node_inv: "scheduler_inv (demo_node me other)"
  by (simp add: scheduler_inv_def demo_node_def deployment_ok_def sm_id_def demo_swm_def)


lemma node_died_reevaluates:
  assumes "(i, d) \<in> set (ss_stacks st)" and "snd (node_died_deployment node d)"
  shows "i \<in> set (ss_reevaluate_on_next_tick (node_died node st))"
proof -
  let ?f = "\<lambda>(i, d) s. if snd (node_died_deployment node d) then List.insert i s else s"
  have "i \<in> set s \<Longrightarrow> i \<in> set (fold ?f xs s)" for xs s by (induction xs arbitrary: s) auto
  then have "i \<in> set (fold ?f xs s)" if "(i, d) \<in> set xs" for xs s
    using that assms(2) by (induction xs arbitrary: s) auto
  with assms(1) show ?thesis by (simp add: node_died_def)
qed


definition demo_waiting :: SchedulerState where
  "demo_waiting = (demo_node (replicate 32 1) (replicate 32 2))\<lparr>
     ss_stacks := [(SolanaPublicKey [1], HasDeploymentCandidate demo_swm (replicate 32 2))]\<rparr>"


text \<open>
  A deployment that fails is not tried again: the tick that fails removes the stack from
  the list to re-evaluate and leaves it undeployed, and further ticks do nothing for it.
\<close>

theorem failed_deployment_not_retried:
  assumes "scheduler_inv st" and "ss_ready_to_schedule st" and "i \<in> set (ss_reevaluate_on_next_tick st)"
    and "map_of (ss_stacks st) i = Some (Undeployed stack)"
    and "get_closest_node i (ss_my_hash st) (ss_known_nodes st) = Me"
    and "\<And>w. \<exists>e w'. deploy sv i stack w = (Inl e, w')"
  shows "let s = fst (scheduler_step sv Tick (st, w))
    in map_of (ss_stacks (fst s)) i = Some (Undeployed stack)
       \<and> run_steps (scheduler_step sv) (replicate n Tick) s = (s, [])"
proof -
  have "fst (tick_deployment sv (ss_my_hash st) (ss_known_nodes st) i (Undeployed stack) w1) = Undeployed stack" for w1
    using assms(5) assms(6) [of w1] by (auto simp: deploy_stack_def)
  with tick_get [OF assms(1,2,3), of sv w] assms(4)
  have get: "map_of (ss_stacks (fst (fst (scheduler_step sv Tick (st, w))))) i = Some (Undeployed stack)"
    by (auto simp del: tick_deployment.simps scheduler_step.simps)
  have idle: "scheduler_step sv Tick (st1, w1) = ((st1, w1), [])" if "ss_reevaluate_on_next_tick st1 = []" for st1 and w1
    using that by (simp add: tick_def)
  obtain st1 w1 where s: "fst (scheduler_step sv Tick (st, w)) = (st1, w1)" by (cases "fst (scheduler_step sv Tick (st, w))")
  then have "ss_reevaluate_on_next_tick st1 = []" using assms(2) by (auto simp: tick_def split_beta)
  then have "run_steps (scheduler_step sv) (replicate n Tick) (st1, w1) = ((st1, w1), [])"
    by (induction n) (simp_all add: idle del: scheduler_step.simps)
  with get s show ?thesis by (simp add: Let_def del: scheduler_step.simps)
qed

theorem failed_deployment_not_retried_witness:
  "let sv = demo_services\<lparr>db_make_client := (\<lambda>w. (Inl ''down'', w))\<rparr>;
       s = fst (scheduler_step sv Tick (demo_node [1] [2], 0))
   in map_of (ss_stacks (fst s)) (SolanaPublicKey [1]) = Some (Undeployed demo_swm)
      \<and> run_steps (scheduler_step sv) (replicate 5 Tick) s = (s, [])"
proof -
  let ?sv = "demo_services\<lparr>db_make_client := (\<lambda>w. (Inl ''down'', w))\<rparr>"
  let ?st = "demo_node [1] [2]"
  have "\<exists>e w'. deploy ?sv (SolanaPublicKey [1]) demo_swm w = (Inl e, w')" for w
    by (simp add: deploy_def Let_def act_bind_def act_map_err_def)
  moreover have "get_closest_node (SolanaPublicKey [1]) [1] [[2]] = Me"
    by (simp add: closest_Me distance_def)
  ultimately show ?thesis
    using failed_deployment_not_retried [of ?st "SolanaPublicKey [1]" demo_swm ?sv 0 5] demo_node_inv
    by (simp add: Let_def demo_node_def del: scheduler_step.simps)
qed

end
