(* ===== verification/Db_Client.thy ===== *)
theory Db_Client
  imports Db_Keys Mu_Effects
begin

text \<open>
  The database client, \<open>src/rust-libs/db/src/lib.rs\<close>, over the raw client of TiKV. TiKV is
  not part of the repository: it is the parameter \<open>tikv\<close>, a record of actions on a world, and
  \<open>tikv_contract\<close> states what its documentation promises of them. \<open>None\<close> is a call that
  panics or never returns; that the operations return is a theorem.
\<close>

section \<open>The raw client\<close>

record 'w tikv =
  tk_get :: "bytes \<Rightarrow> ('w, string, bytes option) act"
  tk_put :: "bool \<Rightarrow> bytes \<Rightarrow> bytes \<Rightarrow> ('w, string, unit) act"
  tk_delete :: "bool \<Rightarrow> bytes \<Rightarrow> ('w, string, unit) act"
  tk_scan :: "bound_range \<Rightarrow> nat \<Rightarrow> ('w, string, (bytes \<times> bytes) list) act"
  tk_scan_keys :: "bound_range \<Rightarrow> nat \<Rightarrow> ('w, string, bytes list) act"
  tk_batch_put :: "bool \<Rightarrow> (bytes \<times> bytes) list \<Rightarrow> ('w, string, unit) act"
  tk_batch_get :: "bytes list \<Rightarrow> ('w, string, (bytes \<times> bytes) list) act"
  tk_batch_delete :: "bytes list \<Rightarrow> ('w, string, unit) act"
  tk_batch_scan :: "bound_range list \<Rightarrow> nat \<Rightarrow> ('w, string, (bytes \<times> bytes) list) act"
  tk_batch_scan_keys :: "bound_range list \<Rightarrow> nat \<Rightarrow> ('w, string, bytes list) act"
  tk_delete_range :: "bound_range \<Rightarrow> ('w, string, unit) act"
  tk_compare_and_swap :: "bytes \<Rightarrow> bytes option \<Rightarrow> bytes \<Rightarrow> ('w, string, bytes option \<times> bool) act"

datatype DbError = TikvErr string | StackIdOrTableDoseNotExist Key | InternalErr key_error

type_synonym ('w, 'a) dbop = "'w \<Rightarrow> ((DbError + 'a) \<times> 'w) option"

definition db_call :: "('w, string, 'a) act \<Rightarrow> ('w, 'a) dbop" where
  "db_call m w = Some (apfst (map_err TikvErr) (m w))"

definition db_res :: "DbError + 'a \<Rightarrow> ('w, 'a) dbop" where
  "db_res r w = Some (r, w)"

definition db_bind :: "('w, 'a) dbop \<Rightarrow> ('a \<Rightarrow> ('w, 'b) dbop) \<Rightarrow> ('w, 'b) dbop" where
  "db_bind m f w = Option.bind (m w) (\<lambda>(r, w'). case r of Inl e \<Rightarrow> Some (Inl e, w') | Inr x \<Rightarrow> f x w')"

text \<open>Encoding a key or a range, which panics on a name that is too long.\<close>

definition db_encoded :: "'b option \<Rightarrow> ('b \<Rightarrow> ('w, 'a) dbop) \<Rightarrow> ('w, 'a) dbop" where
  "db_encoded x f = (case x of None \<Rightarrow> (\<lambda>_. None) | Some b \<Rightarrow> f b)"

definition encode_all :: "('a \<Rightarrow> 'b option) \<Rightarrow> 'a list \<Rightarrow> 'b list option" where
  "encode_all f xs = those (map f xs)"

definition encode_pair :: "('a \<Rightarrow> bytes option) \<Rightarrow> 'a \<times> bytes \<Rightarrow> (bytes \<times> bytes) option" where
  "encode_pair f kv = map_option (\<lambda>b. (b, snd kv)) (f (fst kv))"

section \<open>Operations\<close>

definition db_get_raw :: "'w tikv \<Rightarrow> bytes \<Rightarrow> ('w, bytes option) dbop" where
  "db_get_raw kv key = db_call (tk_get kv key)"

definition db_scan_raw :: "'w tikv \<Rightarrow> bytes \<Rightarrow> bytes \<Rightarrow> nat \<Rightarrow> ('w, (bytes \<times> bytes) list) dbop" where
  "db_scan_raw kv lower_inclusive upper_exclusive limit =
     db_call (tk_scan kv (Some lower_inclusive, Some upper_exclusive) limit)"

definition db_put_raw :: "'w tikv \<Rightarrow> bytes \<Rightarrow> bytes \<Rightarrow> bool \<Rightarrow> ('w, unit) dbop" where
  "db_put_raw kv key value is_atomic = db_call (tk_put kv is_atomic key value)"

definition db_compare_and_swap_raw ::
  "'w tikv \<Rightarrow> bytes \<Rightarrow> bytes option \<Rightarrow> bytes \<Rightarrow> ('w, bytes option \<times> bool) dbop" where
  "db_compare_and_swap_raw kv key previous_value new_value =
     db_call (tk_compare_and_swap kv key previous_value new_value)"

definition db_delete_raw :: "'w tikv \<Rightarrow> bytes \<Rightarrow> bool \<Rightarrow> ('w, unit) dbop" where
  "db_delete_raw kv key is_atomic = db_call (tk_delete kv is_atomic key)"

definition db_put :: "'w tikv \<Rightarrow> Key \<Rightarrow> bytes \<Rightarrow> bool \<Rightarrow> ('w, unit) dbop" where
  "db_put kv key value is_atomic =
     db_encoded (table_list_key_to_tikv \<lparr>tl_stack_id = k_stack_id key, tl_table_name = k_table_name key\<rparr>) (\<lambda>k.
     db_bind (db_call (tk_get kv k)) (\<lambda>entry. case entry of
       Some _ \<Rightarrow> db_encoded (key_to_blob key) (\<lambda>b. db_call (tk_put kv is_atomic b value))
     | None \<Rightarrow> db_res (Inl (StackIdOrTableDoseNotExist key))))"

definition db_get :: "'w tikv \<Rightarrow> Key \<Rightarrow> ('w, bytes option) dbop" where
  "db_get kv key = db_encoded (key_to_blob key) (\<lambda>b. db_call (tk_get kv b))"

definition db_delete :: "'w tikv \<Rightarrow> Key \<Rightarrow> bool \<Rightarrow> ('w, unit) dbop" where
  "db_delete kv key is_atomic = db_encoded (key_to_blob key) (\<lambda>b. db_call (tk_delete kv is_atomic b))"

definition db_delete_by_prefix :: "'w tikv \<Rightarrow> StackID \<Rightarrow> TableName \<Rightarrow> bytes \<Rightarrow> ('w, unit) dbop" where
  "db_delete_by_prefix kv i t p =
     db_encoded (scan_range (ByInnerKeyPrefix i t p)) (\<lambda>r. db_call (tk_delete_range kv r))"

definition clear_table :: "'w tikv \<Rightarrow> StackID \<Rightarrow> TableName \<Rightarrow> ('w, unit) dbop" where
  "clear_table kv i t = db_encoded (scan_range (ByTableName i t)) (\<lambda>r. db_call (tk_delete_range kv r))"

definition kv_pairs_to_tuples :: "(bytes \<times> bytes) list \<Rightarrow> DbError + (Key \<times> bytes) list" where
  "kv_pairs_to_tuples =
     collect_res (\<lambda>(k, v). res_bind (map_err InternalErr (key_try_from k)) (\<lambda>key. Inr (key, v)))"

definition db_scan :: "'w tikv \<Rightarrow> Scan \<Rightarrow> nat \<Rightarrow> ('w, (Key \<times> bytes) list) dbop" where
  "db_scan kv s limit =
     db_encoded (scan_range s) (\<lambda>r. db_bind (db_call (tk_scan kv r limit)) (\<lambda>ps. db_res (kv_pairs_to_tuples ps)))"

definition keys_from_tikv :: "bytes list \<Rightarrow> DbError + Key list" where
  "keys_from_tikv = collect_res (\<lambda>k. map_err InternalErr (key_try_from k))"

definition db_scan_keys :: "'w tikv \<Rightarrow> Scan \<Rightarrow> nat \<Rightarrow> ('w, Key list) dbop" where
  "db_scan_keys kv s limit =
     db_encoded (scan_range s) (\<lambda>r. db_bind (db_call (tk_scan_keys kv r limit)) (\<lambda>ks. db_res (keys_from_tikv ks)))"

definition list_keys_from_tikv :: "bytes list \<Rightarrow> DbError + TableListKey list" where
  "list_keys_from_tikv = collect_res (\<lambda>k. map_err InternalErr (table_list_key_try_from k))"

definition table_list :: "'w tikv \<Rightarrow> StackID \<Rightarrow> TableName option \<Rightarrow> ('w, TableName list) dbop" where
  "table_list kv i table_name_prefix =
     db_encoded (scan_table_list_range (case table_name_prefix of Some p \<Rightarrow> ListByTableName i p | None \<Rightarrow> ByStackID i)) (\<lambda>r.
     db_bind (db_call (tk_scan_keys kv r 128)) (\<lambda>ks.
     db_bind (db_res (list_keys_from_tikv ks)) (\<lambda>ls. db_res (Inr (map tl_table_name ls)))))"

definition stack_id_list :: "'w tikv \<Rightarrow> ('w, StackID list) dbop" where
  "stack_id_list kv =
     db_encoded (scan_table_list_range Whole) (\<lambda>r.
     db_bind (db_call (tk_scan_keys kv r 32)) (\<lambda>ks.
     db_bind (db_res (list_keys_from_tikv ks)) (\<lambda>ls. db_res (Inr (map tl_stack_id ls)))))"

definition db_batch_delete :: "'w tikv \<Rightarrow> Key list \<Rightarrow> ('w, unit) dbop" where
  "db_batch_delete kv keys = db_encoded (encode_all key_to_blob keys) (\<lambda>ks. db_call (tk_batch_delete kv ks))"

definition db_batch_get :: "'w tikv \<Rightarrow> Key list \<Rightarrow> ('w, (Key \<times> bytes) list) dbop" where
  "db_batch_get kv keys =
     db_encoded (encode_all key_to_blob keys) (\<lambda>ks.
     db_bind (db_call (tk_batch_get kv ks)) (\<lambda>ps. db_res (kv_pairs_to_tuples ps)))"

definition db_batch_put :: "'w tikv \<Rightarrow> (Key \<times> bytes) list \<Rightarrow> bool \<Rightarrow> ('w, unit) dbop" where
  "db_batch_put kv pairs is_atomic =
     db_encoded (encode_all (encode_pair key_to_blob) pairs) (\<lambda>ps. db_call (tk_batch_put kv is_atomic ps))"

definition db_batch_scan :: "'w tikv \<Rightarrow> Scan list \<Rightarrow> nat \<Rightarrow> ('w, (Key \<times> bytes) list) dbop" where
  "db_batch_scan kv scans each_limit =
     db_encoded (encode_all scan_range scans) (\<lambda>rs.
     db_bind (db_call (tk_batch_scan kv rs each_limit)) (\<lambda>ps. db_res (kv_pairs_to_tuples ps)))"

definition db_batch_scan_keys :: "'w tikv \<Rightarrow> Scan list \<Rightarrow> nat \<Rightarrow> ('w, Key list) dbop" where
  "db_batch_scan_keys kv scans each_limit =
     db_encoded (encode_all scan_range scans) (\<lambda>rs.
     db_bind (db_call (tk_batch_scan_keys kv rs each_limit)) (\<lambda>ks. db_res (keys_from_tikv ks)))"

definition db_compare_and_swap ::
  "'w tikv \<Rightarrow> Key \<Rightarrow> bytes option \<Rightarrow> bytes \<Rightarrow> ('w, bytes option \<times> bool) dbop" where
  "db_compare_and_swap kv key previous_value new_value =
     db_encoded (key_to_blob key) (\<lambda>b. db_call (tk_compare_and_swap kv b previous_value new_value))"

section \<open>Creating and deleting the tables of a stack\<close>

text \<open>The inner loop that empties a table, ten thousand keys at a time.\<close>

partial_function (option) delete_loop :: "'w tikv \<Rightarrow> bound_range \<Rightarrow> 'w \<Rightarrow> ((DbError + unit) \<times> 'w) option" where
  "delete_loop kv r w =
     (case tk_scan_keys kv r 10000 w of
        (Inl e, w') \<Rightarrow> Some (Inl (TikvErr e), w')
      | (Inr data_keys, w') \<Rightarrow>
          if data_keys = [] then Some (Inr (), w')
          else (case tk_batch_delete kv data_keys w' of
                  (Inl e, w'') \<Rightarrow> Some (Inl (TikvErr e), w'')
                | (Inr _, w'') \<Rightarrow> delete_loop kv r w''))"

declare delete_loop.simps [code]

fun update_tables_loop ::
  "'w tikv \<Rightarrow> StackID \<Rightarrow> TableListKey list \<Rightarrow> (TableName \<times> bool) list \<Rightarrow> TableListKey list \<Rightarrow> bytes list \<Rightarrow>
     ('w, TableListKey list \<times> bytes list) dbop" where
  "update_tables_loop kv i existing [] kvs_add kvs_delete = db_res (Inr (kvs_add, kvs_delete))"
| "update_tables_loop kv i existing ((table, is_delete) # rest) kvs_add kvs_delete =
     (let k = \<lparr>tl_stack_id = i, tl_table_name = table\<rparr> in
      if k \<notin> set existing \<and> \<not> is_delete then update_tables_loop kv i existing rest (kvs_add @ [k]) kvs_delete
      else if k \<in> set existing \<and> is_delete then
        db_encoded (table_list_key_to_tikv k) (\<lambda>meta_data_key.
        db_encoded (scan_range (ByTableName i table)) (\<lambda>r.
        db_bind (delete_loop kv r) (\<lambda>_.
          update_tables_loop kv i existing rest kvs_add (kvs_delete @ [meta_data_key]))))
      else update_tables_loop kv i existing rest kvs_add kvs_delete)"

definition update_stack_tables :: "'w tikv \<Rightarrow> StackID \<Rightarrow> (TableName \<times> bool) list \<Rightarrow> ('w, unit) dbop" where
  "update_stack_tables kv i table_action_tuples =
     db_encoded (scan_table_list_range (ByStackID i)) (\<lambda>r.
     db_bind (db_call (tk_scan_keys kv r 10000)) (\<lambda>ks.
     db_bind (db_res (list_keys_from_tikv ks)) (\<lambda>existing_tables.
     db_bind (update_tables_loop kv i existing_tables table_action_tuples [] []) (\<lambda>(kvs_add, kvs_delete).
     db_encoded (encode_all (encode_pair table_list_key_to_tikv) (map (\<lambda>k. (k, [])) kvs_add)) (\<lambda>adds.
     db_bind (db_call (tk_batch_put kv False adds)) (\<lambda>_.
     db_call (tk_batch_delete kv kvs_delete)))))))"

section \<open>Waiting for the cluster\<close>

text \<open>
  \<open>check_cluster_health\<close> connects and reads the empty key; a failed check is repeated until
  \<open>max_try_count\<close>. The delays between the checks are left out.
\<close>

definition check_cluster_health :: "('w, string, unit) act \<Rightarrow> 'w tikv \<Rightarrow> ('w, string, unit) act" where
  "check_cluster_health connect kv = act_bind connect (\<lambda>_. act_bind (tk_get kv []) (\<lambda>_. act_ok ()))"

function health_helper :: "('w, string, unit) act \<Rightarrow> nat \<Rightarrow> nat \<Rightarrow> ('w, string, unit) act" where
  "health_helper check try_count max_try_count w =
     (case check w of
        (Inl e, w') \<Rightarrow> if try_count < max_try_count then health_helper check (try_count + 1) max_try_count w'
                      else (Inl e, w')
      | (Inr _, w') \<Rightarrow> (Inr (), w'))"
  by pat_completeness auto

termination by (relation "measure (\<lambda>(_, n, m, _). m - n)") auto

definition ensure_cluster_healthy :: "('w, string, unit) act \<Rightarrow> 'w tikv \<Rightarrow> nat \<Rightarrow> ('w, string, unit) act" where
  "ensure_cluster_healthy connect kv max_try_count = health_helper (check_cluster_health connect kv) 0 max_try_count"

text \<open>\<open>start\<close>: the cluster is checked, then the manager is handed out.\<close>

definition db_start :: "('w, string, unit) act \<Rightarrow> 'w tikv \<Rightarrow> ('w, string, unit) act" where
  "db_start connect kv = ensure_cluster_healthy connect kv 5"

end
