(* ===== verification/Db_Client_Props.thy ===== *)
theory Db_Client_Props
  imports Db_Client "HOL-Library.AList"
begin

text \<open>
  What the database client does, given what TiKV promises: the loop that empties a table ends,
  creating and deleting tables changes the table list and the data exactly as asked, and reads
  and writes of a table reach no other table.
\<close>

section \<open>What TiKV promises\<close>

text \<open>
  \<open>view\<close> is the content of the store in a world. Reads leave it alone and answer from it, scans
  in key order up to their limit. A write that succeeds has its effect; one that fails may have
  had part of it, but touches no other key.
\<close>

definition range_keys :: "bound_range \<Rightarrow> (bytes \<rightharpoonup> bytes) \<Rightarrow> bytes list" where
  "range_keys r m = sorted_list_of_set {k \<in> dom m. in_range r k}"

definition tikv_reads :: "'w tikv \<Rightarrow> ('w \<Rightarrow> bytes \<rightharpoonup> bytes) \<Rightarrow> bool" where
  "tikv_reads kv view \<longleftrightarrow>
     (\<forall>k w r w'. tk_get kv k w = (r, w') \<longrightarrow> view w' = view w \<and> (\<forall>v. r = Inr v \<longrightarrow> v = view w k))
   \<and> (\<forall>rg n w r w'. tk_scan_keys kv rg n w = (r, w') \<longrightarrow>
        view w' = view w \<and> (\<forall>ks. r = Inr ks \<longrightarrow> ks = take n (range_keys rg (view w))))
   \<and> (\<forall>rg n w r w'. tk_scan kv rg n w = (r, w') \<longrightarrow>
        view w' = view w \<and> (\<forall>ps. r = Inr ps \<longrightarrow> ps = map (\<lambda>k. (k, the (view w k))) (take n (range_keys rg (view w)))))
   \<and> (\<forall>ks w r w'. tk_batch_get kv ks w = (r, w') \<longrightarrow>
        view w' = view w \<and> (\<forall>ps. r = Inr ps \<longrightarrow> set ps = {(k, v). k \<in> set ks \<and> view w k = Some v}))
   \<and> (\<forall>rgs n w r w'. tk_batch_scan kv rgs n w = (r, w') \<longrightarrow> view w' = view w)
   \<and> (\<forall>rgs n w r w'. tk_batch_scan_keys kv rgs n w = (r, w') \<longrightarrow> view w' = view w)"

text \<open>A write to the keys \<open>P\<close>: what it leaves when it succeeds, and that it stays within \<open>P\<close>.\<close>

definition writes_only :: "('w, string, unit) act \<Rightarrow> ('w \<Rightarrow> bytes \<rightharpoonup> bytes) \<Rightarrow> (bytes \<Rightarrow> bool) \<Rightarrow> (bytes \<Rightarrow> bytes option \<Rightarrow> bool) \<Rightarrow> bool" where
  "writes_only m view P new \<longleftrightarrow>
     (\<forall>w r w'. m w = (r, w') \<longrightarrow>
        (\<forall>k. \<not> P k \<longrightarrow> view w' k = view w k) \<and> (r = Inr () \<longrightarrow> (\<forall>k. P k \<longrightarrow> new k (view w' k))))"

definition tikv_writes :: "'w tikv \<Rightarrow> ('w \<Rightarrow> bytes \<rightharpoonup> bytes) \<Rightarrow> bool" where
  "tikv_writes kv view \<longleftrightarrow>
     (\<forall>a k v. writes_only (tk_put kv a k v) view (\<lambda>b. b = k) (\<lambda>_ x. x = Some v))
   \<and> (\<forall>a k. writes_only (tk_delete kv a k) view (\<lambda>b. b = k) (\<lambda>_ x. x = None))
   \<and> (\<forall>a ps. writes_only (tk_batch_put kv a ps) view (\<lambda>b. b \<in> fst ` set ps) (\<lambda>b x. \<exists>v. (b, v) \<in> set ps \<and> x = Some v))
   \<and> (\<forall>ks. writes_only (tk_batch_delete kv ks) view (\<lambda>b. b \<in> set ks) (\<lambda>_ x. x = None))
   \<and> (\<forall>rg. writes_only (tk_delete_range kv rg) view (in_range rg) (\<lambda>_ x. x = None))
   \<and> (\<forall>k p v w r w'. tk_compare_and_swap kv k p v w = (r, w') \<longrightarrow>
        (\<forall>b. b \<noteq> k \<longrightarrow> view w' b = view w b)
      \<and> (\<forall>old swapped. r = Inr (old, swapped) \<longrightarrow>
           old = view w k \<and> swapped = (old = p) \<and> view w' k = (if swapped then Some v else old)))"

definition tikv_contract :: "'w tikv \<Rightarrow> ('w \<Rightarrow> bytes \<rightharpoonup> bytes) \<Rightarrow> bool" where
  "tikv_contract kv view \<longleftrightarrow> (\<forall>w. finite (dom (view w))) \<and> tikv_reads kv view \<and> tikv_writes kv view"

lemma contract_finite: "tikv_contract kv view \<Longrightarrow> finite (dom (view w))"
  by (simp add: tikv_contract_def)

lemma contract_get:
  "tikv_contract kv view \<Longrightarrow> tk_get kv k w = (r, w') \<Longrightarrow> view w' = view w \<and> (\<forall>v. r = Inr v \<longrightarrow> v = view w k)"
  unfolding tikv_contract_def tikv_reads_def by (elim conjE) (simp del: split_paired_All)

lemma contract_scan_keys:
  "tikv_contract kv view \<Longrightarrow> tk_scan_keys kv rg n w = (r, w') \<Longrightarrow>
     view w' = view w \<and> (\<forall>ks. r = Inr ks \<longrightarrow> ks = take n (range_keys rg (view w)))"
  unfolding tikv_contract_def tikv_reads_def by (elim conjE) (simp del: split_paired_All)

lemma contract_batch_reads:
  assumes "tikv_contract kv view"
  shows "tk_batch_get kv ks w = (r, w') \<Longrightarrow> view w' = view w"
    and "tk_scan kv rg n w = (r, w') \<Longrightarrow> view w' = view w"
    and "tk_batch_scan kv rgs n w = (r, w') \<Longrightarrow> view w' = view w"
    and "tk_batch_scan_keys kv rgs n w = (q, w') \<Longrightarrow> view w' = view w"
  using assms by (simp_all add: tikv_contract_def tikv_reads_def del: split_paired_All)

lemma contract_compare_and_swap:
  "tikv_contract kv view \<Longrightarrow> tk_compare_and_swap kv k p v w = (r, w') \<Longrightarrow>
     (\<forall>b. b \<noteq> k \<longrightarrow> view w' b = view w b)
   \<and> (\<forall>old swapped. r = Inr (old, swapped) \<longrightarrow>
        old = view w k \<and> swapped = (old = p) \<and> view w' k = (if swapped then Some v else old))"
  unfolding tikv_contract_def tikv_writes_def by (elim conjE) (simp del: split_paired_All)

lemma writes_onlyD:
  "writes_only m view P new \<Longrightarrow> m w = (r, w') \<Longrightarrow>
     (\<forall>k. \<not> P k \<longrightarrow> view w' k = view w k) \<and> (r = Inr () \<longrightarrow> (\<forall>k. P k \<longrightarrow> new k (view w' k)))"
  unfolding writes_only_def by blast

lemma contract_writes:
  assumes "tikv_contract kv view"
  shows "writes_only (tk_put kv a k v) view (\<lambda>b. b = k) (\<lambda>_ x. x = Some v)"
    and "writes_only (tk_delete kv a k) view (\<lambda>b. b = k) (\<lambda>_ x. x = None)"
    and "writes_only (tk_batch_put kv a ps) view (\<lambda>b. b \<in> fst ` set ps) (\<lambda>b x. \<exists>v. (b, v) \<in> set ps \<and> x = Some v)"
    and "writes_only (tk_batch_delete kv ks) view (\<lambda>b. b \<in> set ks) (\<lambda>_ x. x = None)"
    and "writes_only (tk_delete_range kv rg) view (in_range rg) (\<lambda>_ x. x = None)"
  using assms unfolding tikv_contract_def tikv_writes_def by (simp_all del: split_paired_All)

lemmas contract_put = writes_onlyD [OF contract_writes(1)]
  and contract_delete = writes_onlyD [OF contract_writes(2)]
  and contract_batch_put = writes_onlyD [OF contract_writes(3)]
  and contract_batch_delete = writes_onlyD [OF contract_writes(4)]
  and contract_delete_range = writes_onlyD [OF contract_writes(5)]

lemma range_keys_set: "finite (dom m) \<Longrightarrow> set (range_keys r m) = {k \<in> dom m. in_range r k}"
  by (simp add: range_keys_def)

section \<open>The loop that empties a table\<close>

lemma delete_loop_empties:
  assumes c: "tikv_contract kv view"
  shows "\<exists>q w'. delete_loop kv r w = Some (q, w')
     \<and> (\<forall>k. \<not> in_range r k \<longrightarrow> view w' k = view w k) \<and> (q = Inr () \<longrightarrow> (\<forall>k. in_range r k \<longrightarrow> view w' k = None))"
proof (induction "card {k \<in> dom (view w). in_range r k}" arbitrary: w rule: less_induct)
  case less
  obtain s w1 where s: "tk_scan_keys kv r 10000 w = (s, w1)" by fastforce
  note scan = contract_scan_keys [OF c s]
  note finite = contract_finite [OF c, of w]
  show ?case
  proof (cases s)
    case (Inl e)
    with s scan show ?thesis by (subst delete_loop.simps) simp
  next
    case (Inr ks)
    have ks: "set ks \<subseteq> {k \<in> dom (view w). in_range r k}"
      using scan Inr range_keys_set [OF finite, of r] set_take_subset by (metis (no_types, lifting))
    show ?thesis
    proof (cases "ks = []")
      case True
      with scan Inr have "range_keys r (view w) = []" by auto
      with range_keys_set [OF finite, of r] have "in_range r k \<Longrightarrow> view w k = None" for k by auto
      with s scan Inr True show ?thesis by (subst delete_loop.simps) simp
    next
      case False
      obtain d w2 where d: "tk_batch_delete kv ks w1 = (d, w2)" by fastforce
      note del = contract_batch_delete [OF c d]
      have out: "\<not> in_range r k \<Longrightarrow> view w2 k = view w k" for k
        using del scan ks by auto
      show ?thesis
      proof (cases d)
        case (Inl e)
        with s d Inr False out show ?thesis by (subst delete_loop.simps) simp
      next
        case (Inr u)
        have "view w2 k = (if k \<in> set ks then None else view w k)" for k
          using del scan Inr by simp
        then have "{k \<in> dom (view w2). in_range r k} = {k \<in> dom (view w). in_range r k} - set ks"
          by (auto split: if_splits)
        moreover have "card ({k \<in> dom (view w). in_range r k} - set ks) < card {k \<in> dom (view w). in_range r k}"
          using ks finite hd_in_set [OF False] by (intro psubset_card_mono) auto
        ultimately have "card {k \<in> dom (view w2). in_range r k} < card {k \<in> dom (view w). in_range r k}" by simp
        from less.hyps [OF this] obtain q w' where q: "delete_loop kv r w2 = Some (q, w')"
          "\<forall>k. \<not> in_range r k \<longrightarrow> view w' k = view w2 k" "q = Inr () \<longrightarrow> (\<forall>k. in_range r k \<longrightarrow> view w' k = None)"
          by blast
        have "delete_loop kv r w = Some (q, w')"
          using s d \<open>s = Inr ks\<close> False Inr q(1) by (subst delete_loop.simps) simp
        with q(2,3) out show ?thesis by simp
      qed
    qed
  qed
qed

section \<open>Operations return\<close>

text \<open>\<open>db_ensures m P\<close>: the operation returns in every world, and an answer satisfies \<open>P\<close>.\<close>

definition db_ensures :: "('w, 'a) dbop \<Rightarrow> ('a \<Rightarrow> bool) \<Rightarrow> bool" where
  "db_ensures m P \<longleftrightarrow> (\<forall>w. \<exists>r w'. m w = Some (r, w') \<and> (\<forall>x. r = Inr x \<longrightarrow> P x))"

named_theorems db_intros \<open>composing what database operations ensure\<close>

lemma db_ensures_call [db_intros]: "db_ensures (db_call m) (\<lambda>_. True)"
  by (simp add: db_ensures_def db_call_def apfst_def map_prod_def split_beta)

lemma db_ensures_res [db_intros]: "(\<And>x. r = Inr x \<Longrightarrow> P x) \<Longrightarrow> db_ensures (db_res r) P"
  by (simp add: db_ensures_def db_res_def)

lemma db_ensures_bind [db_intros]:
  assumes "db_ensures m P" and "\<And>x. P x \<Longrightarrow> db_ensures (f x) Q"
  shows "db_ensures (db_bind m f) Q"
  unfolding db_ensures_def
proof
  fix w
  obtain r w' where m: "m w = Some (r, w')" "\<forall>x. r = Inr x \<longrightarrow> P x"
    using assms(1) unfolding db_ensures_def by blast
  show "\<exists>q w''. db_bind m f w = Some (q, w'') \<and> (\<forall>x. q = Inr x \<longrightarrow> Q x)"
  proof (cases r)
    case (Inr x)
    with m assms(2) [of x] show ?thesis by (auto simp: db_bind_def db_ensures_def)
  qed (simp add: db_bind_def m(1))
qed

lemma db_ensures_encoded [db_intros]: "x = Some b \<Longrightarrow> db_ensures (f b) P \<Longrightarrow> db_ensures (db_encoded x f) P"
  by (simp add: db_encoded_def)

lemma db_ensures_weaken: "db_ensures m P \<Longrightarrow> (\<And>x. P x \<Longrightarrow> Q x) \<Longrightarrow> db_ensures m Q"
  by (fastforce simp: db_ensures_def)

lemma db_call_Inr [simp]: "db_call m w = Some (Inr y, w') \<longleftrightarrow> m w = (Inr y, w')"
  by (cases "m w") (auto simp: db_call_def res_simps)

lemma db_res_Inr [simp]: "db_res r w = Some (Inr y, w') \<longleftrightarrow> r = Inr y \<and> w' = w"
  by (auto simp: db_res_def)

lemma db_bind_Inr:
  "db_bind m f w = Some (Inr y, w'') \<longleftrightarrow> (\<exists>x w'. m w = Some (Inr x, w') \<and> f x w' = Some (Inr y, w''))"
  by (cases "m w") (auto simp: db_bind_def split: sum.splits)

lemma db_encoded_Some [simp]: "db_encoded (Some b) f = f b"
  by (simp add: db_encoded_def)

lemma encode_all_Some: "(\<And>x. x \<in> set xs \<Longrightarrow> f x = Some (g x)) \<Longrightarrow> encode_all f xs = Some (map g xs)"
  unfolding encode_all_def by (induction xs) simp_all

section \<open>The table list of a stack\<close>

abbreviation list_key_of :: "StackID \<Rightarrow> TableName \<Rightarrow> TableListKey" where
  "list_key_of i t \<equiv> \<lparr>tl_stack_id = i, tl_table_name = t\<rparr>"

lemma list_key_of_self: "list_key_of (tl_stack_id l) (tl_table_name l) = l"
  by simp

definition listed :: "(bytes \<rightharpoonup> bytes) \<Rightarrow> StackID \<Rightarrow> TableName \<Rightarrow> bool" where
  "listed m i t \<longleftrightarrow> m (table_list_blob (list_key_of i t)) \<noteq> None"

definition list_prefix :: "StackID \<Rightarrow> bytes" where
  "list_prefix i = table_list_blob (list_key_of i [])"

lemma table_list_blob_split: "table_list_blob l = list_prefix (tl_stack_id l) @ as_bytes (tl_table_name l)"
  by (simp add: list_prefix_def table_list_blob_def as_bytes_def)

lemma length_list_prefix: "stack_id_wf i \<Longrightarrow> length (list_prefix i) = 40"
  by (simp add: list_prefix_def table_list_blob_def as_bytes_def)

lemma list_range_wf:
  assumes "stack_id_wf i"
  shows "scan_table_list_range (ByStackID i) = Some (subset_range (list_prefix i))"
  using assms by (simp add: prefixed_by_two_chunk_bound_range_def push_len_def list_prefix_def table_list_blob_def
      as_bytes_def)

lemma list_prefix_of:
  assumes "table_list_key_wf l" and "stack_id_wf i"
  shows "prefix (list_prefix i) (table_list_blob l) \<longleftrightarrow> tl_stack_id l = i"
proof
  assume "prefix (list_prefix i) (table_list_blob l)"
  then have "list_prefix i = list_prefix (tl_stack_id l)"
    using assms by (auto simp: prefix_def table_list_blob_split length_list_prefix table_list_key_wf_def append_eq_append_conv)
  then show "tl_stack_id l = i"
    using assms list_key.enc_exact_inj [of "list_key_of i []" "list_key_of (tl_stack_id l) []"]
    by (simp add: list_prefix_def table_list_key_wf_def table_name_wf_def valid_str_def as_bytes_def)
qed (simp add: table_list_blob_split)

lemma list_range_in:
  assumes l: "table_list_key_wf l" and i: "stack_id_wf i"
  shows "in_range (subset_range (list_prefix i)) (table_list_blob l) \<longleftrightarrow> tl_stack_id l = i"
proof -
  have "list_prefix i \<noteq> replicate n 255" for n
    by (cases n) (simp_all add: list_prefix_def table_list_blob_def)
  then obtain p b n where pbn: "list_prefix i = p @ b # replicate n 255" "b \<noteq> 255"
    using byte_split [of "list_prefix i"] by auto
  have "length (table_list_blob l) \<ge> 40"
    using l by (simp add: table_list_blob_split length_list_prefix table_list_key_wf_def)
  moreover have "length p + Suc n = 40" using pbn length_list_prefix [OF i] by simp
  ultimately have "table_list_blob l \<noteq> p @ (b + 1) # replicate m 0" if "m < n" for m
    using that by (metis add_less_cancel_left length_Cons length_append length_replicate linorder_not_less Suc_less_eq)
  with subset_range_in [OF pbn(2), of p n] pbn(1) list_prefix_of [OF l i] show ?thesis by auto
qed

text \<open>The range of a table list contains no key of a table.\<close>

lemma list_range_no_table_key:
  assumes i: "stack_id_wf i" and b: "in_range (subset_range (list_prefix i)) b"
  shows "\<not> prefix (table_prefix j t) b"
proof -
  obtain p c n where pcn: "list_prefix i = p @ c # replicate n 255" "c \<noteq> 255"
    using byte_split [of "list_prefix i"] by (auto simp: list_prefix_def table_list_blob_def Cons_replicate_eq)
  have "p \<noteq> []"
    using pcn(1) by (auto simp: list_prefix_def table_list_blob_def as_bytes_def TABLE_LIST_METADATA_def byte_of_char_def
        Cons_replicate_eq)
  then obtain p' where p: "p = 5 # p'"
    using pcn(1) by (cases p) (auto simp: list_prefix_def table_list_blob_def)
  from b subset_range_in [OF pcn(2), of p n b] pcn(1) have "\<exists>b'. b = 5 # b'" by (auto simp: p prefix_def)
  then show ?thesis by (auto simp: prefix_def table_prefix_def key_blob_def)
qed

lemma list_keys_from_tikv_Inr:
  "list_keys_from_tikv ks = Inr ls \<longleftrightarrow> (\<forall>l \<in> set ls. table_list_key_wf l) \<and> ks = map table_list_blob ls"
  unfolding list_keys_from_tikv_def
proof (induction ks arbitrary: ls)
  case (Cons k ks)
  then show ?case by (cases ls) (auto simp: res_simps table_list_key_try_from_Inr)
qed auto

text \<open>The entries that the scan finds, when the scan is not cut off by its limit.\<close>

lemma scanned_tables:
  assumes c: "tikv_contract kv view" and i: "stack_id_wf i"
    and scan: "tk_scan_keys kv (subset_range (list_prefix i)) n w = (Inr ks, w')"
    and n: "length (range_keys (subset_range (list_prefix i)) (view w)) \<le> n"
    and ls: "list_keys_from_tikv ks = Inr ls"
  shows "set ls = {l. table_list_key_wf l \<and> tl_stack_id l = i \<and> listed (view w) i (tl_table_name l)}"
proof -
  have ks: "set ks = {k \<in> dom (view w). in_range (subset_range (list_prefix i)) k}"
    using contract_scan_keys [OF c scan] n range_keys_set [OF contract_finite [OF c]] by simp
  have wf: "\<forall>l \<in> set ls. table_list_key_wf l" and map: "ks = map table_list_blob ls"
    using ls by (simp_all add: list_keys_from_tikv_Inr)
  have "l \<in> set ls \<longleftrightarrow> table_list_key_wf l \<and> table_list_blob l \<in> set ks" for l
    using wf map list_key.enc_exact_inj by auto
  then show ?thesis
    unfolding ks listed_def using list_range_in [OF _ i] by (auto simp: dom_def list_key_of_self)
qed

section \<open>Creating and deleting tables\<close>

definition gone_tables :: "TableListKey list \<Rightarrow> StackID \<Rightarrow> (TableName \<times> bool) list \<Rightarrow> TableName list" where
  "gone_tables existing i tas = map fst (filter (\<lambda>(t, d). d \<and> list_key_of i t \<in> set existing) tas)"

definition fresh_tables :: "TableListKey list \<Rightarrow> StackID \<Rightarrow> (TableName \<times> bool) list \<Rightarrow> TableName list" where
  "fresh_tables existing i tas = map fst (filter (\<lambda>(t, d). \<not> d \<and> list_key_of i t \<notin> set existing) tas)"

definition in_tables :: "StackID \<Rightarrow> TableName list \<Rightarrow> bytes \<Rightarrow> bool" where
  "in_tables i ts b \<longleftrightarrow> (\<exists>t \<in> set ts. prefix (table_prefix i t) b)"

lemma tables_Cons [simp]:
  "gone_tables existing i ((t, d) # tas) =
     (if d \<and> list_key_of i t \<in> set existing then [t] else []) @ gone_tables existing i tas"
  "fresh_tables existing i ((t, d) # tas) =
     (if \<not> d \<and> list_key_of i t \<notin> set existing then [t] else []) @ fresh_tables existing i tas"
  "in_tables i (t # ts) b \<longleftrightarrow> prefix (table_prefix i t) b \<or> in_tables i ts b"
  by (auto simp: gone_tables_def fresh_tables_def in_tables_def)

lemma table_range_in:
  assumes "table_name_wf t"
  shows "in_range (subset_range (table_prefix i t)) b \<longleftrightarrow> prefix (table_prefix i t) b"
  using table_prefix_last [OF assms] by (intro subset_range_exact) simp

lemma update_tables_loop_effect:
  assumes c: "tikv_contract kv view" and i: "stack_id_wf i"
    and "\<forall>(t, d) \<in> set tas. table_name_wf t"
  shows "\<exists>q w'. update_tables_loop kv i existing tas adds dels w = Some (q, w')
     \<and> (\<forall>a d. q = Inr (a, d) \<longrightarrow>
          a = adds @ map (list_key_of i) (fresh_tables existing i tas)
        \<and> d = dels @ map (\<lambda>t. table_list_blob (list_key_of i t)) (gone_tables existing i tas)
        \<and> (\<forall>b. view w' b = (if in_tables i (gone_tables existing i tas) b then None else view w b)))"
  using assms(3)
proof (induction tas arbitrary: adds dels w)
  case Nil
  then show ?case by (simp add: db_res_def fresh_tables_def gone_tables_def in_tables_def)
next
  case (Cons td tas)
  obtain t d where td: "td = (t, d)" by fastforce
  with Cons.prems have t: "table_name_wf t" and rest: "\<forall>(t, d) \<in> set tas. table_name_wf t" by auto
  let ?k = "list_key_of i t"
  consider (add) "\<not> d" "?k \<notin> set existing" | (del) d "?k \<in> set existing" | (same) "d \<longleftrightarrow> ?k \<notin> set existing"
    by blast
  then show ?case
  proof cases
    case add
    with Cons.IH [OF rest, of "adds @ [?k]" dels w] td show ?thesis by simp
  next
    case del
    obtain q w1 where q: "delete_loop kv (subset_range (table_prefix i t)) w = Some (q, w1)"
      "\<forall>b. \<not> prefix (table_prefix i t) b \<longrightarrow> view w1 b = view w b"
      "q = Inr () \<longrightarrow> (\<forall>b. prefix (table_prefix i t) b \<longrightarrow> view w1 b = None)"
      using delete_loop_empties [OF c, of "subset_range (table_prefix i t)" w] by (auto simp: table_range_in [OF t])
    have enc: "table_list_key_to_tikv ?k = Some (table_list_blob ?k)"
      using i t by (simp add: table_list_key_to_tikv_wf table_list_key_wf_def)
    have step: "update_tables_loop kv i existing (td # tas) adds dels w =
        db_bind (delete_loop kv (subset_range (table_prefix i t)))
          (\<lambda>_. update_tables_loop kv i existing tas adds (dels @ [table_list_blob ?k])) w"
      using del td by (simp add: enc scan_range_wf(1) [OF i t] del: scan_range.simps)
    show ?thesis
    proof (cases q)
      case (Inl e)
      with step q(1) show ?thesis by (simp add: db_bind_def)
    next
      case (Inr u)
      with q(2,3) have w1: "view w1 = (\<lambda>b. if prefix (table_prefix i t) b then None else view w b)" by auto
      from Inr step q(1) have loop: "update_tables_loop kv i existing (td # tas) adds dels w =
          update_tables_loop kv i existing tas adds (dels @ [table_list_blob ?k]) w1"
        by (simp add: db_bind_def)
      show ?thesis
        unfolding loop using Cons.IH [OF rest, of adds "dels @ [table_list_blob ?k]" w1] td del
        by (auto simp: w1)
    qed
  next
    case same
    with Cons.IH [OF rest, of adds dels w] td show ?thesis by auto
  qed
qed

abbreviation list_blob :: "StackID \<Rightarrow> TableName \<Rightarrow> bytes" where
  "list_blob i t \<equiv> table_list_blob (list_key_of i t)"

lemma encode_list_keys:
  assumes "\<forall>k \<in> set ks. table_list_key_wf k"
  shows "encode_all (encode_pair table_list_key_to_tikv) (map (\<lambda>k. (k, [])) ks) =
     Some (map (\<lambda>k. (table_list_blob k, [])) ks)"
  using assms by (subst encode_all_Some [where g = "\<lambda>kv. (table_list_blob (fst kv), snd kv)"])
    (auto simp: encode_pair_def table_list_key_to_tikv_wf)

lemma fresh_tables_wf:
  "stack_id_wf i \<Longrightarrow> \<forall>(t, d) \<in> set tas. table_name_wf t \<Longrightarrow>
     \<forall>k \<in> set (map (list_key_of i) (fresh_tables existing i tas)). table_list_key_wf k"
  by (auto simp: fresh_tables_def table_list_key_wf_def)

lemma update_tables_loop_ensures:
  assumes "tikv_contract kv view" and "stack_id_wf i" and "\<forall>(t, d) \<in> set tas. table_name_wf t"
  shows "db_ensures (update_tables_loop kv i existing tas [] []) (\<lambda>(a, d). \<forall>k \<in> set a. table_list_key_wf k)"
  unfolding db_ensures_def
proof
  fix w
  from update_tables_loop_effect [OF assms, of existing "[]" "[]" w]
  show "\<exists>r w'. update_tables_loop kv i existing tas [] [] w = Some (r, w')
      \<and> (\<forall>x. r = Inr x \<longrightarrow> (case x of (a, d) \<Rightarrow> \<forall>k \<in> set a. table_list_key_wf k))"
    using fresh_tables_wf [OF assms(2,3), of existing] by fastforce
qed

lemma update_stack_tables_ensures:
  assumes "tikv_contract kv view" and "stack_id_wf i" and "\<forall>(t, d) \<in> set tas. table_name_wf t"
  shows "db_ensures (update_stack_tables kv i tas) (\<lambda>_. True)"
  unfolding update_stack_tables_def list_range_wf [OF assms(2)] db_encoded_Some
  by (rule db_intros TrueI update_tables_loop_ensures [OF assms] encode_list_keys | clarsimp)+

lemma update_stack_tables_store:
  assumes c: "tikv_contract kv view" and i: "stack_id_wf i" and tas: "\<forall>(t, d) \<in> set tas. table_name_wf t"
    and n: "length (range_keys (subset_range (list_prefix i)) (view w)) \<le> 10000"
    and ok: "update_stack_tables kv i tas w = Some (Inr (), w')"
  obtains existing
  where "set existing = {l. table_list_key_wf l \<and> tl_stack_id l = i \<and> listed (view w) i (tl_table_name l)}"
    and "range_keys (subset_range (list_prefix i)) (view w) = map table_list_blob existing"
    and "\<And>b. view w' b = (if b \<in> list_blob i ` set (gone_tables existing i tas) then None
           else if b \<in> list_blob i ` set (fresh_tables existing i tas) then Some []
           else if in_tables i (gone_tables existing i tas) b then None else view w b)"
proof -
  from ok obtain ks existing a d w1 w2 w3 where
    scan: "tk_scan_keys kv (subset_range (list_prefix i)) 10000 w = (Inr ks, w1)"
    and ls: "list_keys_from_tikv ks = Inr existing"
    and loop: "update_tables_loop kv i existing tas [] [] w1 = Some (Inr (a, d), w2)"
    and put: "db_encoded (encode_all (encode_pair table_list_key_to_tikv) (map (\<lambda>k. (k, [])) a))
        (\<lambda>adds. db_bind (db_call (tk_batch_put kv False adds)) (\<lambda>_. db_call (tk_batch_delete kv d))) w2 = Some (Inr (), w')"
    unfolding update_stack_tables_def list_range_wf [OF i] by (auto simp: db_bind_Inr)
  from update_tables_loop_effect [OF c i tas, of existing "[]" "[]" w1] loop
  have a: "a = map (list_key_of i) (fresh_tables existing i tas)"
    and d: "d = map (list_blob i) (gone_tables existing i tas)"
    and w2: "\<And>b. view w2 b = (if in_tables i (gone_tables existing i tas) b then None else view w1 b)"
    by auto
  from put obtain w3 where
    put: "tk_batch_put kv False (map (\<lambda>k. (table_list_blob k, [])) a) w2 = (Inr (), w3)"
    and del: "tk_batch_delete kv d w3 = (Inr (), w')"
    using encode_list_keys [OF fresh_tables_wf [OF i tas, of existing]] by (auto simp: a db_bind_Inr)
  have w3: "view w3 b = (if b \<in> list_blob i ` set (fresh_tables existing i tas) then Some [] else view w2 b)" for b
    using contract_batch_put [OF c put] by (auto simp: a image_iff)
  have w': "view w' b = (if b \<in> list_blob i ` set (gone_tables existing i tas) then None else view w3 b)" for b
    using contract_batch_delete [OF c del] by (auto simp: d)
  have "range_keys (subset_range (list_prefix i)) (view w) = map table_list_blob existing"
    using contract_scan_keys [OF c scan] n ls by (simp add: list_keys_from_tikv_Inr)
  then show thesis
    using that [of existing] scanned_tables [OF c i scan n ls] contract_scan_keys [OF c scan]
    by (simp add: w' w3 w2 split del: if_split cong: if_cong)
qed

lemma existing_iff:
  assumes "set existing = {l. table_list_key_wf l \<and> tl_stack_id l = i \<and> listed m i (tl_table_name l)}"
    and "stack_id_wf i" and "\<forall>(t, d) \<in> set tas. table_name_wf t"
  shows "t \<in> set (gone_tables existing i tas) \<longleftrightarrow> (t, True) \<in> set tas \<and> listed m i t"
    and "t \<in> set (fresh_tables existing i tas) \<longleftrightarrow> (t, False) \<in> set tas \<and> \<not> listed m i t"
  using assms by (auto simp: gone_tables_def fresh_tables_def table_list_key_wf_def image_iff)

lemma list_blob_eq:
  "stack_id_wf i \<Longrightarrow> stack_id_wf j \<Longrightarrow> table_name_wf t \<Longrightarrow> table_name_wf u \<Longrightarrow>
     list_blob j u = list_blob i t \<longleftrightarrow> j = i \<and> u = t"
  using list_key.enc_exact_inj [of "list_key_of j u" "list_key_of i t"] by (auto simp: table_list_key_wf_def)

lemma list_blob_not_in_tables: "\<not> in_tables i ts (table_list_blob l)"
  by (simp add: in_tables_def table_list_not_in_table)

lemma key_in_tables:
  assumes "key_wf k" and "stack_id_wf i" and "\<forall>t \<in> set ts. table_name_wf t"
  shows "in_tables i ts (key_blob k) \<longleftrightarrow> k_stack_id k = i \<and> k_table_name k \<in> set ts"
  using assms table_prefix_of_key [OF assms(1,2)] by (auto simp: in_tables_def)

section \<open>A store in memory\<close>

definition mem_keys :: "(bytes \<times> bytes) list \<Rightarrow> bound_range \<Rightarrow> bytes list" where
  "mem_keys m rg = sort (remdups (filter (in_range rg) (map fst m)))"

definition mem_tikv :: "(bytes \<times> bytes) list tikv" where
  "mem_tikv =
     \<lparr>tk_get = (\<lambda>k m. (Inr (map_of m k), m)),
      tk_put = (\<lambda>_ k v m. (Inr (), AList.update k v m)),
      tk_delete = (\<lambda>_ k m. (Inr (), AList.delete k m)),
      tk_scan = (\<lambda>rg n m. (Inr (map (\<lambda>k. (k, the (map_of m k))) (take n (mem_keys m rg))), m)),
      tk_scan_keys = (\<lambda>rg n m. (Inr (take n (mem_keys m rg)), m)),
      tk_batch_put = (\<lambda>_ ps m. (Inr (), rev ps @ m)),
      tk_batch_get = (\<lambda>ks m. (Inr (List.map_filter (\<lambda>k. map_option (Pair k) (map_of m k)) ks), m)),
      tk_batch_delete = (\<lambda>ks m. (Inr (), filter (\<lambda>(k, v). k \<notin> set ks) m)),
      tk_batch_scan = (\<lambda>rgs n m. (Inr (concat (map (\<lambda>rg. map (\<lambda>k. (k, the (map_of m k))) (take n (mem_keys m rg))) rgs)), m)),
      tk_batch_scan_keys = (\<lambda>rgs n m. (Inr (concat (map (\<lambda>rg. take n (mem_keys m rg)) rgs)), m)),
      tk_delete_range = (\<lambda>rg m. (Inr (), filter (\<lambda>(k, v). \<not> in_range rg k) m)),
      tk_compare_and_swap = (\<lambda>k p v m. (Inr (map_of m k, map_of m k = p),
        if map_of m k = p then AList.update k v m else m))\<rparr>"

lemma mem_keys_eq: "mem_keys m rg = range_keys rg (map_of m)"
  unfolding mem_keys_def range_keys_def sorted_list_of_set_sort_remdups [symmetric]
  by (rule arg_cong [of _ _ sorted_list_of_set]) (auto simp: dom_map_of_conv_image_fst)

lemma map_of_filter_keys: "map_of (filter (\<lambda>(k, v). P k) m) k = (if P k then map_of m k else None)"
  by (induction m) auto

lemma mem_tikv_contract: "tikv_contract mem_tikv map_of"
proof -
  have "\<exists>v. (b, v) \<in> set ps \<and> map_of (rev ps @ m) b = Some v" if b: "b \<in> fst ` set ps"
    for b :: bytes and ps m :: "(bytes \<times> bytes) list"
  proof -
    obtain v where "map_of (rev ps) b = Some v"
      using b map_of_eq_None_iff [of "rev ps" b] by (cases "map_of (rev ps) b") auto
    then show ?thesis using map_of_SomeD [of "rev ps" b v] by (simp add: map_add_def)
  qed
  moreover have "map_of (rev ps @ m) b = map_of m b" if "b \<notin> fst ` set ps"
    for b :: bytes and ps m :: "(bytes \<times> bytes) list"
    using that map_of_eq_None_iff [of "rev ps" b] by (simp add: map_add_def)
  ultimately have "tikv_writes mem_tikv map_of"
    unfolding tikv_writes_def writes_only_def mem_tikv_def
    by (simp add: update_conv' delete_conv' map_of_filter_keys del: map_of_append)
  moreover have "tikv_reads mem_tikv map_of"
    by (auto simp: tikv_reads_def mem_tikv_def mem_keys_eq map_filter_def image_iff) force
  ultimately show ?thesis by (simp add: tikv_contract_def finite_dom_map_of)
qed

definition demo_store :: "(bytes \<times> bytes) list" where
  "demo_store =
     [(list_blob demo_stack_id ''a'', []),
      (key_blob \<lparr>k_stack_id = demo_stack_id, k_table_name = ''a'', k_inner_key = [1]\<rparr>, [9])]"

lemma demo_update_ok:
  "map_option fst (update_stack_tables mem_tikv demo_stack_id [(''a'', True), (''b'', False)] demo_store) = Some (Inr ())"
  by code_simp

lemma demo_put_ok:
  "map_option fst (db_put mem_tikv \<lparr>k_stack_id = demo_stack_id, k_table_name = ''a'', k_inner_key = [2]\<rparr> [8] False demo_store)
     = Some (Inr ())"
  by code_simp

lemma mem_range_keys_length: "length (range_keys rg (map_of m)) \<le> length m"
proof -
  have "length (remdups (filter (in_range rg) (map fst m))) \<le> length (filter (in_range rg) (map fst m))"
    by (rule length_remdups_leq)
  also have "\<dots> \<le> length (map fst m)" by (rule length_filter_le)
  finally show ?thesis by (simp add: mem_keys_eq [symmetric] mem_keys_def)
qed

section \<open>Properties\<close>

text \<open>
  C22. Creating and deleting the tables of a stack always returns: the inner loop that empties a
  deleted table, a page of keys at a time, ends on every store, and no key is too long to encode.
\<close>

theorem update_stack_tables_terminates:
  assumes "tikv_contract kv view" and "stack_id_wf i" and "\<forall>(t, d) \<in> set tas. table_name_wf t"
  shows "\<exists>r w'. update_stack_tables kv i tas w = Some (r, w')"
  using update_stack_tables_ensures [OF assms] unfolding db_ensures_def by blast

theorem update_stack_tables_terminates_witness:
  "\<exists>r w'. update_stack_tables mem_tikv demo_stack_id [(''a'', True), (''b'', False)] demo_store = Some (r, w')"
  using update_stack_tables_terminates [OF mem_tikv_contract demo_names(1),
      of "[(''a'', True), (''b'', False)]" demo_store] demo_names by simp

text \<open>
  C19. A successful update of a stack's tables does exactly what was asked: a listed table marked
  for deletion leaves the table list together with all its data, an unlisted one not marked is
  created, every other table keeps its entry and its data, also when it belongs to another stack
  (up to the ten thousand entries that one scan of the table list returns).
\<close>

theorem update_stack_tables_exact:
  assumes c: "tikv_contract kv view" and i: "stack_id_wf i" and tas: "\<forall>(t, d) \<in> set tas. table_name_wf t"
    and rg: "scan_table_list_range (ByStackID i) = Some rg" and n: "length (range_keys rg (view w)) \<le> 10000"
    and ok: "update_stack_tables kv i tas w = Some (Inr (), w')"
  shows "(stack_id_wf j \<and> table_name_wf u \<longrightarrow>
      listed (view w') j u =
        (if j = i then if listed (view w) i u then (u, True) \<notin> set tas else (u, False) \<in> set tas
         else listed (view w) j u))
    \<and> (key_wf k \<longrightarrow> view w' (key_blob k) =
        (if k_stack_id k = i \<and> listed (view w) i (k_table_name k) \<and> (k_table_name k, True) \<in> set tas then None
         else view w (key_blob k)))"
proof -
  from n rg have n': "length (range_keys (subset_range (list_prefix i)) (view w)) \<le> 10000"
    by (simp add: list_range_wf [OF i] del: scan_table_list_range.simps)
  obtain existing where
    e: "set existing = {l. table_list_key_wf l \<and> tl_stack_id l = i \<and> listed (view w) i (tl_table_name l)}"
    and w': "\<And>b. view w' b = (if b \<in> list_blob i ` set (gone_tables existing i tas) then None
           else if b \<in> list_blob i ` set (fresh_tables existing i tas) then Some []
           else if in_tables i (gone_tables existing i tas) b then None else view w b)"
    by (rule update_stack_tables_store [OF c i tas n' ok]) (rule that)
  note iff = existing_iff [OF e i tas]
  have wf: "\<forall>t \<in> set (gone_tables existing i tas). table_name_wf t" "\<forall>t \<in> set (fresh_tables existing i tas). table_name_wf t"
    using tas by (auto simp: iff)
  have "listed (view w') j u =
        (if j = i then if listed (view w) i u then (u, True) \<notin> set tas else (u, False) \<in> set tas
         else listed (view w) j u)" if "stack_id_wf j" "table_name_wf u"
  proof -
    have "list_blob j u \<in> list_blob i ` S \<longleftrightarrow> j = i \<and> u \<in> S" if "\<forall>t \<in> S. table_name_wf t" for S
      using that \<open>stack_id_wf j\<close> \<open>table_name_wf u\<close> list_blob_eq [OF i] by (auto simp: image_iff)
    note S = this [OF wf(1)] this [OF wf(2)]
    show ?thesis
      unfolding listed_def [of "view w'"] w' S by (auto simp: list_blob_not_in_tables iff listed_def)
  qed
  moreover have "view w' (key_blob k) =
        (if k_stack_id k = i \<and> listed (view w) i (k_table_name k) \<and> (k_table_name k, True) \<in> set tas then None
         else view w (key_blob k))" if "key_wf k"
    unfolding w' using key_not_table_list [of k] key_in_tables [OF that i wf(1)] by (auto simp: iff)
  ultimately show ?thesis by blast
qed

theorem update_stack_tables_exact_witness:
  "\<exists>w'. update_stack_tables mem_tikv demo_stack_id [(''a'', True), (''b'', False)] demo_store = Some (Inr (), w')
    \<and> \<not> listed (map_of w') demo_stack_id ''a'' \<and> listed (map_of w') demo_stack_id ''b''
    \<and> map_of w' (key_blob \<lparr>k_stack_id = demo_stack_id, k_table_name = ''a'', k_inner_key = [1]\<rparr>) = None"
proof -
  obtain w' where w': "update_stack_tables mem_tikv demo_stack_id [(''a'', True), (''b'', False)] demo_store = Some (Inr (), w')"
    using demo_update_ok by auto
  have n: "length (range_keys (subset_range (list_prefix demo_stack_id)) (map_of demo_store)) \<le> 10000"
    using mem_range_keys_length [of _ demo_store] by (rule order_trans) (simp add: demo_store_def)
  have l: "listed (map_of demo_store) demo_stack_id ''a''" "\<not> listed (map_of demo_store) demo_stack_id ''b''"
    using list_blob_eq [OF demo_names(1) demo_names(1) demo_names(2) demo_names(3)] key_not_table_list [symmetric]
    by (auto simp: listed_def demo_store_def)
  note exact = update_stack_tables_exact [OF mem_tikv_contract demo_names(1) _ list_range_wf [OF demo_names(1)] n w']
  show ?thesis
    using w' l demo_names exact [of demo_stack_id "''a''"] exact [of demo_stack_id "''b''"]
      exact [of _ _ "\<lparr>k_stack_id = demo_stack_id, k_table_name = ''a'', k_inner_key = [1]\<rparr>"]
    by (simp add: key_wf_def)
qed

text \<open>
  C23. Writing a cell succeeds only in a table on the table list, and then a read of the cell gives
  the value written; writing to a table that is not on the list reports an error and changes
  nothing; in every case, no other cell and no entry of the table list changes.
\<close>

theorem put_then_get:
  assumes c: "tikv_contract kv view" and k: "key_wf k" and put: "db_put kv k v a w = Some (r, w')"
  shows "(r = Inr () \<longrightarrow> listed (view w) (k_stack_id k) (k_table_name k)
      \<and> (\<forall>x w''. db_get kv k w' = Some (Inr x, w'') \<longrightarrow> x = Some v))
    \<and> (\<not> listed (view w) (k_stack_id k) (k_table_name k) \<longrightarrow> r \<noteq> Inr () \<and> view w' = view w)
    \<and> (key_wf k' \<and> k' \<noteq> k \<longrightarrow> view w' (key_blob k') = view w (key_blob k'))
    \<and> listed (view w') j t = listed (view w) j t"
proof -
  let ?l = "list_key_of (k_stack_id k) (k_table_name k)"
  have enc: "table_list_key_to_tikv ?l = Some (table_list_blob ?l)" "key_to_blob k = Some (key_blob k)"
    using k by (simp_all add: table_list_key_to_tikv_wf table_list_key_wf_def key_to_blob_wf key_wf_def)
  obtain g w1 where g: "tk_get kv (table_list_blob ?l) w = (g, w1)" by fastforce
  note get = contract_get [OF c g]
  have other: "key_blob k' \<noteq> key_blob k" if "key_wf k'" "k' \<noteq> k" using db_key.enc_exact_inj that k by blast
  show ?thesis
  proof (cases "\<exists>x. g = Inr (Some x)")
    case True
    then obtain p w2 where p: "tk_put kv a (key_blob k) v w1 = (p, w2)" "r = map_err TikvErr p" "w' = w2"
      using put g enc by (cases "tk_put kv a (key_blob k) v w1") (auto simp: db_put_def db_bind_def db_call_def)
    have set: "r = Inr () \<longrightarrow> view w' (key_blob k) = Some v" and keep: "b \<noteq> key_blob k \<Longrightarrow> view w' b = view w b" for b
      using contract_put [OF c p(1)] p get by (auto simp: res_simps)
    have "x = Some v" if "r = Inr ()" "db_get kv k w' = Some (Inr x, w'')" for x w''
      using that set contract_get [OF c] by (auto simp: db_get_def enc)
    moreover have "listed (view w) (k_stack_id k) (k_table_name k)"
      using True get by (auto simp: listed_def dest: sym)
    ultimately show ?thesis using keep other key_not_table_list [symmetric] by (simp add: listed_def)
  next
    case False
    then have "w' = w1" "r \<noteq> Inr ()"
      using put g enc by (auto simp: db_put_def db_bind_def db_call_def db_res_def res_simps split: sum.splits option.splits)
    with get show ?thesis by simp
  qed
qed

theorem put_then_get_witness:
  "\<exists>w'. db_put mem_tikv \<lparr>k_stack_id = demo_stack_id, k_table_name = ''a'', k_inner_key = [2]\<rparr> [8] False demo_store
      = Some (Inr (), w')
    \<and> (\<forall>x w''. db_get mem_tikv \<lparr>k_stack_id = demo_stack_id, k_table_name = ''a'', k_inner_key = [2]\<rparr> w' = Some (Inr x, w'')
        \<longrightarrow> x = Some [8])"
proof -
  obtain w' where w': "db_put mem_tikv \<lparr>k_stack_id = demo_stack_id, k_table_name = ''a'', k_inner_key = [2]\<rparr> [8] False demo_store
      = Some (Inr (), w')" using demo_put_ok by auto
  from put_then_get [OF mem_tikv_contract _ this] demo_names w' show ?thesis by (simp add: key_wf_def)
qed

end
