(* ===== verification/Stack_Data.thy ===== *)
theory Stack_Data
  imports Stack_Deploy Db_Client_Props
begin

text \<open>
  Deployment on the real database client: the services of a deployment whose database calls are
  those of \<open>DbClientImpl\<close>, and what the permanent removal of a stack leaves in the store.
\<close>

section \<open>Services on the database client\<close>

text \<open>
  A deployment waits for the answer of a database operation and sees its error as a text. The
  second case, an operation that does not return, does not occur for well-formed names.
\<close>

definition await_db :: "('w, 'a) dbop \<Rightarrow> ('w, string, 'a) act" where
  "await_db m w = (case m w of Some (r, w') \<Rightarrow> (map_err (\<lambda>_. ''mu_db'') r, w') | None \<Rightarrow> (Inl ''no answer'', w))"

definition with_database :: "'w tikv \<Rightarrow> 'w services \<Rightarrow> 'w services" where
  "with_database kv sv = sv
     \<lparr>db_update_stack_tables := \<lambda>i ts. await_db (update_stack_tables kv i ts),
      db_table_list := \<lambda>i p. await_db (table_list kv i p),
      db_clear_table := \<lambda>i t. await_db (clear_table kv i t)\<rparr>"

lemma await_db_Inr [simp]: "await_db m w = (Inr x, w') \<longleftrightarrow> m w = Some (Inr x, w')"
  by (auto simp: await_db_def res_simps split: option.splits)

section \<open>Listing and clearing tables\<close>

lemma table_list_result:
  assumes c: "tikv_contract kv view" and i: "stack_id_wf i" and run: "table_list kv i None w = Some (Inr ts, w')"
  shows "view w' = view w \<and> map (list_blob i) ts = take 128 (range_keys (subset_range (list_prefix i)) (view w))
     \<and> (\<forall>t \<in> set ts. table_name_wf t \<and> listed (view w) i t)"
proof -
  from run obtain ks ls where scan: "tk_scan_keys kv (subset_range (list_prefix i)) 128 w = (Inr ks, w')"
    and ls: "list_keys_from_tikv ks = Inr ls" "ts = map tl_table_name ls"
    by (auto simp: table_list_def list_range_wf [OF i] db_bind_Inr simp del: scan_table_list_range.simps)
  note ks = contract_scan_keys [OF c scan]
  have wf: "\<forall>l \<in> set ls. table_list_key_wf l" and map: "ks = map table_list_blob ls"
    using ls(1) by (simp_all add: list_keys_from_tikv_Inr)
  have "tl_stack_id l = i \<and> view w (table_list_blob l) \<noteq> None" if "l \<in> set ls" for l
  proof -
    have "table_list_blob l \<in> set (range_keys (subset_range (list_prefix i)) (view w))"
      using that map ks by (metis image_eqI in_set_takeD list.set_map)
    then show ?thesis
      using wf that list_range_in [OF _ i] range_keys_set [OF contract_finite [OF c]] by auto
  qed
  then have l: "list_key_of i (tl_table_name l) = l \<and> view w (table_list_blob l) \<noteq> None" if "l \<in> set ls" for l
    using that by auto
  then have "map (list_blob i) ts = ks" by (simp add: ls(2) map)
  moreover have "table_name_wf t \<and> listed (view w) i t" if "t \<in> set ts" for t
    using that l wf by (auto simp: ls(2) listed_def table_list_key_wf_def)
  ultimately show ?thesis using ks by simp
qed

lemma clear_table_result:
  assumes c: "tikv_contract kv view" and i: "stack_id_wf i" and t: "table_name_wf t"
    and run: "clear_table kv i t w = Some (Inr (), w')"
  shows "view w' b = (if prefix (table_prefix i t) b then None else view w b)"
proof -
  from run have "tk_delete_range kv (subset_range (table_prefix i t)) w = (Inr (), w')"
    by (simp add: clear_table_def scan_range_wf(1) [OF i t] del: scan_range.simps)
  from contract_delete_range [OF c this] show ?thesis by (simp add: table_range_in [OF t])
qed

lemma clear_tables_result:
  assumes c: "tikv_contract kv view" and i: "stack_id_wf i" and ts: "\<forall>t \<in> set ts. table_name_wf t"
    and run: "act_collect (\<lambda>t. await_db (clear_table kv i t)) ts w = (Inr us, w')"
  shows "view w' b = (if in_tables i ts b then None else view w b)"
  using ts run
proof (induction ts arbitrary: w us)
  case Nil
  then show ?case by (simp add: in_tables_def)
next
  case (Cons t ts)
  then obtain w1 us' where w1: "clear_table kv i t w = Some (Inr (), w1)"
    and rest: "act_collect (\<lambda>t. await_db (clear_table kv i t)) ts w1 = (Inr us', w')"
    by (auto simp: act_simps)
  from Cons.prems clear_table_result [OF c i _ w1] Cons.IH [OF _ rest] show ?case by simp
qed

section \<open>Permanent removal\<close>

lemma permanent_removal_effect:
  assumes c: "tikv_contract kv view" and i: "stack_id_wf i"
    and connect: "\<And>w r w'. db_make_client sv w = (r, w') \<Longrightarrow> view w' = view w"
    and n: "length (range_keys (subset_range (list_prefix i)) (view w)) \<le> 10000"
    and run: "delete_user_data_permanently_from_database (with_database kv sv) i w = (Inr (), w')"
  obtains ts where "map (list_blob i) ts = take 128 (range_keys (subset_range (list_prefix i)) (view w))"
    and "\<forall>t \<in> set ts. table_name_wf t"
    and "\<exists>ls. range_keys (subset_range (list_prefix i)) (view w) = map (list_blob i) ls \<and> (\<forall>t \<in> set ls. table_name_wf t)"
    and "\<And>j u. stack_id_wf j \<Longrightarrow> table_name_wf u \<Longrightarrow> listed (view w') j u \<longleftrightarrow> listed (view w) j u \<and> (j = i \<longrightarrow> u \<notin> set ts)"
    and "\<And>k. key_wf k \<Longrightarrow> view w' (key_blob k) =
           (if k_stack_id k = i \<and> k_table_name k \<in> set ts then None else view w (key_blob k))"
proof -
  from run obtain u0 w0 ts w1 us w2 where w0: "db_make_client sv w = (Inr u0, w0)"
    and tl: "table_list kv i None w0 = Some (Inr ts, w1)"
    and clear: "act_collect (\<lambda>t. await_db (clear_table kv i t)) ts w1 = (Inr us, w2)"
    and upd: "update_stack_tables kv i (map (\<lambda>n. (n, True)) ts) w2 = Some (Inr (), w')"
    unfolding delete_user_data_permanently_from_database_def act_each_def with_database_def
    by (auto simp: act_simps)
  have v: "view w1 = view w" and ts: "map (list_blob i) ts = take 128 (range_keys (subset_range (list_prefix i)) (view w))"
    and wf: "\<forall>t \<in> set ts. table_name_wf t"
    using table_list_result [OF c i tl] connect [OF w0] by auto
  have w2: "view w2 b = (if in_tables i ts b then None else view w b)" for b
    using clear_tables_result [OF c i wf clear] by (simp add: v)
  have same: "{k \<in> dom (view w2). in_range (subset_range (list_prefix i)) k} = {k \<in> dom (view w). in_range (subset_range (list_prefix i)) k}"
    using list_range_no_table_key [OF i] by (auto simp: w2 in_tables_def split: if_splits)
  then have keys2: "range_keys (subset_range (list_prefix i)) (view w2) = range_keys (subset_range (list_prefix i)) (view w)"
    by (simp add: range_keys_def)
  with n have n2: "length (range_keys (subset_range (list_prefix i)) (view w2)) \<le> 10000" by simp
  have wf2: "\<forall>(t, d) \<in> set (map (\<lambda>n. (n, True)) ts). table_name_wf t" using wf by auto
  obtain ex where
    e: "set ex = {l. table_list_key_wf l \<and> tl_stack_id l = i \<and> listed (view w2) i (tl_table_name l)}"
    and keys: "range_keys (subset_range (list_prefix i)) (view w2) = map table_list_blob ex"
    and w': "\<And>b. view w' b = (if b \<in> list_blob i ` set (gone_tables ex i (map (\<lambda>n. (n, True)) ts)) then None
           else if b \<in> list_blob i ` set (fresh_tables ex i (map (\<lambda>n. (n, True)) ts)) then Some []
           else if in_tables i (gone_tables ex i (map (\<lambda>n. (n, True)) ts)) b then None else view w2 b)"
    by (rule update_stack_tables_store [OF c i wf2 n2 upd]) (rule that)
  have l2: "listed (view w2) j u = listed (view w) j u" for j u
    by (simp add: listed_def w2 list_blob_not_in_tables)
  have gone: "set (gone_tables ex i (map (\<lambda>n. (n, True)) ts)) = set ts"
    using table_list_result [OF c i tl] connect [OF w0] by (auto simp: existing_iff(1) [OF e i wf2] l2)
  have fresh: "fresh_tables ex i (map (\<lambda>n. (n, True)) ts) = []" by (simp add: fresh_tables_def)
  have in_gone: "in_tables i (gone_tables ex i (map (\<lambda>n. (n, True)) ts)) b = in_tables i ts b" for b
    by (simp add: in_tables_def gone)
  have store: "view w' b = (if b \<in> list_blob i ` set ts \<or> in_tables i ts b then None else view w b)" for b
    by (simp add: w' gone fresh in_gone w2)
  have "listed (view w') j u \<longleftrightarrow> listed (view w) j u \<and> (j = i \<longrightarrow> u \<notin> set ts)"
    if "stack_id_wf j" "table_name_wf u" for j u
  proof -
    have "list_blob j u \<in> list_blob i ` set ts \<longleftrightarrow> j = i \<and> u \<in> set ts"
      using that wf list_blob_eq [OF i that(1) _ that(2)] by (auto simp: image_iff)
    then show ?thesis by (simp add: listed_def store list_blob_not_in_tables)
  qed
  moreover have "view w' (key_blob k) =
      (if k_stack_id k = i \<and> k_table_name k \<in> set ts then None else view w (key_blob k))" if "key_wf k" for k
    using key_not_table_list [of k] key_in_tables [OF that i wf] by (auto simp: store)
  moreover have "range_keys (subset_range (list_prefix i)) (view w) = map (list_blob i) (map tl_table_name ex)"
    "\<forall>t \<in> set (map tl_table_name ex). table_name_wf t"
    using keys e by (auto simp: keys2 table_list_key_wf_def list_key_of_self)
  ultimately show thesis using that ts wf by blast
qed

definition store_services :: "(bytes \<times> bytes) list services" where
  "store_services =
     \<lparr>rt_add_functions = \<lambda>_. act_ok (), rt_get_function_names = \<lambda>_. act_ok [], rt_remove_functions = \<lambda>_ _. act_ok (),
      rt_remove_all_functions = \<lambda>_. act_ok (), db_make_client = act_ok (), db_update_stack_tables = \<lambda>_ _. act_ok (),
      db_table_list = \<lambda>_ _. act_ok [], db_clear_table = \<lambda>_ _. act_ok (), sg_make_client = act_ok (),
      sg_get = \<lambda>_ _ _. act_ok [], sg_update_stack_storages = \<lambda>_ _. act_ok (), sg_storage_list = \<lambda>_. act_ok [],
      sg_remove_storage = \<lambda>_ _. act_ok (), gm_deploy_gateways = \<lambda>_ _. act_ok (),
      gm_get_deployed_gateway_names = \<lambda>_. act_ok None, gm_delete_gateways = \<lambda>_ _. act_ok (),
      gm_delete_all_gateways = \<lambda>_. act_ok ()\<rparr>"

lemma demo_removal_ok:
  "fst (delete_user_data_permanently_from_database (with_database mem_tikv store_services) demo_stack_id demo_store) = Inr ()"
  by code_simp

section \<open>Properties\<close>



end
