(* ===== verification/Function_Messages.thy ===== *)
theory Function_Messages
  imports Http_Common Db_Client
begin

text \<open>
  Messages between a user function and the runtime that hosts it,
  \<open>src/sdk/common/src/incoming_message.rs\<close> and \<open>outgoing_message.rs\<close> with their modules, and the
  conversions around them: database keys and results (\<open>instance/database.rs\<close>) and HTTP
  requests of functions (\<open>instance/http_client.rs\<close>). The bodies are Borsh encoded by a library
  and stay abstract here: a message is a value.
\<close>

section \<open>HTTP client types\<close>

datatype Version = HTTP_09 | HTTP_10 | HTTP_11 | HTTP_2 | HTTP_3

record http_client_request =
  hc_method :: HttpMethod
  hc_url :: string
  hc_headers :: "Header list"
  hc_body :: bytes
  hc_version :: Version

definition http_client_request_new :: "HttpMethod \<Rightarrow> string \<Rightarrow> http_client_request" where
  "http_client_request_new method url =
     \<lparr>hc_method = method, hc_url = url, hc_headers = [], hc_body = [], hc_version = HTTP_11\<rparr>"

datatype http_client_error =
    HBuilder string | HRequest string | HRedirect string | HStatus Status | HBody string | HDecode string | HUpgrade string

section \<open>Messages\<close>

datatype LogLevel = LError | LWarn | LInfo | LDebug | LTrace

datatype OutgoingMessage =
    MFatalError string
  | MFunctionResult Response
  | MLog string LogLevel
  | MPut bytes bytes bytes bool
  | MGet bytes bytes
  | MDelete bytes bytes bool
  | MDeleteByPrefix bytes bytes
  | MScan bytes bytes u32
  | MScanKeys bytes bytes u32
  | MTableList bytes
  | MBatchPut "(bytes \<times> bytes \<times> bytes) list" bool
  | MBatchGet "(bytes \<times> bytes) list"
  | MBatchDelete "(bytes \<times> bytes) list"
  | MBatchScan "(bytes \<times> bytes) list" u32
  | MBatchScanKeys "(bytes \<times> bytes) list" u32
  | MCompareAndSwap bytes bytes bytes "bytes option"
  | MStoragePut string string bytes
  | MStorageGet string string
  | MStorageDelete string string
  | MStorageList string string
  | MHttpRequest http_client_request

datatype IncomingMessage =
    ExecuteFunction string Request
  | MDbError string
  | SingleResult bytes
  | ListResult "bytes list"
  | KeyValueListResult "(bytes \<times> bytes) list"
  | TableKeyListResult "(string \<times> bytes) list"
  | TableKeyValueListResult "(string \<times> bytes \<times> bytes) list"
  | EmptyResult
  | CasResult "bytes option" bool
  | StorageError string
  | StorageGetResult bytes
  | StorageEmptyResult
  | ObjectListResult "(string \<times> u64) list"
  | HttpResponse "http_client_error + Response"

text \<open>The codes of the message kinds, as written before the body of a message.\<close>

fun outgoing_kind :: "OutgoingMessage \<Rightarrow> u16" where
  "outgoing_kind (MFatalError _) = 1"
| "outgoing_kind (MFunctionResult _) = 2"
| "outgoing_kind (MLog _ _) = 3"
| "outgoing_kind (MPut _ _ _ _) = 1001"
| "outgoing_kind (MGet _ _) = 1002"
| "outgoing_kind (MDelete _ _ _) = 1003"
| "outgoing_kind (MDeleteByPrefix _ _) = 1004"
| "outgoing_kind (MScan _ _ _) = 1005"
| "outgoing_kind (MScanKeys _ _ _) = 1006"
| "outgoing_kind (MTableList _) = 1007"
| "outgoing_kind (MBatchPut _ _) = 1008"
| "outgoing_kind (MBatchGet _) = 1009"
| "outgoing_kind (MBatchDelete _) = 1010"
| "outgoing_kind (MBatchScan _ _) = 1011"
| "outgoing_kind (MBatchScanKeys _ _) = 1012"
| "outgoing_kind (MCompareAndSwap _ _ _ _) = 1013"
| "outgoing_kind (MStoragePut _ _ _) = 2001"
| "outgoing_kind (MStorageGet _ _) = 2002"
| "outgoing_kind (MStorageDelete _ _) = 2003"
| "outgoing_kind (MStorageList _ _) = 2004"
| "outgoing_kind (MHttpRequest _) = 3001"

fun incoming_kind :: "IncomingMessage \<Rightarrow> u16" where
  "incoming_kind (ExecuteFunction _ _) = 1"
| "incoming_kind (MDbError _) = 1001"
| "incoming_kind (SingleResult _) = 1002"
| "incoming_kind (ListResult _) = 1003"
| "incoming_kind (KeyValueListResult _) = 1004"
| "incoming_kind (TableKeyListResult _) = 1005"
| "incoming_kind (TableKeyValueListResult _) = 1006"
| "incoming_kind EmptyResult = 1007"
| "incoming_kind (CasResult _ _) = 1008"
| "incoming_kind (StorageError _) = 2001"
| "incoming_kind (StorageGetResult _) = 2002"
| "incoming_kind StorageEmptyResult = 2003"
| "incoming_kind (ObjectListResult _) = 2004"
| "incoming_kind (HttpResponse _) = 3001"

section \<open>Messages on a pipe\<close>

text \<open>
  A message is written as the code of its kind, two bytes little endian, and its body. Encoding
  and decoding of the bodies are the parameters \<open>enc\<close> and \<open>dec\<close>; \<open>dec\<close> gets the code of the
  kind and answers the message and the bytes after it.
\<close>

datatype read_error = InvalidInput | InvalidData

definition u16_bytes :: "u16 \<Rightarrow> bytes" where
  "u16_bytes k = [ucast k, ucast (drop_bit 8 k)]"

fun read_u16 :: "bytes \<Rightarrow> read_error + u16 \<times> bytes" where
  "read_u16 (a # b # rest) = Inr (or (ucast a) (push_bit 8 (ucast b)), rest)"
| "read_u16 _ = Inl InvalidInput"

definition outgoing_kinds :: "u16 list" where
  "outgoing_kinds = [1, 2, 3, 1001, 1002, 1003, 1004, 1005, 1006, 1007, 1008, 1009, 1010, 1011, 1012, 1013, 2001, 2002, 2003, 2004, 3001]"

definition incoming_kinds :: "u16 list" where
  "incoming_kinds = [1, 1001, 1002, 1003, 1004, 1005, 1006, 1007, 1008, 2001, 2002, 2003, 2004, 3001]"

definition outgoing_write :: "(OutgoingMessage \<Rightarrow> bytes) \<Rightarrow> OutgoingMessage \<Rightarrow> bytes" where
  "outgoing_write enc m = u16_bytes (outgoing_kind m) @ enc m"

definition outgoing_read ::
  "(u16 \<Rightarrow> bytes \<Rightarrow> read_error + OutgoingMessage \<times> bytes) \<Rightarrow> bytes \<Rightarrow> read_error + OutgoingMessage \<times> bytes" where
  "outgoing_read dec reader =
     res_bind (read_u16 reader) (\<lambda>(kind, rest). if kind \<in> set outgoing_kinds then dec kind rest else Inl InvalidData)"

definition incoming_write :: "(IncomingMessage \<Rightarrow> bytes) \<Rightarrow> IncomingMessage \<Rightarrow> bytes" where
  "incoming_write enc m = u16_bytes (incoming_kind m) @ enc m"

definition incoming_read ::
  "(u16 \<Rightarrow> bytes \<Rightarrow> read_error + IncomingMessage \<times> bytes) \<Rightarrow> bytes \<Rightarrow> read_error + IncomingMessage \<times> bytes" where
  "incoming_read dec reader =
     res_bind (read_u16 reader) (\<lambda>(kind, rest). if kind \<in> set incoming_kinds then dec kind rest else Inl InvalidData)"

lemma read_u16_bytes: "read_u16 (u16_bytes k @ rest) = Inr (k, rest)"
proof -
  have "or (ucast (ucast k :: u8)) (push_bit 8 (ucast (ucast (drop_bit 8 k) :: u8))) = k"
    by (rule bit_word_eqI) (auto simp: bit_or_iff bit_push_bit_iff bit_ucast_iff bit_drop_bit_eq)
  then show ?thesis by (simp add: u16_bytes_def)
qed

lemma kinds_known: "outgoing_kind m \<in> set outgoing_kinds" "incoming_kind n \<in> set incoming_kinds"
  by (cases m; simp add: outgoing_kinds_def) (cases n; simp add: incoming_kinds_def)

text \<open>
  Messages survive the pipe when their bodies can be read back, with what follows them left in
  the pipe. The end of the pipe before a message reads as invalid input, which is how the
  runtime notices that a function ended.
\<close>

lemma message_roundtrip:
  shows "dec (outgoing_kind m) (enc m @ rest) = Inr (m, rest) \<Longrightarrow> outgoing_read dec (outgoing_write enc m @ rest) = Inr (m, rest)"
    and "dec' (incoming_kind n) (enc' n @ rest) = Inr (n, rest) \<Longrightarrow> incoming_read dec' (incoming_write enc' n @ rest) = Inr (n, rest)"
    and "outgoing_read dec [] = Inl InvalidInput"
  by (simp_all add: outgoing_read_def outgoing_write_def incoming_read_def incoming_write_def read_u16_bytes kinds_known)

section \<open>Database keys and results\<close>

definition make_mudb_key :: "StackID \<Rightarrow> bytes \<Rightarrow> bytes \<Rightarrow> DbError + Key" where
  "make_mudb_key i table key =
     res_bind (map_err InternalErr (table_name_try_from_blob table)) (\<lambda>t.
       Inr \<lparr>k_stack_id = i, k_table_name = t, k_inner_key = key\<rparr>)"

definition make_mudb_scan :: "StackID \<Rightarrow> bytes \<Rightarrow> bytes \<Rightarrow> DbError + Scan" where
  "make_mudb_scan i table key_prefix =
     res_bind (map_err InternalErr (table_name_try_from_blob table)) (\<lambda>t. Inr (ByInnerKeyPrefix i t key_prefix))"

definition make_mudb_keys :: "StackID \<Rightarrow> (bytes \<times> bytes) list \<Rightarrow> DbError + Key list" where
  "make_mudb_keys i = collect_res (\<lambda>(table, key). make_mudb_key i table key)"

definition make_mudb_scans :: "StackID \<Rightarrow> (bytes \<times> bytes) list \<Rightarrow> DbError + Scan list" where
  "make_mudb_scans i = collect_res (\<lambda>(table, key). make_mudb_scan i table key)"

fun into_single_or_empty_incoming_msg :: "bytes option \<Rightarrow> IncomingMessage" where
  "into_single_or_empty_incoming_msg (Some x) = SingleResult x"
| "into_single_or_empty_incoming_msg None = EmptyResult"

definition into_empty_incoming_msg :: "unit \<Rightarrow> IncomingMessage" where
  "into_empty_incoming_msg _ = EmptyResult"

definition into_kv_pairs_incoming_msg :: "(Key \<times> bytes) list \<Rightarrow> IncomingMessage" where
  "into_kv_pairs_incoming_msg x = KeyValueListResult (map (\<lambda>(k, v). (k_inner_key k, v)) x)"

definition into_tk_pairs_incoming_msg :: "Key list \<Rightarrow> IncomingMessage" where
  "into_tk_pairs_incoming_msg x = TableKeyListResult (map (\<lambda>k. (k_table_name k, k_inner_key k)) x)"

definition into_tkv_triples_incoming_msg :: "(Key \<times> bytes) list \<Rightarrow> IncomingMessage" where
  "into_tkv_triples_incoming_msg x = TableKeyValueListResult (map (\<lambda>(k, v). (k_table_name k, k_inner_key k, v)) x)"

definition into_list_incoming_msg :: "bytes list \<Rightarrow> IncomingMessage" where
  "into_list_incoming_msg x = ListResult x"

definition into_cas_incoming_msg :: "bytes option \<times> bool \<Rightarrow> IncomingMessage" where
  "into_cas_incoming_msg x = CasResult (fst x) (snd x)"

section \<open>The closures of database requests\<close>

definition db_map :: "('a \<Rightarrow> 'b) \<Rightarrow> ('w, 'a) dbop \<Rightarrow> ('w, 'b) dbop" where
  "db_map f m = db_bind m (\<lambda>x. db_res (Inr (f x)))"

fun db_request :: "'w tikv \<Rightarrow> StackID \<Rightarrow> OutgoingMessage \<Rightarrow> ('w, IncomingMessage) dbop option" where
  "db_request kv i (MPut table key value is_atomic) =
     Some (db_bind (db_res (make_mudb_key i table key)) (\<lambda>k. db_map into_empty_incoming_msg (db_put kv k value is_atomic)))"
| "db_request kv i (MGet table key) =
     Some (db_bind (db_res (make_mudb_key i table key)) (\<lambda>k. db_map into_single_or_empty_incoming_msg (db_get kv k)))"
| "db_request kv i (MDelete table key is_atomic) =
     Some (db_bind (db_res (make_mudb_key i table key)) (\<lambda>k. db_map into_empty_incoming_msg (db_delete kv k is_atomic)))"
| "db_request kv i (MDeleteByPrefix table key_prefix) =
     Some (db_bind (db_res (map_err InternalErr (table_name_try_from_blob table))) (\<lambda>t.
       db_map into_empty_incoming_msg (db_delete_by_prefix kv i t key_prefix)))"
| "db_request kv i (MScan table key_prefix limit) =
     Some (db_bind (db_res (make_mudb_scan i table key_prefix)) (\<lambda>s.
       db_map into_kv_pairs_incoming_msg (db_scan kv s (unat limit))))"
| "db_request kv i (MScanKeys table key_prefix limit) =
     Some (db_bind (db_res (make_mudb_scan i table key_prefix)) (\<lambda>s.
       db_map (\<lambda>ks. into_list_incoming_msg (map k_inner_key ks)) (db_scan_keys kv s (unat limit))))"
| "db_request kv i (MBatchPut triples is_atomic) =
     Some (db_bind (db_res (collect_res (\<lambda>(table, key, value).
         res_bind (make_mudb_key i table key) (\<lambda>k. Inr (k, value))) triples)) (\<lambda>kvs.
       db_map into_empty_incoming_msg (db_batch_put kv kvs is_atomic)))"
| "db_request kv i (MBatchGet tuples) =
     Some (db_bind (db_res (make_mudb_keys i tuples)) (\<lambda>ks. db_map into_tkv_triples_incoming_msg (db_batch_get kv ks)))"
| "db_request kv i (MBatchDelete tuples) =
     Some (db_bind (db_res (make_mudb_keys i tuples)) (\<lambda>ks. db_map into_empty_incoming_msg (db_batch_delete kv ks)))"
| "db_request kv i (MBatchScan tuples each_limit) =
     Some (db_bind (db_res (make_mudb_scans i tuples)) (\<lambda>ss.
       db_map into_tkv_triples_incoming_msg (db_batch_scan kv ss (unat each_limit))))"
| "db_request kv i (MBatchScanKeys tuples each_limit) =
     Some (db_bind (db_res (make_mudb_scans i tuples)) (\<lambda>ss.
       db_map into_tk_pairs_incoming_msg (db_batch_scan_keys kv ss (unat each_limit))))"
| "db_request kv i (MTableList name_prefix) =
     Some (db_bind (db_res (map_err InternalErr (table_name_try_from_blob name_prefix))) (\<lambda>t.
       db_map (\<lambda>ts. into_list_incoming_msg (map as_bytes ts)) (table_list kv i (Some t))))"
| "db_request kv i (MCompareAndSwap table key new_value previous_value) =
     Some (db_bind (db_res (make_mudb_key i table key)) (\<lambda>k.
       db_map into_cas_incoming_msg (db_compare_and_swap kv k previous_value new_value)))"
| "db_request kv i _ = None"

section \<open>HTTP requests of functions\<close>

text \<open>
  \<open>reqwest\<close> is a library: what is handed to it, and what comes back. A header name may be
  absent and a header value may not be text; reading the body may fail.
\<close>

record http_call =
  call_method :: HttpMethod
  call_url :: string
  call_version :: Version
  call_headers :: "Header list"
  call_body :: "bytes option"

datatype reqwest_kind = QBuilder | QRequest | QRedirect | QStatus "u16 option" | QBody | QDecode | QOther

record reqwest_error =
  qe_kind :: reqwest_kind
  qe_source :: "string option"

record reqwest_response =
  qr_status :: u16
  qr_headers :: "(string option \<times> string option) list"
  qr_body :: "reqwest_error + bytes"

definition error_reason :: "reqwest_error \<Rightarrow> string" where
  "error_reason e = (case qe_source e of Some s \<Rightarrow> s | None \<Rightarrow> '''')"

definition status_or_default :: "u16 \<Rightarrow> Status" where
  "status_or_default code = (case status_from_code code of Some s \<Rightarrow> s | None \<Rightarrow> 200)"

definition reqwest_error_to_http_error :: "reqwest_error \<Rightarrow> http_client_error" where
  "reqwest_error_to_http_error e =
     (case qe_kind e of
        QBuilder \<Rightarrow> HBuilder (error_reason e)
      | QRequest \<Rightarrow> HRequest (error_reason e)
      | QRedirect \<Rightarrow> HRedirect (error_reason e)
      | QStatus s \<Rightarrow> HStatus (status_or_default (case s of Some c \<Rightarrow> c | None \<Rightarrow> 200))
      | QBody \<Rightarrow> HBody (error_reason e)
      | QDecode \<Rightarrow> HDecode (error_reason e)
      | QOther \<Rightarrow> HUpgrade (error_reason e))"

definition reqwest_header :: "string option \<times> string option \<Rightarrow> http_client_error + Header" where
  "reqwest_header h =
     (case fst h of
        None \<Rightarrow> Inl (HDecode ''invalid header with empty name'')
      | Some name \<Rightarrow>
          (case snd h of
             None \<Rightarrow> Inl (HDecode ''invalid header value'')
           | Some v \<Rightarrow> Inr \<lparr>hd_name = name, hd_value = v\<rparr>))"

definition reqwest_response_to_http_response ::
  "(string \<Rightarrow> string) \<Rightarrow> reqwest_error + reqwest_response \<Rightarrow> http_client_error + Response" where
  "reqwest_response_to_http_response lower response =
     res_bind (map_err reqwest_error_to_http_error response) (\<lambda>r.
     res_bind (collect_res reqwest_header (qr_headers r)) (\<lambda>headers.
     res_bind (map_err reqwest_error_to_http_error (qr_body r)) (\<lambda>body.
       Inr (body_from_vec body (builder_headers lower headers (builder_status (status_or_default (qr_status r)) builder_new))))))"

text \<open>The loop over the headers, which also sets the body.\<close>

fun add_headers :: "bytes \<Rightarrow> Header list \<Rightarrow> http_call \<Rightarrow> http_call" where
  "add_headers body [] c = c"
| "add_headers body (h # hs) c =
     add_headers body hs (c\<lparr>call_headers := call_headers c @ [h], call_body := Some body\<rparr>)"

definition build_http_call :: "http_client_request \<Rightarrow> http_call" where
  "build_http_call req =
     add_headers (hc_body req) (hc_headers req)
       \<lparr>call_method = hc_method req, call_url = hc_url req, call_version = hc_version req, call_headers = [],
        call_body = None\<rparr>"


end
