(* ===== verification/Runtime_Instance.thy ===== *)
theory Runtime_Instance
  imports Function_Messages Runtime_Registry Storage
begin

text \<open>
  A running instance of a user function, \<open>src/rust-libs/runtime/src/instance.rs\<close> and
  \<open>function.rs\<close>: the pipes between function and host, the task that runs the WebAssembly
  module, the metering of instructions, and the loop that serves the messages of the function
  until it answers. The guest is the parameter \<open>guest\<close>, the services of the host the parameter
  \<open>host\<close>. \<open>None\<close> is a request that is never answered. Logging is left out.
\<close>

section \<open>Pipes\<close>

record pipe_buffer =
  pb_buffer :: bytes
  pb_is_closed :: bool

definition pipe_new :: pipe_buffer where
  "pipe_new = \<lparr>pb_buffer = [], pb_is_closed = False\<rparr>"

definition pipe_close :: "pipe_buffer \<Rightarrow> pipe_buffer" where
  "pipe_close p = p\<lparr>pb_is_closed := True\<rparr>"

definition pipe_write :: "bytes \<Rightarrow> pipe_buffer \<Rightarrow> nat \<times> pipe_buffer" where
  "pipe_write buf p = (if buf = [] then (0, p) else (length buf, p\<lparr>pb_buffer := pb_buffer p @ buf\<rparr>))"

text \<open>Reading up to \<open>n\<close> bytes; \<open>None\<close> waits on the condition variable.\<close>

definition pipe_read :: "nat \<Rightarrow> pipe_buffer \<Rightarrow> (bytes \<times> pipe_buffer) option" where
  "pipe_read n p =
     (if n = 0 then Some ([], p)
      else if pb_buffer p = [] \<and> \<not> pb_is_closed p then None
      else Some (take n (pb_buffer p), p\<lparr>pb_buffer := drop n (pb_buffer p)\<rparr>))"

section \<open>Metering\<close>

datatype MeteringPoints = Remaining u64 | Exhausted

definition giga :: "u32 \<Rightarrow> u64" where
  "giga p = ucast p * 1000000000"

fun points_to_instruction_count :: "bool \<Rightarrow> MeteringPoints \<Rightarrow> u32 option \<Rightarrow> u64 option" where
  "points_to_instruction_count ovf (Remaining r) None = arith_sub ovf (- 1) r"
| "points_to_instruction_count ovf (Remaining r) (Some p) = arith_sub ovf (giga p) r"
| "points_to_instruction_count ovf Exhausted None = Some (- 1)"
| "points_to_instruction_count ovf Exhausted (Some p) = Some (giga p)"

record FunctionUsage =
  fu_db_weak_reads :: u64
  fu_db_strong_reads :: u64
  fu_db_weak_writes :: u64
  fu_db_strong_writes :: u64
  fu_function_instructions :: u64
  fu_memory_megabytes :: u64

definition usage_default :: FunctionUsage where
  "usage_default =
     \<lparr>fu_db_weak_reads = 0, fu_db_strong_reads = 0, fu_db_weak_writes = 0, fu_db_strong_writes = 0,
      fu_function_instructions = 0, fu_memory_megabytes = 0\<rparr>"

text \<open>\<open>megabytes\<close> is \<open>get_adjusted_unit(MB).get_value().floor()\<close> of the library \<open>byte_unit\<close>.\<close>

definition create_usage :: "(u64 \<Rightarrow> u64) \<Rightarrow> u64 \<Rightarrow> u64 \<Rightarrow> u64 \<Rightarrow> u64 \<Rightarrow> FunctionUsage" where
  "create_usage megabytes db_read db_write instructions_count memory =
     \<lparr>fu_db_weak_reads = db_read, fu_db_strong_reads = 0, fu_db_weak_writes = db_write, fu_db_strong_writes = 0,
      fu_function_instructions = instructions_count, fu_memory_megabytes = megabytes memory\<rparr>"

section \<open>The task that runs the module\<close>

datatype FunctionRuntimeError = FatalError string | MaximumMemoryExceeded | FunctionInitializationFailed | MissingStartFunction

datatype instance_error =
    FunctionRuntimeError FunctionRuntimeError
  | Timeout
  | FunctionDidntTerminateCleanly
  | FailedToReadMessage
  | InternalError

text \<open>
  What the engine does with the module: the outcome of \<open>_initialize\<close> and of \<open>_start\<close>, when they
  are exported, with the points left after each, and the points left when \<open>_start\<close> is looked up.
\<close>

record module_run =
  mr_initialize :: "(bool \<times> MeteringPoints) option"
  mr_points :: MeteringPoints
  mr_start :: "(bool \<times> MeteringPoints) option"

type_synonym task_result = "instance_error \<times> u64 option + u64 option"

text \<open>Whether the task closed the pipes, and its result.\<close>

definition function_task :: "bool \<Rightarrow> u32 option \<Rightarrow> module_run \<Rightarrow> bool \<times> task_result" where
  "function_task ovf limit m =
     (case mr_initialize m of
        Some (False, points) \<Rightarrow>
          (False, Inl (FunctionRuntimeError FunctionInitializationFailed, points_to_instruction_count ovf points limit))
      | _ \<Rightarrow>
          (case mr_start m of
             None \<Rightarrow> (False, Inl (FunctionRuntimeError MissingStartFunction, points_to_instruction_count ovf (mr_points m) limit))
           | Some (True, points) \<Rightarrow> (True, Inr (points_to_instruction_count ovf points limit))
           | Some (False, Exhausted) \<Rightarrow> (True, Inl (Timeout, points_to_instruction_count ovf Exhausted limit))
           | Some (False, Remaining points) \<Rightarrow>
               (True, Inl (FunctionDidntTerminateCleanly, points_to_instruction_count ovf (Remaining points) limit))))"

section \<open>Guest, host and instance\<close>

text \<open>
  \<open>g_write\<close> hands a message to the standard input of the guest, \<open>g_read\<close> reads its next message;
  \<open>g_join\<close> waits for its task, \<open>None\<close> when the task panicked.
\<close>

datatype read_event = ReadMessage OutgoingMessage | ReadEof | ReadFailed | ReadBlocked

record 'g guest =
  g_write :: "IncomingMessage \<Rightarrow> 'g \<Rightarrow> bool \<times> 'g"
  g_read :: "'g \<Rightarrow> read_event \<times> 'g"
  g_join :: "'g \<Rightarrow> (instance_error \<times> u64 + u64) option"

record 'w host =
  ho_db_connect :: "('w, string, unit) act"
  ho_tikv :: "'w tikv"
  ho_show_db_error :: "DbError \<Rightarrow> string"
  ho_storage_connect :: "('w, string, unit) act"
  ho_b58 :: "bytes \<Rightarrow> string"
  ho_bucket :: "'w bucket"
  ho_http_send :: "http_call \<Rightarrow> ('w, reqwest_error, reqwest_response) act"
  ho_lower :: "string \<Rightarrow> string"
  ho_megabytes :: "u64 \<Rightarrow> u64"

record fn_instance =
  in_stack_id :: StackID
  in_memory_limit :: u64
  in_db_client :: bool
  in_storage_client :: bool
  in_http_client :: bool
  in_database_write_count :: u64
  in_database_read_count :: u64

definition instance_start :: "StackID \<Rightarrow> u64 \<Rightarrow> fn_instance" where
  "instance_start i memory_limit =
     \<lparr>in_stack_id = i, in_memory_limit = memory_limit, in_db_client = False, in_storage_client = False,
      in_http_client = False, in_database_write_count = 0, in_database_read_count = 0\<rparr>"

type_synonym ('g, 'w) fn_state = "fn_instance \<times> 'g \<times> 'w"

text \<open>\<open>None\<close>: the call never returns. Otherwise success or an error, and the state after it.\<close>

type_synonym ('g, 'w) fn_step = "('g, 'w) fn_state \<Rightarrow> (bool \<times> ('g, 'w) fn_state) option"

definition write_message :: "'g guest \<Rightarrow> IncomingMessage \<Rightarrow> ('g, 'w) fn_step" where
  "write_message gu msg = (\<lambda>(inst, g, w). case g_write gu msg g of (ok, g') \<Rightarrow> Some (ok, (inst, g', w)))"

definition wait_to_finish_and_get_usage ::
  "'w host \<Rightarrow> 'g guest \<Rightarrow> fn_instance \<Rightarrow> 'g \<Rightarrow> instance_error \<times> FunctionUsage + FunctionUsage" where
  "wait_to_finish_and_get_usage ho gu inst g =
     (let usage = (\<lambda>n. create_usage (ho_megabytes ho) (in_database_read_count inst) (in_database_write_count inst) n
            (in_memory_limit inst))
      in case g_join gu g of
           None \<Rightarrow> Inl (InternalError, usage_default)
         | Some (Inr m) \<Rightarrow> Inr (usage m)
         | Some (Inl (e, m)) \<Rightarrow> Inl (e, usage m))"

section \<open>Requests of the function\<close>

definition execute_db_request ::
  "'w host \<Rightarrow> 'g guest \<Rightarrow> (('w, IncomingMessage) dbop) \<Rightarrow> ('g, 'w) fn_step" where
  "execute_db_request ho gu f = (\<lambda>(inst, g, w).
     case (if in_db_client inst then (Inr (), w) else ho_db_connect ho w) of
       (Inl e, w1) \<Rightarrow> write_message gu (MDbError e) (inst, g, w1)
     | (Inr _, w1) \<Rightarrow>
         Option.bind (f w1) (\<lambda>(r, w2).
           write_message gu (case r of Inr msg \<Rightarrow> msg | Inl e \<Rightarrow> MDbError (ho_show_db_error ho e))
             (inst\<lparr>in_db_client := True\<rparr>, g, w2)))"

text \<open>The answer of \<open>handle_db_request\<close>; a message of another kind is an internal error.\<close>

definition handle_db_request :: "'w host \<Rightarrow> 'g guest \<Rightarrow> OutgoingMessage \<Rightarrow> ('g, 'w) fn_step" where
  "handle_db_request ho gu msg s =
     (case db_request (ho_tikv ho) (in_stack_id (fst s)) msg of
        Some f \<Rightarrow> execute_db_request ho gu f s
      | None \<Rightarrow> Some (False, s))"

definition storage_request ::
  "'w host \<Rightarrow> 'g guest \<Rightarrow> (storage_owner \<Rightarrow> ('w, string, IncomingMessage) act) \<Rightarrow> ('g, 'w) fn_step" where
  "storage_request ho gu f = (\<lambda>(inst, g, w).
     case (if in_storage_client inst then (Inr (), w) else ho_storage_connect ho w) of
       (Inl e, w1) \<Rightarrow> write_message gu (StorageError e) (inst, g, w1)
     | (Inr _, w1) \<Rightarrow>
         (case f (OwnerStack (in_stack_id inst)) w1 of
            (r, w2) \<Rightarrow> write_message gu (case r of Inr msg \<Rightarrow> msg | Inl e \<Rightarrow> StorageError e)
              (inst\<lparr>in_storage_client := True\<rparr>, g, w2)))"

definition execute_http_request :: "'w host \<Rightarrow> 'g guest \<Rightarrow> http_client_request \<Rightarrow> ('g, 'w) fn_step" where
  "execute_http_request ho gu req = (\<lambda>(inst, g, w).
     case ho_http_send ho (build_http_call req) w of
       (r, w1) \<Rightarrow> write_message gu (HttpResponse (reqwest_response_to_http_response (ho_lower ho) r))
         (inst\<lparr>in_http_client := True\<rparr>, g, w1))"

definition act_map :: "('a \<Rightarrow> 'b) \<Rightarrow> ('w, 'e, 'a) act \<Rightarrow> ('w, 'e, 'b) act" where
  "act_map f m = act_bind m (\<lambda>x. act_ok (f x))"

definition object_pair :: "storage_object \<Rightarrow> string \<times> u64" where
  "object_pair obj = (so_key obj, so_size obj)"

fun handle_message :: "'w host \<Rightarrow> 'g guest \<Rightarrow> OutgoingMessage \<Rightarrow> ('g, 'w) fn_step" where
  "handle_message ho gu (MLog body level) s = Some (True, s)"
| "handle_message ho gu (MHttpRequest req) s = execute_http_request ho gu req s"
| "handle_message ho gu (MStoragePut name key data) s =
     storage_request ho gu (\<lambda>owner. act_map (\<lambda>_. StorageEmptyResult) (storage_put (ho_b58 ho) (ho_bucket ho) owner name key data)) s"
| "handle_message ho gu (MStorageGet name key) s =
     storage_request ho gu (\<lambda>owner. act_map StorageGetResult (storage_get (ho_b58 ho) (ho_bucket ho) owner name key)) s"
| "handle_message ho gu (MStorageDelete name key) s =
     storage_request ho gu (\<lambda>owner. act_map (\<lambda>_. StorageEmptyResult) (storage_delete (ho_b58 ho) (ho_bucket ho) owner name key)) s"
| "handle_message ho gu (MStorageList name pre) s =
     storage_request ho gu (\<lambda>owner. act_map (\<lambda>os. ObjectListResult (map object_pair os))
       (list_objects (ho_b58 ho) (ho_bucket ho) owner name pre)) s"
| "handle_message ho gu msg s = handle_db_request ho gu msg s"

section \<open>Serving a request\<close>

type_synonym run_result = "instance_error \<times> FunctionUsage + Response \<times> FunctionUsage"

text \<open>The answers that end the loop.\<close>

definition ended_with :: "instance_error \<Rightarrow> instance_error \<times> FunctionUsage + FunctionUsage \<Rightarrow> run_result" where
  "ended_with e waited = (case waited of Inr u \<Rightarrow> Inl (e, u) | Inl (e', u) \<Rightarrow> Inl (e', u))"

definition fatal_error :: "string \<Rightarrow> instance_error \<times> FunctionUsage + FunctionUsage \<Rightarrow> run_result" where
  "fatal_error text waited =
     (let error = FunctionRuntimeError (FatalError text)
      in case waited of Inr u \<Rightarrow> Inl (error, u) | Inl (_, u) \<Rightarrow> Inl (error, u))"

definition function_result :: "Response \<Rightarrow> instance_error \<times> FunctionUsage + FunctionUsage \<Rightarrow> run_result" where
  "function_result response waited = (case waited of Inr u \<Rightarrow> Inr (response, u) | Inl (e, u) \<Rightarrow> Inl (e, u))"

partial_function (option) run_loop :: "'w host \<Rightarrow> 'g guest \<Rightarrow> ('g, 'w) fn_state \<Rightarrow> (run_result \<times> 'w) option" where
  "run_loop ho gu s =
     (let (inst, g, w) = s in
      case g_read gu g of
        (ReadBlocked, g') \<Rightarrow> None
      | (ReadEof, g') \<Rightarrow> Some (ended_with FunctionDidntTerminateCleanly (wait_to_finish_and_get_usage ho gu inst g'), w)
      | (ReadFailed, g') \<Rightarrow> Some (ended_with FailedToReadMessage (wait_to_finish_and_get_usage ho gu inst g'), w)
      | (ReadMessage (MFunctionResult response), g') \<Rightarrow>
          Some (function_result response (wait_to_finish_and_get_usage ho gu inst g'), w)
      | (ReadMessage (MFatalError e), g') \<Rightarrow> Some (fatal_error e (wait_to_finish_and_get_usage ho gu inst g'), w)
      | (ReadMessage msg, g') \<Rightarrow>
          Option.bind (handle_message ho gu msg (inst, g', w)) (\<lambda>(ok, s').
            if ok then run_loop ho gu s' else Some (Inl (InternalError, usage_default), snd (snd s'))))"

declare run_loop.simps [code]

definition inner_run_request ::
  "'w host \<Rightarrow> 'g guest \<Rightarrow> string \<Rightarrow> Request \<Rightarrow> ('g, 'w) fn_state \<Rightarrow> (run_result \<times> 'w) option" where
  "inner_run_request ho gu function request s =
     Option.bind (write_message gu (ExecuteFunction function request) s) (\<lambda>(ok, s').
       if ok then run_loop ho gu s' else Some (Inl (InternalError, usage_default), snd (snd s')))"


text \<open>
  \<open>execute_function\<close> after the instance was created: the usage is reported in every case, then
  the caller is answered.
\<close>

datatype runtime_notification = RuntimeReportUsage StackID FunctionUsage

definition execute_function ::
  "'w host \<Rightarrow> 'g guest \<Rightarrow> 'm instance_args \<Rightarrow> string \<Rightarrow> Request \<Rightarrow> 'g \<times> 'w \<Rightarrow>
     (runtime_notification \<times> (instance_error + Response) \<times> 'w) option" where
  "execute_function ho gu args function request = (\<lambda>(g, w).
     let i = aid_stack_id (ia_assembly args) in
     Option.bind (inner_run_request ho gu function request (instance_start i (ia_memory_limit args), g, w)) (\<lambda>(r, w').
       case r of
         Inr (resp, usages) \<Rightarrow> Some (RuntimeReportUsage i usages, Inr resp, w')
       | Inl (e, usages) \<Rightarrow> Some (RuntimeReportUsage i usages, Inl e, w')))"

end
