(* ===== verification/Storage_Props.thy ===== *)
theory Storage_Props
  imports Storage Stack_Deploy
begin

text \<open>
  What the storage client does on a bucket that keeps its promises: an object that was put is
  read back, no operation of one owner reaches an object of another, listings answer the keys
  that were put; and what removing a storage does.
\<close>

section \<open>What the bucket promises\<close>

text \<open>
  \<open>view\<close> is the content of the bucket. A listing answers the keys with a prefix in order; its
  first page holds at most a thousand of them.
\<close>

definition keys_with :: "string \<Rightarrow> (string \<rightharpoonup> bytes) \<Rightarrow> string list" where
  "keys_with p m = sorted_list_of_set {k \<in> dom m. prefix p k}"

definition bucket_contract :: "'w bucket \<Rightarrow> ('w \<Rightarrow> string \<rightharpoonup> bytes) \<Rightarrow> bool" where
  "bucket_contract bk view \<longleftrightarrow>
     (\<forall>w. finite (dom (view w)))
   \<and> (\<forall>k w r w'. bk_get bk k w = (r, w') \<longrightarrow> view w' = view w \<and> (\<forall>d. r = Inr d \<longrightarrow> view w k = Some d))
   \<and> (\<forall>p w r w'. bk_list bk p w = (r, w') \<longrightarrow> view w' = view w
        \<and> (\<forall>pages. r = Inr pages \<longrightarrow> pages \<noteq> [] \<and> map fst (hd pages) = take 1000 (keys_with p (view w))))
   \<and> (\<forall>k d w r w'. bk_put bk k d w = (r, w') \<longrightarrow>
        (\<forall>j. j \<noteq> k \<longrightarrow> view w' j = view w j) \<and> (r = Inr () \<longrightarrow> view w' k = Some d))
   \<and> (\<forall>k w r w'. bk_delete bk k w = (r, w') \<longrightarrow>
        (\<forall>j. j \<noteq> k \<longrightarrow> view w' j = view w j) \<and> (r = Inr () \<longrightarrow> view w' k = None))"

lemma bucket_finite: "bucket_contract bk view \<Longrightarrow> finite (dom (view w))"
  by (simp add: bucket_contract_def)

lemma bucket_get:
  "bucket_contract bk view \<Longrightarrow> bk_get bk k w = (r, w') \<Longrightarrow> view w' = view w \<and> (\<forall>d. r = Inr d \<longrightarrow> view w k = Some d)"
  by (simp add: bucket_contract_def)

lemma bucket_list:
  "bucket_contract bk view \<Longrightarrow> bk_list bk p w = (r, w') \<Longrightarrow> view w' = view w
     \<and> (\<forall>pages. r = Inr pages \<longrightarrow> pages \<noteq> [] \<and> map fst (hd pages) = take 1000 (keys_with p (view w)))"
  by (simp add: bucket_contract_def)

lemma bucket_put:
  "bucket_contract bk view \<Longrightarrow> bk_put bk k d w = (r, w') \<Longrightarrow>
     (\<forall>j. j \<noteq> k \<longrightarrow> view w' j = view w j) \<and> (r = Inr () \<longrightarrow> view w' k = Some d)"
  by (simp add: bucket_contract_def)

lemma bucket_delete:
  "bucket_contract bk view \<Longrightarrow> bk_delete bk k w = (r, w') \<Longrightarrow>
     (\<forall>j. j \<noteq> k \<longrightarrow> view w' j = view w j) \<and> (r = Inr () \<longrightarrow> view w' k = None)"
  by (simp add: bucket_contract_def)

lemma keys_with_set: "finite (dom m) \<Longrightarrow> set (keys_with p m) = {k \<in> dom m. prefix p k}"
  by (simp add: keys_with_def)

section \<open>Paths\<close>

text \<open>Base 58 texts are injective and contain no slash.\<close>

definition b58_ok :: "(bytes \<Rightarrow> string) \<Rightarrow> bool" where
  "b58_ok b58 \<longleftrightarrow> inj b58 \<and> (\<forall>k. CHR ''/'' \<notin> set (b58 k))"

fun owner_parts :: "storage_owner \<Rightarrow> char \<times> bytes" where
  "owner_parts (OwnerUser (Solana k)) = (CHR ''u'', k)"
| "owner_parts (OwnerStack (SolanaPublicKey k)) = (CHR ''s'', k)"

lemma path_prefix_parts: "path_prefix b58 o1 = fst (owner_parts o1) # ''!s_'' @ b58 (snd (owner_parts o1))"
  by (cases o1 rule: owner_parts.cases) simp_all

lemma owner_parts_inj: "owner_parts o1 = owner_parts o2 \<Longrightarrow> o1 = o2"
  by (cases o1 rule: owner_parts.cases; cases o2 rule: owner_parts.cases) simp_all

lemma owner_tag: "fst (owner_parts o1) \<in> {CHR ''u'', CHR ''s''}"
  by (cases o1 rule: owner_parts.cases) simp_all

lemma path_prefix_no_slash: "b58_ok b58 \<Longrightarrow> CHR ''/'' \<notin> set (path_prefix b58 o1)"
  using owner_tag [of o1] by (auto simp: b58_ok_def path_prefix_parts)

lemma path_prefix_inj: "b58_ok b58 \<Longrightarrow> path_prefix b58 o1 = path_prefix b58 o2 \<Longrightarrow> o1 = o2"
  by (rule owner_parts_inj) (simp add: b58_ok_def path_prefix_parts inj_eq prod_eq_iff)

lemma split_at_slash:
  assumes "CHR ''/'' \<notin> set a" and "CHR ''/'' \<notin> set c"
  shows "a @ CHR ''/'' # b = c @ CHR ''/'' # d \<longleftrightarrow> a = c \<and> b = d"
  using assms
proof (induction a arbitrary: c)
  case (Cons x a)
  then show ?case by (cases c) auto
next
  case Nil
  then show ?case by (cases c) auto
qed

lemma create_path_owner:
  assumes "b58_ok b58" and "create_path b58 o1 s1 k1 = create_path b58 o2 s2 k2"
  shows "o1 = o2 \<and> s1 @ ''/'' @ k1 = s2 @ ''/'' @ k2"
  using assms split_at_slash [OF path_prefix_no_slash path_prefix_no_slash, OF assms(1) assms(1)]
    path_prefix_inj [OF assms(1)] by (auto simp: create_path_def)

lemma create_path_inj:
  assumes "b58_ok b58" and "CHR ''/'' \<notin> set s1" and "CHR ''/'' \<notin> set s2"
  shows "create_path b58 o1 s1 k1 = create_path b58 o2 s2 k2 \<longleftrightarrow> o1 = o2 \<and> s1 = s2 \<and> k1 = k2"
  using create_path_owner [OF assms(1), of o1 s1 k1 o2 s2 k2] split_at_slash [OF assms(2,3)] by auto

lemma create_path_not_manifest: "create_path b58 o1 s k \<noteq> CHR ''!'' # x"
  by (cases o1) (simp_all add: create_path_def)

lemma manifest_prefix_Cons: "\<exists>x. manifest_prefix b58 o1 @ y = CHR ''!'' # x"
  by (simp add: manifest_prefix_def METADATA_PREFIX_def)

lemma create_path_not_entry: "create_path b58 o1 s k \<noteq> manifest_prefix b58 o2 @ y"
  using create_path_not_manifest manifest_prefix_Cons by metis

lemma manifest_prefix_owner:
  assumes "b58_ok b58" and "prefix (manifest_prefix b58 o1) (manifest_prefix b58 o2 @ y)"
  shows "o1 = o2"
  using assms split_at_slash [OF path_prefix_no_slash path_prefix_no_slash, OF assms(1) assms(1)]
    path_prefix_inj [OF assms(1)] by (fastforce simp: manifest_prefix_def METADATA_PREFIX_def prefix_def)

lemma after_slash_append: "CHR ''/'' \<notin> set a \<Longrightarrow> after_slash n (a @ b) = after_slash n b"
  by (induction a) auto

lemma create_object_path:
  assumes "b58_ok b58" and "CHR ''/'' \<notin> set s"
  shows "create_object (create_path b58 o1 s k, n) = \<lparr>so_key = k, so_size = n\<rparr>"
  using assms path_prefix_no_slash [OF assms(1)] by (simp add: create_object_def create_path_def after_slash_append)

lemma last_segment_append: "CHR ''/'' \<notin> set b \<Longrightarrow> last_segment (a @ CHR ''/'' # b) = b"
  by (simp add: last_segment_def takeWhile_append)

section \<open>The manifest of storages\<close>

definition manifest_names :: "(bytes \<Rightarrow> string) \<Rightarrow> storage_owner \<Rightarrow> (string \<rightharpoonup> bytes) \<Rightarrow> string list" where
  "manifest_names b58 o1 m = map last_segment (take 1000 (keys_with (manifest_prefix b58 o1) m))"

definition has_storage :: "(bytes \<Rightarrow> string) \<Rightarrow> storage_owner \<Rightarrow> string \<Rightarrow> (string \<rightharpoonup> bytes) \<Rightarrow> bool" where
  "has_storage b58 o1 name m \<longleftrightarrow> (case o1 of OwnerUser _ \<Rightarrow> True | OwnerStack _ \<Rightarrow> name \<in> set (manifest_names b58 o1 m))"

lemma storage_list_result:
  assumes c: "bucket_contract bk view" and run: "storage_list b58 bk o1 w = (r, w')"
  shows "view w' = view w \<and> (\<forall>ns. r = Inr ns \<longrightarrow> ns = manifest_names b58 o1 (view w))"
proof -
  obtain q w1 where q: "bk_list bk (manifest_prefix b58 o1) w = (q, w1)" by fastforce
  note l = bucket_list [OF c q]
  show ?thesis
  proof (cases q)
    case (Inr pages)
    with l obtain p ps where "pages = p # ps" "map fst p = take 1000 (keys_with (manifest_prefix b58 o1) (view w))"
      by (cases pages) auto
    with run q Inr l show ?thesis
      by (auto simp: storage_list_def act_bind_def first_page_def manifest_names_def simp flip: map_map)
  qed (use run q l in \<open>auto simp: storage_list_def act_bind_def\<close>)
qed

lemma contains_storage_result:
  assumes c: "bucket_contract bk view" and run: "contains_storage b58 bk o1 name w = (r, w')"
  shows "view w' = view w \<and> (\<forall>b. r = Inr b \<longrightarrow> b = has_storage b58 o1 name (view w))"
proof (cases o1)
  case (OwnerUser u)
  with run show ?thesis by (auto simp: contains_storage_def has_storage_def)
next
  case (OwnerStack i)
  obtain q w1 where q: "storage_list b58 bk o1 w = (q, w1)" by fastforce
  with run storage_list_result [OF c q] OwnerStack show ?thesis
    by (cases q) (auto simp: contains_storage_def has_storage_def act_bind_def)
qed

lemma guard_storage_result:
  assumes c: "bucket_contract bk view" and run: "guard_storage b58 bk o1 name m w = (r, w')"
  shows "(\<exists>w1. view w1 = view w \<and> has_storage b58 o1 name (view w) \<and> m w1 = (r, w')) \<or> (view w' = view w \<and> (\<exists>e. r = Inl e))"
proof -
  obtain q w1 where q: "contains_storage b58 bk o1 name w = (q, w1)" by fastforce
  with run contains_storage_result [OF c q] show ?thesis
    by (cases q) (auto simp: guard_storage_def act_bind_def split: if_splits)
qed

lemma guard_storage_Inr:
  assumes "bucket_contract bk view" and "guard_storage b58 bk o1 name m w = (Inr x, w')"
  shows "\<exists>w1. view w1 = view w \<and> has_storage b58 o1 name (view w) \<and> m w1 = (Inr x, w')"
  using guard_storage_result [OF assms] by auto

section \<open>Owners are kept apart\<close>

definition owner_path :: "(bytes \<Rightarrow> string) \<Rightarrow> storage_owner \<Rightarrow> string \<Rightarrow> bool" where
  "owner_path b58 o1 p \<longleftrightarrow> prefix (path_prefix b58 o1 @ ''/'') p \<or> prefix (manifest_prefix b58 o1) p"

lemma owner_path_create [simp]: "owner_path b58 o1 (create_path b58 o1 s k)"
  by (simp add: owner_path_def create_path_def)

lemma owner_path_manifest [simp]: "owner_path b58 o1 (manifest_prefix b58 o1 @ name)"
  by (simp add: owner_path_def)

lemma owner_path_other:
  assumes b: "b58_ok b58" and "o2 \<noteq> o1"
  shows "\<not> owner_path b58 o1 (create_path b58 o2 s k)" and "\<not> owner_path b58 o1 (manifest_prefix b58 o2 @ name)"
proof -
  have "\<not> prefix (path_prefix b58 o1 @ ''/'') (create_path b58 o2 s k)"
    using create_path_owner [OF b, of o1 "[]" _ o2 s k] split_at_slash [OF path_prefix_no_slash [OF b] path_prefix_no_slash [OF b]]
      path_prefix_inj [OF b] assms(2) by (auto simp: prefix_def create_path_def)
  moreover have "\<not> prefix (manifest_prefix b58 o1) (create_path b58 o2 s k)"
    using create_path_not_manifest by (auto simp: prefix_def manifest_prefix_def METADATA_PREFIX_def)
  ultimately show "\<not> owner_path b58 o1 (create_path b58 o2 s k)" by (simp add: owner_path_def)
  have "\<not> prefix (path_prefix b58 o1 @ ''/'') (manifest_prefix b58 o2 @ name)"
    using owner_tag [of o1] by (auto simp: prefix_def manifest_prefix_def METADATA_PREFIX_def path_prefix_parts)
  with manifest_prefix_owner [OF b] assms(2) show "\<not> owner_path b58 o1 (manifest_prefix b58 o2 @ name)"
    by (auto simp: owner_path_def)
qed

text \<open>An action that changes nothing outside the paths of an owner.\<close>

definition owner_frame ::
  "(bytes \<Rightarrow> string) \<Rightarrow> ('w \<Rightarrow> string \<rightharpoonup> bytes) \<Rightarrow> storage_owner \<Rightarrow> ('w, 'e, 'a) act \<Rightarrow> bool" where
  "owner_frame b58 view o1 m \<longleftrightarrow> (\<forall>w p. \<not> owner_path b58 o1 p \<longrightarrow> view (snd (m w)) p = view w p)"

lemma owner_frame_bind:
  assumes "owner_frame b58 view o1 m" and "\<And>x. owner_frame b58 view o1 (f x)"
  shows "owner_frame b58 view o1 (act_bind m f)"
  unfolding owner_frame_def
proof (intro allI impI)
  fix w p assume p: "\<not> owner_path b58 o1 p"
  show "view (snd (act_bind m f w)) p = view w p"
    by (rule act_bind_keeps [where P = "\<lambda>w'. view w' p = view w p"]) (use assms p in \<open>auto simp: owner_frame_def\<close>)
qed

lemma owner_frame_ok: "owner_frame b58 view o1 (act_ok x)" "owner_frame b58 view o1 (act_res q)"
  by (simp_all add: owner_frame_def)

lemma owner_frame_collect: "(\<And>x. owner_frame b58 view o1 (f x)) \<Longrightarrow> owner_frame b58 view o1 (act_collect f xs)"
  by (induction xs) (auto intro!: owner_frame_bind owner_frame_ok)

lemma owner_frame_calls:
  assumes c: "bucket_contract bk view"
  shows "owner_frame b58 view o1 (bk_get bk k)" and "owner_frame b58 view o1 (bk_list bk p)"
    and "owner_path b58 o1 k \<Longrightarrow> owner_frame b58 view o1 (bk_put bk k d)"
    and "owner_path b58 o1 k \<Longrightarrow> owner_frame b58 view o1 (bk_delete bk k)"
proof -
  show "owner_frame b58 view o1 (bk_get bk k)"
    using bucket_get [OF c] by (metis owner_frame_def prod.collapse)
  show "owner_frame b58 view o1 (bk_list bk p)"
    using bucket_list [OF c] by (metis owner_frame_def prod.collapse)
  show "owner_frame b58 view o1 (bk_put bk k d)" if "owner_path b58 o1 k"
    using bucket_put [OF c] that by (metis owner_frame_def prod.collapse)
  show "owner_frame b58 view o1 (bk_delete bk k)" if "owner_path b58 o1 k"
    using bucket_delete [OF c] that by (metis owner_frame_def prod.collapse)
qed

lemma storage_list_frame: "bucket_contract bk view \<Longrightarrow> owner_frame b58 view o1 (storage_list b58 bk o2)"
  unfolding storage_list_def by (intro owner_frame_bind owner_frame_ok owner_frame_calls)

lemma guard_storage_frame:
  assumes "bucket_contract bk view" and "owner_frame b58 view o1 m"
  shows "owner_frame b58 view o1 (guard_storage b58 bk o2 name m)"
  unfolding guard_storage_def contains_storage_def
  by (intro owner_frame_bind) (use assms in \<open>auto intro!: owner_frame_bind owner_frame_ok storage_list_frame split: storage_owner.splits\<close>)

lemma storage_frames:
  assumes c: "bucket_contract bk view"
  shows "owner_frame b58 view o1 (storage_put b58 bk o1 s k d)" and "owner_frame b58 view o1 (storage_delete b58 bk o1 s k)"
    and "owner_frame b58 view o1 (storage_get b58 bk o1 s k)" and "owner_frame b58 view o1 (list_objects b58 bk o1 s p)"
    and "owner_frame b58 view o1 (add_storage b58 bk o1 s)"
  unfolding storage_put_def storage_delete_def storage_get_def list_objects_def add_storage_def
  by (auto intro!: guard_storage_frame owner_frame_bind owner_frame_ok owner_frame_calls c split: storage_owner.splits)

lemma remove_storage_frame:
  assumes c: "bucket_contract bk view"
  shows "owner_frame b58 view o1 (remove_storage b58 bk o1 s)"
  unfolding remove_storage_def act_each_def
  by (intro owner_frame_bind owner_frame_collect owner_frame_ok storage_frames c)
    (auto intro!: owner_frame_ok owner_frame_calls c split: storage_owner.splits)

lemma update_stack_storages_frame:
  assumes c: "bucket_contract bk view"
  shows "owner_frame b58 view o1 (update_stack_storages b58 bk o1 sds)"
  unfolding update_stack_storages_def act_each_def
  by (intro owner_frame_bind owner_frame_collect storage_list_frame owner_frame_ok c)
    (auto intro!: owner_frame_ok storage_frames remove_storage_frame c)

section \<open>Removing a storage\<close>

text \<open>No name on the manifest of the owner contains a slash.\<close>

definition flat_manifest :: "(bytes \<Rightarrow> string) \<Rightarrow> storage_owner \<Rightarrow> (string \<rightharpoonup> bytes) \<Rightarrow> bool" where
  "flat_manifest b58 o1 m \<longleftrightarrow> (\<forall>n. m (manifest_prefix b58 o1 @ n) \<noteq> None \<longrightarrow> CHR ''/'' \<notin> set n)"

lemma manifest_names_iff:
  assumes "finite (dom m)" and "flat_manifest b58 o1 m" and "n \<in> set (manifest_names b58 o1 m)"
  shows "m (manifest_prefix b58 o1 @ n) \<noteq> None"
proof -
  from assms(3) obtain k where k: "k \<in> set (keys_with (manifest_prefix b58 o1) m)" "n = last_segment k"
    by (auto simp: manifest_names_def dest: in_set_takeD)
  then obtain x where x: "k = manifest_prefix b58 o1 @ x" "m k \<noteq> None"
    using keys_with_set [OF assms(1)] by (auto simp: prefix_def)
  then have "CHR ''/'' \<notin> set x" using assms(2) by (auto simp: flat_manifest_def)
  then have "n = x" using k(2) x(1) last_segment_append [of x "METADATA_PREFIX @ ''/'' @ path_prefix b58 o1"]
    by (simp add: manifest_prefix_def)
  with x show ?thesis by simp
qed

lemma remove_storage_fails:
  assumes c: "bucket_contract bk view" and flat: "flat_manifest b58 (OwnerStack i) (view w)"
    and run: "remove_storage b58 bk (OwnerStack i) name w = (r, w')"
  shows "r \<noteq> Inr () \<and> view w' (create_path b58 o2 s k) = view w (create_path b58 o2 s k)"
proof -
  let ?o = "OwnerStack i"
  obtain q w1 where q: "bk_delete bk (manifest_prefix b58 ?o @ name) w = (q, w1)" by fastforce
  note ne = create_path_not_entry [of b58 o2 s k ?o name]
  note del = bucket_delete [OF c q]
  show ?thesis
  proof (cases q)
    case (Inl e)
    with run q del ne show ?thesis by (auto simp: remove_storage_def act_bind_def)
  next
    case (Inr u)
    with del have gone: "view w1 (manifest_prefix b58 ?o @ name) = None" by simp
    have "flat_manifest b58 ?o (view w1)"
      using flat del gone by (auto simp: flat_manifest_def) (metis option.distinct(1))
    then have "\<not> has_storage b58 ?o name (view w1)"
      using manifest_names_iff [OF bucket_finite [OF c], of b58 ?o w1 name] gone by (auto simp: has_storage_def)
    moreover obtain l w2 where l: "list_objects b58 bk ?o name [] w1 = (l, w2)" by fastforce
    ultimately have "view w2 = view w1" "\<exists>e. l = Inl e"
      using guard_storage_result [OF c l [unfolded list_objects_def]] by auto
    with run q Inr l del ne show ?thesis by (auto simp: remove_storage_def act_bind_def)
  qed
qed

text \<open>Deployment with the storage client.\<close>

definition with_storage :: "(bytes \<Rightarrow> string) \<Rightarrow> 'w bucket \<Rightarrow> 'w services \<Rightarrow> 'w services" where
  "with_storage b58 bk sv = sv
     \<lparr>sg_get := storage_get b58 bk,
      sg_update_stack_storages := update_stack_storages b58 bk,
      sg_storage_list := storage_list b58 bk,
      sg_remove_storage := remove_storage b58 bk\<rparr>"

text \<open>
  Consequently the permanent removal of a stack with a storage fails, and so does undeploying
  such a stack permanently, before its functions are removed from the runtime.
\<close>

lemma permanent_storage_removal_fails:
  assumes c: "bucket_contract bk view" and flat: "flat_manifest b58 (OwnerStack i) (view w)"
    and names: "manifest_names b58 (OwnerStack i) (view w) \<noteq> []"
    and connect: "\<And>w. view (snd (sg_make_client sv w)) = view w"
  shows "fst (delete_user_data_permanently_from_storage (with_storage b58 bk sv) i w) \<noteq> Inr ()"
proof
  assume "fst (delete_user_data_permanently_from_storage (with_storage b58 bk sv) i w) = Inr ()"
  then obtain w' u w1 ns w2 us w3 where w1: "sg_make_client sv w = (Inr u, w1)"
    and ns: "storage_list b58 bk (OwnerStack i) w1 = (Inr ns, w2)"
    and rm: "act_collect (remove_storage b58 bk (OwnerStack i)) ns w2 = (Inr us, w3)"
    by (auto simp: fst_eq_Inr delete_user_data_permanently_from_storage_def with_storage_def act_each_def act_simps)
  have v: "view w2 = view w" and "ns = manifest_names b58 (OwnerStack i) (view w)"
    using storage_list_result [OF c ns] connect [of w] w1 by auto
  with names have "ns \<noteq> []" by simp
  then obtain n ns' where "ns = n # ns'" by (cases ns) simp_all
  with rm obtain w4 where "remove_storage b58 bk (OwnerStack i) n w2 = (Inr (), w4)" by (auto simp: act_simps)
  with remove_storage_fails [OF c, of b58 i w2 n] flat v show False by auto
qed

section \<open>A bucket in memory\<close>

definition mem_bucket :: "(string \<times> bytes) list bucket" where
  "mem_bucket =
     \<lparr>bk_put = (\<lambda>k d m. (Inr (), AList.update k d m)),
      bk_get = (\<lambda>k m. (case map_of m k of Some d \<Rightarrow> Inr d | None \<Rightarrow> Inl ''HTTP 404'', m)),
      bk_delete = (\<lambda>k m. (Inr (), AList.delete k m)),
      bk_list = (\<lambda>p m. (Inr [map (\<lambda>k. (k, of_nat (length (the (map_of m k)))))
        (take 1000 (sort (remdups (filter (prefix p) (map fst m)))))], m))\<rparr>"

lemma mem_bucket_contract: "bucket_contract mem_bucket map_of"
proof -
  have "sort (remdups (filter (prefix p) (map fst m))) = keys_with p (map_of m)" for p and m :: "(string \<times> bytes) list"
    unfolding keys_with_def sorted_list_of_set_sort_remdups [symmetric]
    by (rule arg_cong [of _ _ sorted_list_of_set]) (auto simp: dom_map_of_conv_image_fst)
  then show ?thesis
    by (simp add: bucket_contract_def mem_bucket_def update_conv' delete_conv' finite_dom_map_of o_def
        split: option.splits)
qed

lemma of_char_slash: "of_char (CHR ''/'') = (47 :: nat)"
  by simp

lemma hex_ok: "b58_ok hex_encode"
proof -
  have "hex_decode (hex_encode k) = Some k" for k using hex_contract by (simp add: base58_contract_def)
  then have "inj hex_encode" by (metis injI option.inject)
  moreover have "CHR ''/'' \<noteq> nibble_char b" if "b < 16" for b
  proof
    assume "CHR ''/'' = nibble_char b"
    with byte_of_nibble_char [OF that] have "97 + b = 47" by (metis byte_of_char_def of_nat_numeral of_char_slash)
    then have "unat (97 + b) = unat (47 :: u8)" by (rule arg_cong)
    with that show False by (simp add: word_less_nat_alt unat_word_ariths)
  qed
  moreover have "b div 16 < 16" "b mod 16 < 16" for b :: u8
    using unat_byte [of b] by (auto simp: word_less_nat_alt unat_div unat_mod)
  then have "CHR ''/'' \<notin> set (hex_encode k)" for k
    using calculation(2) by (auto simp: hex_encode_def)
  ultimately show ?thesis by (simp add: b58_ok_def)
qed

abbreviation demo_owner :: storage_owner where
  "demo_owner \<equiv> OwnerStack (SolanaPublicKey [7])"

definition demo_bucket :: "(string \<times> bytes) list" where
  "demo_bucket =
     [(manifest_prefix hex_encode demo_owner @ ''pics'', []), (create_path hex_encode demo_owner ''pics'' ''cat'', [1, 2])]"

lemma demo_object_put: "fst (storage_put hex_encode mem_bucket demo_owner ''pics'' ''dog'' [3] demo_bucket) = Inr ()"
  by code_simp

lemma demo_flat: "flat_manifest hex_encode demo_owner (map_of demo_bucket)"
  by (auto simp: flat_manifest_def demo_bucket_def create_path_not_entry not_sym [OF create_path_not_entry] split: if_splits)

section \<open>Properties\<close>



text \<open>
  C25. Owners are kept apart: whatever storing, deleting, removing a storage or updating the list
  of storages does on behalf of one owner, also when it fails half way, no object and no
  storage of another owner changes, whatever names and keys are used.
\<close>

theorem storage_owner_isolation:
  assumes c: "bucket_contract bk view" and b: "b58_ok b58" and o: "o2 \<noteq> o1"
    and m: "m \<in> {storage_put b58 bk o1 s k d, storage_delete b58 bk o1 s k, remove_storage b58 bk o1 s,
      update_stack_storages b58 bk o1 sds}"
  shows "view (snd (m w)) (create_path b58 o2 s' k') = view w (create_path b58 o2 s' k')
    \<and> view (snd (m w)) (manifest_prefix b58 o2 @ n) = view w (manifest_prefix b58 o2 @ n)"
proof -
  have "owner_frame b58 view o1 m"
    using m storage_frames [OF c] remove_storage_frame [OF c] update_stack_storages_frame [OF c] by auto
  then show ?thesis using owner_path_other [OF b o] by (auto simp: owner_frame_def)
qed

theorem storage_owner_isolation_witness:
  "map_of (snd (remove_storage hex_encode mem_bucket (OwnerUser (Solana [7])) ''pics'' demo_bucket)) (create_path hex_encode demo_owner ''pics'' ''cat'')
     = Some [1, 2]"
proof -
  have "map_of demo_bucket (create_path hex_encode demo_owner ''pics'' ''cat'') = Some [1, 2]"
    by (simp add: demo_bucket_def create_path_not_entry)
  with storage_owner_isolation [OF mem_bucket_contract hex_ok, of demo_owner "OwnerUser (Solana [7])"
      "remove_storage hex_encode mem_bucket (OwnerUser (Solana [7])) ''pics''" "''pics''"] show ?thesis by simp
qed



end
