(* ===== verification/Instance_Props.thy ===== *)
theory Instance_Props
  imports Runtime_Instance Db_Client_Props Storage_Props
begin

text \<open>
  What holds of a running function whatever its code does: it reaches only the data of its own
  stack, its messages are answered, and its instructions are counted.
\<close>

section \<open>Actions that change little\<close>

text \<open>An action that leaves a part of the world alone, and one that stays within some keys.\<close>

definition leaves :: "('w \<Rightarrow> 'v) \<Rightarrow> ('w, 'e, 'a) act \<Rightarrow> bool" where
  "leaves view m \<longleftrightarrow> (\<forall>w. view (snd (m w)) = view w)"

definition within :: "('w \<Rightarrow> 'w \<Rightarrow> bool) \<Rightarrow> ('w, 'a) dbop \<Rightarrow> bool" where
  "within R m \<longleftrightarrow> (\<forall>w r w'. m w = Some (r, w') \<longrightarrow> R w w')"

text \<open>What a host must keep apart: the services act on parts of the world of their own.\<close>

definition tikv_leaves :: "('w \<Rightarrow> 'v) \<Rightarrow> 'w tikv \<Rightarrow> bool" where
  "tikv_leaves view kv \<longleftrightarrow>
     (\<forall>k. leaves view (tk_get kv k)) \<and> (\<forall>a k v. leaves view (tk_put kv a k v)) \<and> (\<forall>a k. leaves view (tk_delete kv a k))
   \<and> (\<forall>r n. leaves view (tk_scan kv r n)) \<and> (\<forall>r n. leaves view (tk_scan_keys kv r n))
   \<and> (\<forall>a ps. leaves view (tk_batch_put kv a ps)) \<and> (\<forall>ks. leaves view (tk_batch_get kv ks))
   \<and> (\<forall>ks. leaves view (tk_batch_delete kv ks)) \<and> (\<forall>rs n. leaves view (tk_batch_scan kv rs n))
   \<and> (\<forall>rs n. leaves view (tk_batch_scan_keys kv rs n)) \<and> (\<forall>r. leaves view (tk_delete_range kv r))
   \<and> (\<forall>k p v. leaves view (tk_compare_and_swap kv k p v))"

definition bucket_leaves :: "('w \<Rightarrow> 'v) \<Rightarrow> 'w bucket \<Rightarrow> bool" where
  "bucket_leaves view bk \<longleftrightarrow>
     (\<forall>k d. leaves view (bk_put bk k d)) \<and> (\<forall>k. leaves view (bk_get bk k)) \<and> (\<forall>k. leaves view (bk_delete bk k))
   \<and> (\<forall>p. leaves view (bk_list bk p))"

definition host_contract :: "'w host \<Rightarrow> ('w \<Rightarrow> bytes \<rightharpoonup> bytes) \<Rightarrow> ('w \<Rightarrow> string \<rightharpoonup> bytes) \<Rightarrow> bool" where
  "host_contract ho cells objects \<longleftrightarrow>
     tikv_contract (ho_tikv ho) cells \<and> tikv_leaves objects (ho_tikv ho)
   \<and> bucket_contract (ho_bucket ho) objects \<and> bucket_leaves cells (ho_bucket ho) \<and> b58_ok (ho_b58 ho)
   \<and> leaves cells (ho_db_connect ho) \<and> leaves objects (ho_db_connect ho)
   \<and> leaves cells (ho_storage_connect ho) \<and> leaves objects (ho_storage_connect ho)
   \<and> (\<forall>c. leaves cells (ho_http_send ho c)) \<and> (\<forall>c. leaves objects (ho_http_send ho c))"

lemma leaves_bind: "leaves view m \<Longrightarrow> (\<And>x. leaves view (f x)) \<Longrightarrow> leaves view (act_bind m f)"
  unfolding leaves_def by (intro allI act_bind_keeps [where P = "\<lambda>w'. view w' = _"]) auto

lemma leaves_ok: "leaves view (act_ok x)" "leaves view (act_res q)"
  by (simp_all add: leaves_def)

lemma leavesD: "leaves view m \<Longrightarrow> m w = (r, w') \<Longrightarrow> view w' = view w"
  unfolding leaves_def by (metis snd_conv)

section \<open>What a function can reach\<close>

definition stack_prefix :: "StackID \<Rightarrow> bytes" where
  "stack_prefix i = 33 # stack_id_to_bytes i"

text \<open>Two worlds that agree on everything that is not the stack's own.\<close>

definition foreign_same ::
  "(bytes \<Rightarrow> string) \<Rightarrow> ('w \<Rightarrow> bytes \<rightharpoonup> bytes) \<Rightarrow> ('w \<Rightarrow> string \<rightharpoonup> bytes) \<Rightarrow> StackID \<Rightarrow> 'w \<Rightarrow> 'w \<Rightarrow> bool" where
  "foreign_same b58 cells objects i w w' \<longleftrightarrow>
     (\<forall>b. \<not> prefix (stack_prefix i) b \<longrightarrow> cells w' b = cells w b)
   \<and> (\<forall>p. \<not> owner_path b58 (OwnerStack i) p \<longrightarrow> objects w' p = objects w p)"

lemma foreign_refl [simp]: "foreign_same b58 cells objects i w w"
  by (simp add: foreign_same_def)

lemma foreign_trans:
  "foreign_same b58 cells objects i w w1 \<Longrightarrow> foreign_same b58 cells objects i w1 w2 \<Longrightarrow> foreign_same b58 cells objects i w w2"
  by (simp add: foreign_same_def)

lemma foreign_leaves:
  "leaves cells m \<Longrightarrow> leaves objects m \<Longrightarrow> m w = (r, w') \<Longrightarrow> foreign_same b58 cells objects i w w'"
  using leavesD [of cells m] leavesD [of objects m] by (simp add: foreign_same_def)

lemma foreign_cells:
  assumes "\<And>b. \<not> prefix (stack_prefix i) b \<Longrightarrow> cells w' b = cells w b" and "objects w' = objects w"
  shows "foreign_same b58 cells objects i w w'"
  using assms by (simp add: foreign_same_def)

lemma key_in_stack:
  assumes "stack_id_wf i" and "stack_id_wf (k_stack_id k)"
  shows "prefix (stack_prefix i) (key_blob k) \<longleftrightarrow> k_stack_id k = i"
  using assms by (auto simp: stack_prefix_def key_blob_def prefix_def append_eq_append_conv)

lemma list_not_in_stack: "\<not> prefix (stack_prefix i) (table_list_blob l)"
  by (simp add: stack_prefix_def table_list_blob_def)

text \<open>A range of a table stays within the stack, also where it leaves the table.\<close>

lemma stack_prefix_table: "prefix (stack_prefix i) (butlast (table_prefix i t))"
  by (cases t rule: rev_cases) (simp_all add: stack_prefix_def table_prefix_def key_blob_def as_bytes_def butlast_append)

lemma inner_range_in_stack:
  assumes t: "table_name_wf t" and b: "in_range (subset_range (table_prefix i t @ p)) b"
  shows "prefix (stack_prefix i) b"
proof -
  obtain q c n where q: "table_prefix i t @ p = q @ c # replicate n 255" "c \<noteq> 255" "prefix (butlast (table_prefix i t)) q"
  proof (cases rule: disjE [OF byte_split [of p]])
    case 1
    then obtain q c n where "c \<noteq> 255" "p = q @ c # replicate n 255" by blast
    moreover have "prefix (butlast (table_prefix i t)) (table_prefix i t @ q)"
      by (metis prefixeq_butlast prefix_prefix)
    ultimately show thesis using that [of "table_prefix i t @ q" c n] by simp
  next
    case 2
    then obtain n where n: "p = replicate n 255" by blast
    have "table_prefix i t = butlast (table_prefix i t) @ [last (table_prefix i t)]"
      using table_prefix_last [OF t, of i] by simp
    then have "table_prefix i t @ p = butlast (table_prefix i t) @ last (table_prefix i t) # replicate n 255"
      using n by (metis append.assoc append_Cons append_Nil)
    with that table_prefix_last [OF t, of i] show thesis by blast
  qed
  have "prefix q b" using b q(1) subset_range_in [OF q(2), of q n b] by (auto simp: prefix_def)
  with q(3) stack_prefix_table [of i t] show ?thesis by (meson prefix_order.trans)
qed

section \<open>Database operations of a stack\<close>

lemma within_bind:
  assumes "within (foreign_same b58 cells objects i) m" and "\<And>x. within (foreign_same b58 cells objects i) (f x)"
  shows "within (foreign_same b58 cells objects i) (db_bind m f)"
  unfolding within_def
proof (intro allI impI)
  fix w r w' assume "db_bind m f w = Some (r, w')"
  then obtain q w1 where q: "m w = Some (q, w1)" and "(\<exists>e. q = Inl e \<and> w' = w1) \<or> (\<exists>x. q = Inr x \<and> f x w1 = Some (r, w'))"
    by (cases "m w") (auto simp: db_bind_def split: sum.splits)
  with assms show "foreign_same b58 cells objects i w w'" unfolding within_def by (metis foreign_trans)
qed

lemma within_res: "within (foreign_same b58 cells objects i) (db_res q)"
  by (simp add: within_def db_res_def)

lemma within_map: "within (foreign_same b58 cells objects i) m \<Longrightarrow> within (foreign_same b58 cells objects i) (db_map f m)"
  unfolding db_map_def by (intro within_bind within_res)

lemma within_encoded: "(\<And>y. x = Some y \<Longrightarrow> within R (f y)) \<Longrightarrow> within R (db_encoded x f)"
  by (auto simp: within_def db_encoded_def split: option.splits)

lemma within_call: "(\<And>w r w'. m w = (r, w') \<Longrightarrow> R w w') \<Longrightarrow> within R (db_call m)"
  unfolding within_def db_call_def by (metis option.inject prod.collapse snd_apfst snd_conv)

lemma within_res_bind: "(\<And>x. q = Inr x \<Longrightarrow> within R (f x)) \<Longrightarrow> (\<And>w. R w w) \<Longrightarrow> within R (db_bind (db_res q) f)"
  by (cases q) (auto simp: within_def db_bind_def db_res_def)

lemmas within_intros = within_bind within_res within_map within_encoded within_call

text \<open>Keys that belong to the stack.\<close>

definition own_key :: "StackID \<Rightarrow> Key \<Rightarrow> bool" where
  "own_key i k \<longleftrightarrow> key_wf k \<and> k_stack_id k = i"

lemma own_key_blob: "own_key i k \<Longrightarrow> key_to_blob k = Some b \<Longrightarrow> prefix (stack_prefix i) b"
  by (auto simp: own_key_def key_to_blob_wf key_in_stack key_wf_def)

lemma make_mudb_key_own: "stack_id_wf i \<Longrightarrow> make_mudb_key i table key = Inr k \<Longrightarrow> own_key i k"
  by (auto simp: make_mudb_key_def res_simps table_name_try_from_blob_Inr own_key_def key_wf_def)

lemma collect_res_mem: "collect_res f xs = Inr ys \<Longrightarrow> y \<in> set ys \<Longrightarrow> \<exists>x \<in> set xs. f x = Inr y"
  by (induction xs arbitrary: ys) (auto simp: res_simps)

lemma make_mudb_keys_own: "stack_id_wf i \<Longrightarrow> make_mudb_keys i tks = Inr ks \<Longrightarrow> k \<in> set ks \<Longrightarrow> own_key i k"
  unfolding make_mudb_keys_def by (auto dest!: collect_res_mem intro: make_mudb_key_own)

lemma encode_all_mem: "encode_all f xs = Some ys \<Longrightarrow> y \<in> set ys \<Longrightarrow> \<exists>x \<in> set xs. f x = Some y"
  unfolding encode_all_def by (induction xs arbitrary: ys) (auto split: option.splits)


lemma tikv_leavesD:
  assumes "tikv_leaves view kv"
  shows "leaves view (tk_get kv k)" and "leaves view (tk_put kv a k v)" and "leaves view (tk_delete kv a k)"
    and "leaves view (tk_scan kv r n)" and "leaves view (tk_scan_keys kv r n)" and "leaves view (tk_batch_put kv a ps)"
    and "leaves view (tk_batch_get kv ks)" and "leaves view (tk_batch_delete kv ks)" and "leaves view (tk_batch_scan kv rs n)"
    and "leaves view (tk_batch_scan_keys kv rs n)" and "leaves view (tk_delete_range kv r)"
    and "leaves view (tk_compare_and_swap kv k p v)"
  using assms unfolding tikv_leaves_def by (simp_all del: split_paired_All)

lemma foreign_write:
  assumes "leaves objects m" and "\<And>w r w' b. m w = (r, w') \<Longrightarrow> \<not> prefix (stack_prefix i) b \<Longrightarrow> cells w' b = cells w b"
  shows "within (foreign_same b58 cells objects i) (db_call m)"
proof (rule within_call)
  fix w r w' assume m: "m w = (r, w')"
  show "foreign_same b58 cells objects i w w'"
    by (rule foreign_cells) (use m assms leavesD [of objects m] in auto)
qed

lemma foreign_read:
  assumes "leaves objects m" and "\<And>w r w'. m w = (r, w') \<Longrightarrow> cells w' = cells w"
  shows "within (foreign_same b58 cells objects i) (db_call m)"
  by (rule foreign_write [OF assms(1)]) (simp add: assms(2))

lemma foreign_writes_only:
  assumes "leaves objects m" and "writes_only m cells P new" and "\<And>b. P b \<Longrightarrow> prefix (stack_prefix i) b"
  shows "within (foreign_same b58 cells objects i) (db_call m)"
  by (rule foreign_write [OF assms(1)]) (use writes_onlyD [OF assms(2)] assms(3) in metis)

text \<open>The raw calls, by what they may write.\<close>

lemma calls_within:
  assumes c: "tikv_contract kv cells" and o: "tikv_leaves objects kv"
  shows "within (foreign_same b58 cells objects i) (db_call (tk_get kv b))"
    and "within (foreign_same b58 cells objects i) (db_call (tk_scan kv rg n))"
    and "within (foreign_same b58 cells objects i) (db_call (tk_scan_keys kv rg n))"
    and "within (foreign_same b58 cells objects i) (db_call (tk_batch_get kv bs))"
    and "within (foreign_same b58 cells objects i) (db_call (tk_batch_scan kv rgs n))"
    and "within (foreign_same b58 cells objects i) (db_call (tk_batch_scan_keys kv rgs n))"
    and "prefix (stack_prefix i) b \<Longrightarrow> within (foreign_same b58 cells objects i) (db_call (tk_put kv a b v))"
    and "prefix (stack_prefix i) b \<Longrightarrow> within (foreign_same b58 cells objects i) (db_call (tk_delete kv a b))"
    and "prefix (stack_prefix i) b \<Longrightarrow> within (foreign_same b58 cells objects i) (db_call (tk_compare_and_swap kv b pv v))"
    and "\<forall>b \<in> fst ` set ps. prefix (stack_prefix i) b \<Longrightarrow> within (foreign_same b58 cells objects i) (db_call (tk_batch_put kv a ps))"
    and "\<forall>b \<in> set bs. prefix (stack_prefix i) b \<Longrightarrow> within (foreign_same b58 cells objects i) (db_call (tk_batch_delete kv bs))"
    and "(\<And>b. in_range rg b \<Longrightarrow> prefix (stack_prefix i) b) \<Longrightarrow> within (foreign_same b58 cells objects i) (db_call (tk_delete_range kv rg))"
proof -
  note l = tikv_leavesD [OF o] and wr = contract_writes [OF c]
  show "within (foreign_same b58 cells objects i) (db_call (tk_get kv b))"
    by (rule foreign_read [OF l(1)]) (drule contract_get [OF c], erule conjunct1)
  show "within (foreign_same b58 cells objects i) (db_call (tk_scan kv rg n))"
    by (rule foreign_read [OF l(4)]) (rule contract_batch_reads(2) [OF c])
  show "within (foreign_same b58 cells objects i) (db_call (tk_scan_keys kv rg n))"
    by (rule foreign_read [OF l(5)]) (drule contract_scan_keys [OF c], erule conjunct1)
  show "within (foreign_same b58 cells objects i) (db_call (tk_batch_get kv bs))"
    by (rule foreign_read [OF l(7)]) (rule contract_batch_reads(1) [OF c])
  show "within (foreign_same b58 cells objects i) (db_call (tk_batch_scan kv rgs n))"
    by (rule foreign_read [OF l(9)]) (rule contract_batch_reads(3) [OF c])
  show "within (foreign_same b58 cells objects i) (db_call (tk_batch_scan_keys kv rgs n))"
    by (rule foreign_read [OF l(10)]) (rule contract_batch_reads(4) [OF c])
  show "within (foreign_same b58 cells objects i) (db_call (tk_put kv a b v))" if "prefix (stack_prefix i) b"
    by (rule foreign_writes_only [OF l(2) wr(1)]) (simp add: that)
  show "within (foreign_same b58 cells objects i) (db_call (tk_delete kv a b))" if "prefix (stack_prefix i) b"
    by (rule foreign_writes_only [OF l(3) wr(2)]) (simp add: that)
  show "within (foreign_same b58 cells objects i) (db_call (tk_batch_put kv a ps))" if "\<forall>b \<in> fst ` set ps. prefix (stack_prefix i) b"
    by (rule foreign_writes_only [OF l(6) wr(3)]) (rule bspec [OF that])
  show "within (foreign_same b58 cells objects i) (db_call (tk_batch_delete kv bs))" if "\<forall>b \<in> set bs. prefix (stack_prefix i) b"
    by (rule foreign_writes_only [OF l(8) wr(4)]) (rule bspec [OF that])
  show "within (foreign_same b58 cells objects i) (db_call (tk_delete_range kv rg))" if "\<And>b. in_range rg b \<Longrightarrow> prefix (stack_prefix i) b"
    by (rule foreign_writes_only [OF l(11) wr(5)]) (rule that)
  show "within (foreign_same b58 cells objects i) (db_call (tk_compare_and_swap kv b pv v))" if "prefix (stack_prefix i) b"
    by (rule foreign_write [OF l(12)]) (use contract_compare_and_swap [OF c] that in metis)
qed

lemma db_ops_within:
  assumes c: "tikv_contract kv cells" and o: "tikv_leaves objects kv" and i: "stack_id_wf i"
  shows "own_key i k \<Longrightarrow> within (foreign_same b58 cells objects i) (db_put kv k v a)"
    and "own_key i k \<Longrightarrow> within (foreign_same b58 cells objects i) (db_delete kv k a)"
    and "within (foreign_same b58 cells objects i) (db_get kv k)"
    and "table_name_wf t \<Longrightarrow> within (foreign_same b58 cells objects i) (db_delete_by_prefix kv i t p)"
    and "within (foreign_same b58 cells objects i) (db_scan kv s n)"
    and "within (foreign_same b58 cells objects i) (db_scan_keys kv s n)"
    and "within (foreign_same b58 cells objects i) (table_list kv i tp)"
    and "\<forall>k \<in> set ks. own_key i k \<Longrightarrow> within (foreign_same b58 cells objects i) (db_batch_delete kv ks)"
    and "within (foreign_same b58 cells objects i) (db_batch_get kv ks)"
    and "\<forall>kv \<in> set kvs. own_key i (fst kv) \<Longrightarrow> within (foreign_same b58 cells objects i) (db_batch_put kv kvs a)"
    and "within (foreign_same b58 cells objects i) (db_batch_scan kv ss n)"
    and "within (foreign_same b58 cells objects i) (db_batch_scan_keys kv ss n)"
    and "own_key i k \<Longrightarrow> within (foreign_same b58 cells objects i) (db_compare_and_swap kv k pv v)"
proof -
  note calls = calls_within [OF c o]
  show "within (foreign_same b58 cells objects i) (db_put kv k v a)" if "own_key i k"
    unfolding db_put_def
    by (auto split: option.split intro!: within_encoded within_bind within_res calls own_key_blob [OF that])
  show "within (foreign_same b58 cells objects i) (db_delete_by_prefix kv i t p)" if "table_name_wf t"
    unfolding db_delete_by_prefix_def scan_range_wf(2) [OF i that]
    unfolding db_encoded_Some by (rule calls(12), rule inner_range_in_stack [OF that])
  show "within (foreign_same b58 cells objects i) (db_batch_delete kv ks)" if "\<forall>k \<in> set ks. own_key i k"
    unfolding db_batch_delete_def using that
    by (intro within_encoded calls) (auto dest!: encode_all_mem intro: own_key_blob)
  show "within (foreign_same b58 cells objects i) (db_batch_put kv kvs a)" if "\<forall>kv \<in> set kvs. own_key i (fst kv)"
    unfolding db_batch_put_def using that
    by (intro within_encoded calls) (auto dest!: encode_all_mem simp: encode_pair_def intro: own_key_blob)
qed (unfold db_delete_def db_get_def db_scan_def db_scan_keys_def table_list_def db_batch_get_def db_batch_scan_def
    db_batch_scan_keys_def db_compare_and_swap_def;
  intro within_encoded within_bind within_res calls_within [OF c o] own_key_blob; assumption)+


lemma db_request_within:
  assumes c: "tikv_contract kv cells" and o: "tikv_leaves objects kv" and i: "stack_id_wf i"
    and f: "db_request kv i msg = Some f"
  shows "within (foreign_same b58 cells objects i) f"
proof -
  note ops = db_ops_within [OF c o i]
  have triple: "own_key i (fst kv)" if "collect_res (\<lambda>(table, key, value). res_bind (make_mudb_key i table key) (\<lambda>k. Inr (k, value))) ts = Inr kvs"
    "kv \<in> set kvs" for ts kvs kv
    using collect_res_mem [OF that] make_mudb_key_own [OF i] by (auto simp: res_simps)
  from f show ?thesis
    by (cases msg)
      (auto intro!: within_res_bind within_map ops simp: res_simps table_name_try_from_blob_Inr
        dest: make_mudb_key_own [OF i] make_mudb_keys_own [OF i] triple simp del: scan_range.simps)
qed

section \<open>A running function stays within its stack\<close>

lemma host_contractD:
  assumes "host_contract ho cells objects"
  shows "tikv_contract (ho_tikv ho) cells" and "tikv_leaves objects (ho_tikv ho)" and "bucket_contract (ho_bucket ho) objects"
    and "bucket_leaves cells (ho_bucket ho)" and "b58_ok (ho_b58 ho)"
    and "ho_db_connect ho w = (u, w') \<Longrightarrow> foreign_same b58 cells objects i w w'"
    and "ho_storage_connect ho w = (u, w') \<Longrightarrow> foreign_same b58 cells objects i w w'"
    and "ho_http_send ho hc w = (q, w') \<Longrightarrow> foreign_same b58 cells objects i w w'"
  using assms unfolding host_contract_def by (auto intro: foreign_leaves)

lemma storage_leaves:
  assumes "bucket_leaves view bk"
  shows "leaves view (storage_put b58 bk o1 s k d)" and "leaves view (storage_delete b58 bk o1 s k)"
    and "leaves view (storage_get b58 bk o1 s k)" and "leaves view (list_objects b58 bk o1 s p)"
  using assms unfolding storage_put_def storage_delete_def storage_get_def list_objects_def guard_storage_def
    contains_storage_def storage_list_def bucket_leaves_def
  by (auto intro!: leaves_bind leaves_ok split: storage_owner.splits)

lemma foreign_storage:
  assumes "leaves cells m" and "owner_frame b58 objects (OwnerStack i) m" and "m w = (r, w')"
  shows "foreign_same b58 cells objects i w w'"
  using assms leavesD [OF assms(1,3)] by (auto simp: foreign_same_def owner_frame_def) (metis snd_conv)+


text \<open>What a step of the host loop does to the state: the stack stays, and the world is \<open>foreign_same\<close>.\<close>

definition step_keeps ::
  "(bytes \<Rightarrow> string) \<Rightarrow> ('w \<Rightarrow> bytes \<rightharpoonup> bytes) \<Rightarrow> ('w \<Rightarrow> string \<rightharpoonup> bytes) \<Rightarrow> ('g, 'w) fn_state \<Rightarrow> ('g, 'w) fn_state \<Rightarrow> bool" where
  "step_keeps b58 cells objects s s' \<longleftrightarrow>
     in_stack_id (fst s') = in_stack_id (fst s) \<and> foreign_same b58 cells objects (in_stack_id (fst s)) (snd (snd s)) (snd (snd s'))"

lemma step_keeps_refl: "step_keeps b58 cells objects s s"
  by (simp add: step_keeps_def)

lemma write_message_keeps: "write_message gu msg s = Some (ok, s') \<Longrightarrow> fst s' = fst s \<and> snd (snd s') = snd (snd s)"
  by (auto simp: write_message_def split: prod.splits)

lemma execute_db_request_keeps:
  assumes h: "host_contract ho cells objects" and f: "within (foreign_same (ho_b58 ho) cells objects (in_stack_id (fst s))) f"
    and run: "execute_db_request ho gu f s = Some (ok, s')"
  shows "step_keeps (ho_b58 ho) cells objects s s'"
proof -
  obtain inst g w where s: "s = (inst, g, w)" by (cases s) auto
  obtain q w1 where q: "(if in_db_client inst then (Inr (), w) else ho_db_connect ho w) = (q, w1)" by fastforce
  then have w1: "foreign_same (ho_b58 ho) cells objects (in_stack_id inst) w w1"
    by (auto intro: host_contractD [OF h] split: if_splits)
  show ?thesis
  proof (cases q)
    case (Inl e)
    with run q s w1 show ?thesis by (auto simp: execute_db_request_def step_keeps_def dest!: write_message_keeps)
  next
    case (Inr u)
    with run q s obtain r w2 where r: "f w1 = Some (r, w2)"
      and wr: "write_message gu (case r of Inr msg \<Rightarrow> msg | Inl e \<Rightarrow> MDbError (ho_show_db_error ho e))
        (inst\<lparr>in_db_client := True\<rparr>, g, w2) = Some (ok, s')"
      by (auto simp: execute_db_request_def bind_eq_Some_conv)
    from f r s have "foreign_same (ho_b58 ho) cells objects (in_stack_id inst) w1 w2" by (auto simp: within_def)
    with foreign_trans [OF w1 this] write_message_keeps [OF wr] s show ?thesis by (simp add: step_keeps_def)
  qed
qed

lemma storage_request_keeps:
  assumes h: "host_contract ho cells objects"
    and f: "leaves cells (f (OwnerStack (in_stack_id (fst s))))"
      "owner_frame (ho_b58 ho) objects (OwnerStack (in_stack_id (fst s))) (f (OwnerStack (in_stack_id (fst s))))"
    and run: "storage_request ho gu f s = Some (ok, s')"
  shows "step_keeps (ho_b58 ho) cells objects s s'"
proof -
  obtain inst g w where s: "s = (inst, g, w)" by (cases s) auto
  obtain q w1 where q: "(if in_storage_client inst then (Inr (), w) else ho_storage_connect ho w) = (q, w1)" by fastforce
  then have w1: "foreign_same (ho_b58 ho) cells objects (in_stack_id inst) w w1"
    by (auto intro: host_contractD [OF h] split: if_splits)
  show ?thesis
  proof (cases q)
    case (Inl e)
    with run q s w1 show ?thesis by (auto simp: storage_request_def step_keeps_def dest!: write_message_keeps)
  next
    case (Inr u)
    obtain r w2 where r: "f (OwnerStack (in_stack_id inst)) w1 = (r, w2)" by fastforce
    with run q s Inr have wr: "write_message gu (case r of Inr msg \<Rightarrow> msg | Inl e \<Rightarrow> StorageError e)
        (inst\<lparr>in_storage_client := True\<rparr>, g, w2) = Some (ok, s')"
      by (auto simp: storage_request_def)
    from foreign_storage [OF f, of w1 r w2] r s
    have "foreign_same (ho_b58 ho) cells objects (in_stack_id inst) w1 w2" by simp
    with foreign_trans [OF w1 this] write_message_keeps [OF wr] s show ?thesis by (simp add: step_keeps_def)
  qed
qed

lemma execute_http_request_keeps:
  assumes h: "host_contract ho cells objects" and run: "execute_http_request ho gu req s = Some (ok, s')"
  shows "step_keeps (ho_b58 ho) cells objects s s'"
proof -
  obtain inst g w where s: "s = (inst, g, w)" by (cases s) auto
  obtain r w1 where r: "ho_http_send ho (build_http_call req) w = (r, w1)" by fastforce
  with run s host_contractD(8) [OF h r] show ?thesis
    by (auto simp: execute_http_request_def step_keeps_def dest!: write_message_keeps)
qed

lemma act_map_frames:
  "leaves view m \<Longrightarrow> leaves view (act_map f m)" "owner_frame b58 objects o1 n \<Longrightarrow> owner_frame b58 objects o1 (act_map f n)"
  unfolding act_map_def by (intro leaves_bind leaves_ok owner_frame_bind owner_frame_ok; assumption)+

lemma handle_message_keeps:
  assumes h: "host_contract ho cells objects" and i: "stack_id_wf (in_stack_id (fst s))"
    and run: "handle_message ho gu msg s = Some (ok, s')"
  shows "step_keeps (ho_b58 ho) cells objects s s'"
proof -
  note hd = host_contractD [OF h]
  have db: "step_keeps (ho_b58 ho) cells objects s s'" if "handle_db_request ho gu msg s = Some (ok, s')"
    using that db_request_within [OF hd(1,2) i]
    by (auto simp: handle_db_request_def step_keeps_refl intro: execute_db_request_keeps [OF h] split: option.splits)
  have st: "step_keeps (ho_b58 ho) cells objects s s'"
    if "leaves cells (f (OwnerStack (in_stack_id (fst s))))"
      "owner_frame (ho_b58 ho) objects (OwnerStack (in_stack_id (fst s))) (f (OwnerStack (in_stack_id (fst s))))"
      "storage_request ho gu f s = Some (ok, s')" for f
    using storage_request_keeps [OF h that] .
  from run db show ?thesis
    by (cases msg) (auto intro: execute_http_request_keeps [OF h] simp: step_keeps_refl
        elim!: st [rotated 2] intro!: act_map_frames storage_leaves storage_frames hd)
qed


text \<open>What the loop leaves, by an invariant of the messages it handles, and the usage it reports.\<close>

definition usage_of :: "run_result \<Rightarrow> FunctionUsage" where
  "usage_of r = (case r of Inl (_, u) \<Rightarrow> u | Inr (_, u) \<Rightarrow> u)"

definition usage_from :: "'w host \<Rightarrow> fn_instance \<Rightarrow> FunctionUsage \<Rightarrow> bool" where
  "usage_from ho inst u \<longleftrightarrow> u = usage_default
     \<or> (\<exists>n. u = create_usage (ho_megabytes ho) (in_database_read_count inst) (in_database_write_count inst) n (in_memory_limit inst))"

lemma usage_from_results:
  "usage_from ho inst (usage_of (ended_with e (wait_to_finish_and_get_usage ho gu inst g)))"
  "usage_from ho inst (usage_of (fatal_error txt (wait_to_finish_and_get_usage ho gu inst g)))"
  "usage_from ho inst (usage_of (function_result resp (wait_to_finish_and_get_usage ho gu inst g)))"
  by (auto simp: usage_from_def usage_of_def ended_with_def fatal_error_def function_result_def wait_to_finish_and_get_usage_def
      Let_def split: option.splits sum.splits)

lemma run_loop_rule:
  assumes run: "run_loop ho gu s = Some y" and init: "I (fst s) (snd (snd s))"
    and step: "\<And>msg inst g w ok s'. I inst w \<Longrightarrow> handle_message ho gu msg (inst, g, w) = Some (ok, s') \<Longrightarrow> I (fst s') (snd (snd s'))"
  shows "\<exists>inst. I inst (snd y) \<and> usage_from ho inst (usage_of (fst y))"
proof -
  have "ho' = ho \<longrightarrow> gu' = gu \<longrightarrow> I (fst s) (snd (snd s)) \<longrightarrow> (\<exists>inst. I inst (snd y) \<and> usage_from ho inst (usage_of (fst y)))"
    if "run_loop ho' gu' s = Some y" for ho' gu'
  proof (rule run_loop.raw_induct [OF _ that], intro impI, goal_cases)
    case (1 loop ho' gu' s y)
    obtain inst g w where s: "s = (inst, g, w)" by (cases s) auto
    obtain e g' where e: "g_read gu' g = (e, g')" by fastforce
    have handled: "\<exists>inst. I inst (snd y) \<and> usage_from ho inst (usage_of (fst y))"
      if "Option.bind (handle_message ho gu msg (inst, g', w)) (\<lambda>(ok, s'). if ok then loop ho' gu' s'
          else Some (Inl (InternalError, usage_default), snd (snd s'))) = Some y" for msg
    proof -
      from that obtain ok s' where m: "handle_message ho gu msg (inst, g', w) = Some (ok, s')"
        and rest: "(if ok then loop ho' gu' s' else Some (Inl (InternalError, usage_default), snd (snd s'))) = Some y"
        by (auto simp: bind_eq_Some_conv)
      show ?thesis
        using step [OF _ m] rest 1(1) [of ho' gu' s' y] 1(3-5) s
        by (cases ok) (auto simp: usage_of_def usage_from_def)
    qed
    have ended: "\<exists>inst. I inst w \<and> usage_from ho inst u" if "usage_from ho inst u" for u
      using that 1(5) s by auto
    from 1(2-4) s e show ?case
      by (cases e) (auto intro: handled ended [OF usage_from_results(1)] ended [OF usage_from_results(2)]
          ended [OF usage_from_results(3)] split: OutgoingMessage.splits simp del: handle_message.simps)
  qed
  with run init show ?thesis by blast
qed

lemma inner_run_request_rule:
  assumes run: "inner_run_request ho gu fn req s = Some y" and init: "I (fst s) (snd (snd s))"
    and step: "\<And>msg inst g w ok s'. I inst w \<Longrightarrow> handle_message ho gu msg (inst, g, w) = Some (ok, s') \<Longrightarrow> I (fst s') (snd (snd s'))"
  shows "\<exists>inst. I inst (snd y) \<and> usage_from ho inst (usage_of (fst y))"
proof -
  from run obtain ok s' where w: "write_message gu (ExecuteFunction fn req) s = Some (ok, s')"
    and rest: "(if ok then run_loop ho gu s' else Some (Inl (InternalError, usage_default), snd (snd s'))) = Some y"
    by (auto simp: inner_run_request_def bind_eq_Some_conv)
  from init write_message_keeps [OF w] have I: "I (fst s') (snd (snd s'))" by simp
  show ?thesis
  proof (cases ok)
    case True
    with rest show ?thesis using run_loop_rule [of ho gu s' y I] I step by auto
  next
    case False
    with rest I show ?thesis by (auto simp: usage_of_def usage_from_def)
  qed
qed

lemma inner_run_request_keeps:
  assumes run: "inner_run_request ho gu fn req s = Some y" and h: "host_contract ho cells objects"
    and i: "stack_id_wf (in_stack_id (fst s))"
  shows "foreign_same (ho_b58 ho) cells objects (in_stack_id (fst s)) (snd (snd s)) (snd y)"
proof -
  let ?I = "\<lambda>inst w. in_stack_id inst = in_stack_id (fst s) \<and> foreign_same (ho_b58 ho) cells objects (in_stack_id (fst s)) (snd (snd s)) w"
  have step: "?I (fst s') (snd (snd s'))" if "?I inst w" "handle_message ho gu msg (inst, g, w) = Some (ok, s')" for msg inst g w ok s'
    using handle_message_keeps [OF h _ that(2)] that(1) i by (auto simp: step_keeps_def intro: foreign_trans)
  have "\<exists>inst. ?I inst (snd y) \<and> usage_from ho inst (usage_of (fst y))"
    by (rule inner_run_request_rule [OF run]) (simp, rule step)
  then show ?thesis by blast
qed

section \<open>Messages are answered\<close>

lemma db_ensures_map [db_intros]: "db_ensures m (\<lambda>_. True) \<Longrightarrow> db_ensures (db_map f m) (\<lambda>_. True)"
  unfolding db_map_def by (erule db_ensures_bind) (rule db_ensures_res, simp)

lemma db_ensures_res_bind:
  "(\<And>x. q = Inr x \<Longrightarrow> db_ensures (f x) P) \<Longrightarrow> db_ensures (db_bind (db_res q) f) P"
  by (rule db_ensures_bind [where P = "\<lambda>x. q = Inr x"]) (auto intro: db_ensures_res)

lemma encode_own_keys: "\<forall>k \<in> set ks. own_key i k \<Longrightarrow> encode_all key_to_blob ks = Some (map key_blob ks)"
  by (rule encode_all_Some) (simp add: own_key_def key_to_blob_wf)

lemma encode_own_pairs:
  "\<forall>kv \<in> set kvs. own_key i (fst kv) \<Longrightarrow> encode_all (encode_pair key_to_blob) kvs = Some (map (\<lambda>kv. (key_blob (fst kv), snd kv)) kvs)"
  by (rule encode_all_Some) (simp add: own_key_def key_to_blob_wf encode_pair_def)

lemma own_key_encodings:
  assumes "own_key i k"
  shows "key_to_blob k = Some (key_blob k)"
    and "table_list_key_to_tikv (list_key_of (k_stack_id k) (k_table_name k)) = Some (list_blob (k_stack_id k) (k_table_name k))"
  using assms key_to_blob_wf [of k] by (auto simp: own_key_def key_wf_def table_list_key_to_tikv_wf table_list_key_wf_def)

lemma make_mudb_scan_range:
  assumes "stack_id_wf i" and "make_mudb_scan i table p = Inr s"
  shows "\<exists>r. scan_range s = Some r"
proof -
  from assms(2) obtain t where "table_name_wf t" "s = ByInnerKeyPrefix i t p"
    by (auto simp: make_mudb_scan_def res_simps table_name_try_from_blob_Inr)
  with scan_range_wf(2) [OF assms(1)] show ?thesis by blast
qed

lemma encode_scans:
  assumes "stack_id_wf i" and "make_mudb_scans i tks = Inr ss"
  shows "\<exists>rs. encode_all scan_range ss = Some rs"
proof -
  have "encode_all scan_range ss = Some (map (\<lambda>s. the (scan_range s)) ss)"
    using assms(2) make_mudb_scan_range [OF assms(1)]
    by (intro encode_all_Some) (fastforce simp: make_mudb_scans_def dest!: collect_res_mem)
  then show ?thesis by blast
qed

lemma list_prefix_range: "stack_id_wf i \<Longrightarrow> \<exists>r. scan_table_list_range (ListByTableName i t) = Some r"
  by (simp add: prefixed_by_three_chunk_bound_range_def push_len_def as_bytes_def)

lemma triples_own:
  assumes "stack_id_wf i"
    and "collect_res (\<lambda>(table, key, value). res_bind (make_mudb_key i table key) (\<lambda>k. Inr (k, value))) ts = Inr kvs"
  shows "\<forall>kv \<in> set kvs. own_key i (fst kv)"
  using collect_res_mem [OF assms(2)] make_mudb_key_own [OF assms(1)] by (fastforce simp: res_simps)

lemma db_ops_return:
  assumes i: "stack_id_wf i"
  shows "own_key i k \<Longrightarrow> db_ensures (db_put kv k v a) (\<lambda>_. True)"
    and "own_key i k \<Longrightarrow> db_ensures (db_delete kv k a) (\<lambda>_. True)"
    and "own_key i k \<Longrightarrow> db_ensures (db_get kv k) (\<lambda>_. True)"
    and "own_key i k \<Longrightarrow> db_ensures (db_compare_and_swap kv k pv v) (\<lambda>_. True)"
    and "table_name_wf t \<Longrightarrow> db_ensures (db_delete_by_prefix kv i t p) (\<lambda>_. True)"
    and "\<exists>r. scan_range s = Some r \<Longrightarrow> db_ensures (db_scan kv s n) (\<lambda>_. True)"
    and "\<exists>r. scan_range s = Some r \<Longrightarrow> db_ensures (db_scan_keys kv s n) (\<lambda>_. True)"
    and "db_ensures (table_list kv i (Some t)) (\<lambda>_. True)"
    and "\<forall>k \<in> set ks. own_key i k \<Longrightarrow> db_ensures (db_batch_delete kv ks) (\<lambda>_. True)"
    and "\<forall>k \<in> set ks. own_key i k \<Longrightarrow> db_ensures (db_batch_get kv ks) (\<lambda>_. True)"
    and "\<forall>kv \<in> set kvs. own_key i (fst kv) \<Longrightarrow> db_ensures (db_batch_put kv kvs a) (\<lambda>_. True)"
    and "\<exists>rs. encode_all scan_range ss = Some rs \<Longrightarrow> db_ensures (db_batch_scan kv ss n) (\<lambda>_. True)"
    and "\<exists>rs. encode_all scan_range ss = Some rs \<Longrightarrow> db_ensures (db_batch_scan_keys kv ss n) (\<lambda>_. True)"
proof -
  show "db_ensures (table_list kv i (Some t)) (\<lambda>_. True)"
    unfolding table_list_def using list_prefix_range [OF i, of t]
    by (auto simp del: scan_table_list_range.simps intro!: db_intros)
qed (auto simp: db_put_def db_delete_def db_get_def db_compare_and_swap_def db_delete_by_prefix_def db_scan_def db_scan_keys_def
    db_batch_delete_def db_batch_get_def db_batch_put_def db_batch_scan_def db_batch_scan_keys_def own_key_encodings
    encode_own_keys encode_own_pairs scan_range_wf(2) [OF i] intro!: db_intros split: option.splits simp del: scan_range.simps)

lemma db_request_returns:
  assumes i: "stack_id_wf i" and f: "db_request kv i msg = Some f"
  shows "db_ensures f (\<lambda>_. True)"
  using f by (cases msg)
    (auto intro!: db_ensures_res_bind db_ensures_map db_ops_return [OF i] simp: res_simps table_name_try_from_blob_Inr
      simp del: scan_range.simps
      dest: make_mudb_key_own [OF i] make_mudb_keys_own [OF i] make_mudb_scan_range [OF i] encode_scans [OF i] triples_own [OF i])


text \<open>
  A guest under metering: its instructions, and with them the messages it can still write, are
  bounded by \<open>budget\<close>, and its end of the pipe is closed when it ends.
\<close>

definition metered_guest :: "'g guest \<Rightarrow> ('g \<Rightarrow> nat) \<Rightarrow> bool" where
  "metered_guest gu budget \<longleftrightarrow>
     (\<forall>g e g'. g_read gu g = (e, g') \<longrightarrow> e \<noteq> ReadBlocked \<and> (\<forall>m. e = ReadMessage m \<longrightarrow> budget g' < budget g))
   \<and> (\<forall>m g. budget (snd (g_write gu m g)) \<le> budget g)"

definition guest_left :: "'g guest \<Rightarrow> ('g \<Rightarrow> nat) \<Rightarrow> ('g, 'w) fn_state \<Rightarrow> (bool \<times> ('g, 'w) fn_state) option \<Rightarrow> bool" where
  "guest_left gu budget s r \<longleftrightarrow>
     (\<exists>ok s'. r = Some (ok, s') \<and> in_stack_id (fst s') = in_stack_id (fst s) \<and> budget (fst (snd s')) \<le> budget (fst (snd s)))"

lemma write_message_left:
  assumes "metered_guest gu budget" and "in_stack_id inst' = in_stack_id (fst s)" and "g = fst (snd s)"
  shows "guest_left gu budget s (write_message gu msg (inst', g, w))"
  using assms by (auto simp: guest_left_def write_message_def metered_guest_def split: prod.splits) (metis snd_conv)

lemma handle_message_left:
  assumes m: "metered_guest gu budget" and i: "stack_id_wf (in_stack_id (fst s))"
  shows "guest_left gu budget s (handle_message ho gu msg s)"
proof -
  obtain inst g w where s: "s = (inst, g, w)" by (cases s) auto
  have db: "guest_left gu budget s (execute_db_request ho gu f s)" if "db_request (ho_tikv ho) (in_stack_id inst) msg = Some f" for f
  proof -
    have "\<exists>r w'. f w1 = Some (r, w')" for w1
      using db_request_returns [OF _ that] i s by (auto simp: db_ensures_def)
    then have "\<forall>w1. \<exists>p. f w1 = Some p" by blast
    then obtain R where "\<forall>w1. f w1 = Some (R w1)" by metis
    then show ?thesis
      by (auto simp: execute_db_request_def s split: prod.splits sum.splits intro!: write_message_left [OF m])
  qed
  have st: "guest_left gu budget s (storage_request ho gu f s)" for f
    by (auto simp: storage_request_def s split: prod.splits sum.splits intro!: write_message_left [OF m])
  have http: "guest_left gu budget s (execute_http_request ho gu req s)" for req
    by (auto simp: execute_http_request_def s split: prod.splits intro!: write_message_left [OF m])
  have "guest_left gu budget s (handle_db_request ho gu msg s)"
    using db by (auto simp: handle_db_request_def s guest_left_def split: option.splits)
  then show ?thesis
    by (cases msg) (auto simp: http st guest_left_def [of _ _ s "Some (True, s)"])
qed

lemma run_loop_returns:
  assumes m: "metered_guest gu budget" and i: "stack_id_wf (in_stack_id (fst s))"
  shows "\<exists>y. run_loop ho gu s = Some y"
  using i
proof (induction "budget (fst (snd s))" arbitrary: s rule: less_induct)
  case less
  obtain inst g w where s: "s = (inst, g, w)" by (cases s) auto
  obtain e g' where e: "g_read gu g = (e, g')" by fastforce
  then have nb: "e \<noteq> ReadBlocked" and dec: "\<And>msg. e = ReadMessage msg \<Longrightarrow> budget g' < budget g"
    using m by (auto simp: metered_guest_def)
  have "\<exists>y. Option.bind (handle_message ho gu msg (inst, g', w)) (\<lambda>(ok, s').
            if ok then run_loop ho gu s' else Some (Inl (InternalError, usage_default), snd (snd s'))) = Some y"
    if "e = ReadMessage msg" for msg
  proof -
    obtain ok s' where h: "handle_message ho gu msg (inst, g', w) = Some (ok, s')"
      "in_stack_id (fst s') = in_stack_id inst" "budget (fst (snd s')) \<le> budget g'"
      using handle_message_left [OF m, of "(inst, g', w)" ho msg] less.prems s by (auto simp: guest_left_def)
    with less.hyps [of s'] dec [OF that] less.prems s show ?thesis by (cases ok) auto
  qed
  with nb e s show ?case
    by (subst run_loop.simps) (cases e; auto split: OutgoingMessage.split simp del: handle_message.simps)
qed

lemma inner_run_request_returns:
  assumes m: "metered_guest gu budget" and i: "stack_id_wf i"
  shows "\<exists>y. inner_run_request ho gu fn req (instance_start i memory, g, w) = Some y"
proof -
  obtain ok s' where s': "write_message gu (ExecuteFunction fn req) (instance_start i memory, g, w) = Some (ok, s')"
    by (cases "g_write gu (ExecuteFunction fn req) g") (simp add: write_message_def)
  then show ?thesis
    using write_message_keeps [OF s'] run_loop_returns [OF m, of s' ho] i
    by (auto simp: inner_run_request_def instance_start_def)
qed

section \<open>Usage of a function\<close>

text \<open>No handler counts a database operation.\<close>

lemma write_message_inst: "write_message gu msg (inst, g, w) = Some (ok, s') \<Longrightarrow> fst s' = inst"
  by (auto simp: write_message_def split: prod.splits)

definition same_counts :: "fn_instance \<Rightarrow> fn_instance \<Rightarrow> bool" where
  "same_counts a b \<longleftrightarrow> in_database_read_count b = in_database_read_count a
     \<and> in_database_write_count b = in_database_write_count a \<and> in_memory_limit b = in_memory_limit a"

lemma execute_db_request_counts:
  assumes "execute_db_request ho gu f (inst, g, w) = Some (ok, s')"
  shows "same_counts inst (fst s')"
proof -
  obtain q w1 where "(if in_db_client inst then (Inr (), w) else ho_db_connect ho w) = (q, w1)" by fastforce
  with assms show ?thesis
    by (cases q) (auto simp: execute_db_request_def same_counts_def bind_eq_Some_conv dest!: write_message_inst)
qed

lemma storage_request_counts:
  assumes "storage_request ho gu f (inst, g, w) = Some (ok, s')"
  shows "same_counts inst (fst s')"
proof -
  obtain q w1 where "(if in_storage_client inst then (Inr (), w) else ho_storage_connect ho w) = (q, w1)" by fastforce
  with assms show ?thesis
    by (cases q; cases "f (OwnerStack (in_stack_id inst)) w1")
      (auto simp: storage_request_def same_counts_def dest!: write_message_inst)
qed

lemma handle_message_counts:
  assumes "handle_message ho gu msg (inst, g, w) = Some (ok, s')"
  shows "same_counts inst (fst s')"
proof -
  have http: "same_counts inst (fst s')" if "execute_http_request ho gu req (inst, g, w) = Some (ok, s')" for req
    using that by (cases "ho_http_send ho (build_http_call req) w")
      (auto simp: execute_http_request_def same_counts_def dest!: write_message_inst)
  have db: "same_counts inst (fst s')" if "handle_db_request ho gu msg (inst, g, w) = Some (ok, s')"
    using that by (cases "db_request (ho_tikv ho) (in_stack_id inst) msg")
      (auto simp: handle_db_request_def same_counts_def [of inst inst] dest: execute_db_request_counts)
  from assms db show ?thesis
    by (cases msg) (auto simp: same_counts_def [of inst inst] dest: http storage_request_counts)
qed

lemma inner_run_request_usage:
  assumes run: "inner_run_request ho gu fn req (instance_start i memory, g, w) = Some y"
  shows "usage_of (fst y) = usage_default \<or> (\<exists>n. usage_of (fst y) = create_usage (ho_megabytes ho) 0 0 n memory)"
proof -
  let ?I = "\<lambda>inst (w :: 'a). in_database_read_count inst = 0 \<and> in_database_write_count inst = 0 \<and> in_memory_limit inst = memory"
  have "\<exists>inst. ?I inst (snd y) \<and> usage_from ho inst (usage_of (fst y))"
    by (rule inner_run_request_rule [OF run]) (auto simp: instance_start_def same_counts_def dest!: handle_message_counts)
  then show ?thesis by (auto simp: usage_from_def)
qed


section \<open>A host and a guest in memory\<close>

text \<open>Services on the two halves of a world.\<close>

definition tikv_fst :: "'a tikv \<Rightarrow> ('a \<times> 'b) tikv" where
  "tikv_fst kv =
     \<lparr>tk_get = (\<lambda>k. act_fst (tk_get kv k)), tk_put = (\<lambda>a k v. act_fst (tk_put kv a k v)),
      tk_delete = (\<lambda>a k. act_fst (tk_delete kv a k)), tk_scan = (\<lambda>r n. act_fst (tk_scan kv r n)),
      tk_scan_keys = (\<lambda>r n. act_fst (tk_scan_keys kv r n)), tk_batch_put = (\<lambda>a ps. act_fst (tk_batch_put kv a ps)),
      tk_batch_get = (\<lambda>ks. act_fst (tk_batch_get kv ks)), tk_batch_delete = (\<lambda>ks. act_fst (tk_batch_delete kv ks)),
      tk_batch_scan = (\<lambda>rs n. act_fst (tk_batch_scan kv rs n)),
      tk_batch_scan_keys = (\<lambda>rs n. act_fst (tk_batch_scan_keys kv rs n)),
      tk_delete_range = (\<lambda>r. act_fst (tk_delete_range kv r)),
      tk_compare_and_swap = (\<lambda>k p v. act_fst (tk_compare_and_swap kv k p v))\<rparr>"

definition bucket_snd :: "'b bucket \<Rightarrow> ('a \<times> 'b) bucket" where
  "bucket_snd bk =
     \<lparr>bk_put = (\<lambda>k d. act_snd (bk_put bk k d)), bk_get = (\<lambda>k. act_snd (bk_get bk k)),
      bk_delete = (\<lambda>k. act_snd (bk_delete bk k)), bk_list = (\<lambda>p. act_snd (bk_list bk p))\<rparr>"

lemma leaves_other: "leaves (view \<circ> snd) (act_fst m)" "leaves (view \<circ> fst) (act_snd n)"
  by (simp_all add: leaves_def act_fst_def act_snd_def split: prod.splits)

lemma writes_only_fst: "writes_only m view P new \<Longrightarrow> writes_only (act_fst m) (view \<circ> fst) P new"
  unfolding writes_only_def by (auto simp: act_fst_eq)

lemma tikv_fst_contract:
  assumes c: "tikv_contract kv view"
  shows "tikv_contract (tikv_fst kv) (view \<circ> fst)"
proof -
  have "tikv_reads (tikv_fst kv) (view \<circ> fst)"
    using c unfolding tikv_contract_def tikv_reads_def tikv_fst_def
    by (elim conjE, intro conjI allI) (clarsimp simp: act_fst_eq simp del: split_paired_All | fastforce)+
  moreover have "tikv_writes (tikv_fst kv) (view \<circ> fst)"
    unfolding tikv_writes_def tikv_fst_def tikv.simps
    by (intro conjI allI writes_only_fst contract_writes [OF c])
      (auto simp: act_fst_eq dest!: contract_compare_and_swap [OF c])
  ultimately show ?thesis using c by (simp add: tikv_contract_def)
qed

lemma bucket_snd_contract: "bucket_contract bk view \<Longrightarrow> bucket_contract (bucket_snd bk) (view \<circ> snd)"
  unfolding bucket_contract_def bucket_snd_def by (simp add: act_snd_eq)

type_synonym mem_world = "(bytes \<times> bytes) list \<times> (string \<times> bytes) list"

definition mem_host :: "mem_world host" where
  "mem_host =
     \<lparr>ho_db_connect = act_ok (), ho_tikv = tikv_fst mem_tikv, ho_show_db_error = (\<lambda>_. ''database error''),
      ho_storage_connect = act_ok (), ho_b58 = hex_encode, ho_bucket = bucket_snd mem_bucket,
      ho_http_send = (\<lambda>_. act_res (Inl \<lparr>qe_kind = QRequest, qe_source = None\<rparr>)), ho_lower = id, ho_megabytes = (\<lambda>b. b div 1000000)\<rparr>"

lemma mem_host_contract: "host_contract mem_host (map_of \<circ> fst) (map_of \<circ> snd)"
  unfolding host_contract_def mem_host_def host.simps tikv_leaves_def bucket_leaves_def
  using tikv_fst_contract [OF mem_tikv_contract] bucket_snd_contract [OF mem_bucket_contract]
  by (simp add: hex_ok leaves_ok) (simp add: tikv_fst_def bucket_snd_def leaves_other)

text \<open>A guest that writes the messages of a script, and then ends.\<close>

definition scripted :: "u64 \<Rightarrow> OutgoingMessage list guest" where
  "scripted n =
     \<lparr>g_write = (\<lambda>_ g. (True, g)),
      g_read = (\<lambda>g. case g of [] \<Rightarrow> (ReadEof, []) | m # ms \<Rightarrow> (ReadMessage m, ms)),
      g_join = (\<lambda>_. Some (Inr n))\<rparr>"

lemma scripted_metered: "metered_guest (scripted n) length"
  by (auto simp: metered_guest_def scripted_def split: list.splits)


abbreviation demo_request :: Request where
  "demo_request \<equiv> \<lparr>rq_method = Get, rq_path_params = [], rq_query_params = [], rq_headers = [], rq_body = []\<rparr>"

definition demo_script :: "OutgoingMessage list" where
  "demo_script =
     [MDeleteByPrefix (as_bytes ''a'') [], MStorageDelete ''pics'' ''cat'', MLog ''bye'' LInfo, MFatalError ''stop'']"

definition other_id :: StackID where
  "other_id = SolanaPublicKey (replicate 32 9)"

lemma other_id: "stack_id_wf other_id" "other_id \<noteq> demo_stack_id"
  by (simp_all add: other_id_def stack_id_wf_def pubkey_def SOLANA_PUBKEY_SIZE_def demo_stack_id_def)

section \<open>Properties\<close>

text \<open>
  C7. Functions are isolated from each other: whatever a function of a stack writes on its pipe,
  however its run ends, every cell of another stack, every entry of the table list and every
  object and storage of another owner is as before.
\<close>

theorem function_isolation:
  assumes h: "host_contract ho cells objects" and i: "stack_id_wf i"
    and run: "inner_run_request ho gu fn req (instance_start i memory, g, w) = Some (r, w')"
  shows "(key_wf k \<and> k_stack_id k \<noteq> i \<longrightarrow> cells w' (key_blob k) = cells w (key_blob k))
    \<and> listed (cells w') j t = listed (cells w) j t
    \<and> (owner \<noteq> OwnerStack i \<longrightarrow>
         objects w' (create_path (ho_b58 ho) owner s key) = objects w (create_path (ho_b58 ho) owner s key)
       \<and> objects w' (manifest_prefix (ho_b58 ho) owner @ s) = objects w (manifest_prefix (ho_b58 ho) owner @ s))"
proof -
  have f: "foreign_same (ho_b58 ho) cells objects i w w'"
    using inner_run_request_keeps [OF run h] i by (simp add: instance_start_def)
  show ?thesis
    using f key_in_stack [OF i, of k] owner_path_other [OF host_contractD(5) [OF h], of owner "OwnerStack i"]
    by (auto simp: foreign_same_def key_wf_def listed_def list_not_in_stack)
qed

theorem function_isolation_witness:
  "\<exists>r w'. inner_run_request mem_host (scripted 5) ''f'' demo_request
      (instance_start other_id 1000000, demo_script, (demo_store, demo_bucket)) = Some (r, w')
    \<and> map_of (fst w') (key_blob \<lparr>k_stack_id = demo_stack_id, k_table_name = ''a'', k_inner_key = [1]\<rparr>) = Some [9]
    \<and> map_of (snd w') (create_path hex_encode demo_owner ''pics'' ''cat'') = Some [1, 2]"
proof -
  obtain r w' where run: "inner_run_request mem_host (scripted 5) ''f'' demo_request
      (instance_start other_id 1000000, demo_script, (demo_store, demo_bucket)) = Some (r, w')"
    using inner_run_request_returns [OF scripted_metered other_id(1), of mem_host 5] by (metis surj_pair)
  have "map_of demo_store (key_blob \<lparr>k_stack_id = demo_stack_id, k_table_name = ''a'', k_inner_key = [1]\<rparr>) = Some [9]"
    "map_of demo_bucket (create_path hex_encode demo_owner ''pics'' ''cat'') = Some [1, 2]"
    by (simp_all add: demo_store_def key_not_table_list demo_bucket_def create_path_not_entry)
  moreover have "demo_owner \<noteq> OwnerStack other_id" by (simp add: other_id_def numeral_eq_Suc)
  ultimately show ?thesis
    using run demo_names other_id(2) function_isolation [OF mem_host_contract other_id(1) run,
        of "\<lparr>k_stack_id = demo_stack_id, k_table_name = ''a'', k_inner_key = [1]\<rparr>" _ _ demo_owner "''pics''" "''cat''"]
    by (simp add: key_wf_def mem_host_def)
qed





end
