(* ===== verification/Membership.thy ===== *)
theory Membership
  imports Scheduler Db_Client
begin

unbundle bit_operations_syntax

text \<open>
  Membership, \<open>src/executor/src/network/membership.rs\<close> with \<open>membership/node_collection.rs\<close> and
  \<open>membership/protos.rs\<close>: every node writes its status to the database and reads those of the
  others, keeps a collection of the nodes it knows, and notifies the rest of the executor when
  nodes come, go, or change their stacks. Points in time are nanoseconds since 1970 and spans
  are nanoseconds. \<open>None\<close> is a panic or a loop that does not end.
\<close>

section \<open>Node addresses\<close>

datatype IpAddr = V4 bytes | V6 bytes

record NodeAddress =
  na_address :: IpAddr
  na_port :: u16
  na_generation :: u128

type_synonym addr_port = "IpAddr \<times> u16"

definition addr_port_of :: "NodeAddress \<Rightarrow> addr_port" where
  "addr_port_of a = (na_address a, na_port a)"

section \<open>Status of a node\<close>

datatype NodeDeadReason = DeadState | ReplacedByNewGeneration | MissedUpdate | MissingFromDb

datatype NodeState = Dead | Alive

record NodeStatus =
  ns_version :: u32
  ns_address :: NodeAddress
  ns_region_id :: bytes
  ns_last_update :: int
  ns_state :: NodeState
  ns_deployed_stacks :: "StackID hash_set"

record RemoteNodeInfo =
  rn_version :: u32
  rn_address :: NodeAddress
  rn_dead_reason :: "NodeDeadReason option"
  rn_deployed_stacks :: "StackID hash_set"

section \<open>Protocol buffers\<close>

text \<open>A message field may be absent, and so may the alternative of a \<open>oneof\<close>.\<close>

datatype pb_ip = PbIpv4 bytes | PbIpv6 bytes

record pb_node_address =
  pna_ip :: "pb_ip option option"
  pna_port :: u32

record pb_generation =
  pg_upper :: u64
  pg_lower :: u64

record pb_timestamp =
  pt_seconds :: int
  pt_nanos :: int

datatype pb_stack_id = PbSolana bytes

datatype pb_node_state = PbDead | PbAlive | PbUnknownState int

record pb_node_status =
  pns_version :: u32
  pns_generation :: "pb_generation option"
  pns_region_id :: bytes
  pns_last_update :: "pb_timestamp option"
  pns_state :: pb_node_state
  pns_deployed_stacks :: "pb_stack_id option list"

datatype membership_error =
    EmptyIp | BadIpLength | PortNotU16 | EmptyGeneration | EmptyTimestamp | TimestampRange | UnknownNodeState
  | EmptyStackId | BadStackIdLength | ParseAddress | ParseStatus | SerializeAddress | SerializeStatus
  | NewerGeneration | MembershipDb DbError

definition address_to_proto :: "addr_port \<Rightarrow> pb_node_address" where
  "address_to_proto a =
     \<lparr>pna_ip = Some (Some (case fst a of V4 b \<Rightarrow> PbIpv4 b | V6 b \<Rightarrow> PbIpv6 b)), pna_port = ucast (snd a)\<rparr>"

definition address_from_proto :: "pb_node_address \<Rightarrow> membership_error + addr_port" where
  "address_from_proto a =
     res_bind (case pna_ip a of
         None \<Rightarrow> Inl EmptyIp
       | Some None \<Rightarrow> Inl EmptyIp
       | Some (Some (PbIpv4 b)) \<Rightarrow> if length b = 4 then Inr (V4 b) else Inl BadIpLength
       | Some (Some (PbIpv6 b)) \<Rightarrow> if length b = 16 then Inr (V6 b) else Inl BadIpLength) (\<lambda>ip.
     res_bind (if pna_port a < 65536 then Inr (ucast (pna_port a)) else Inl PortNotU16) (\<lambda>port.
     Inr (ip, port)))"

definition generation_to_proto :: "u128 \<Rightarrow> pb_generation" where
  "generation_to_proto g = \<lparr>pg_upper = ucast (drop_bit 64 g), pg_lower = ucast (g AND mask 64)\<rparr>"

definition generation_from_proto :: "pb_generation \<Rightarrow> u128" where
  "generation_from_proto a = push_bit 64 (ucast (pg_upper a)) OR ucast (pg_lower a)"

text \<open>The time must not be before 1970, and its seconds must fit 64 bits with a sign.\<close>

definition timestamp_to_proto :: "int \<Rightarrow> pb_timestamp option" where
  "timestamp_to_proto t =
     (if 0 \<le> t \<and> t div 1000000000 < 2 ^ 63 then Some \<lparr>pt_seconds = t div 1000000000, pt_nanos = t mod 1000000000\<rparr> else None)"

text \<open>
  \<open>Duration::seconds\<close> panics when the milliseconds do not fit 64 bits with a sign; adding the
  nanoseconds is checked against the same bound, adding to the epoch against the dates that can
  be represented.
\<close>

definition duration_ok :: "int \<Rightarrow> bool" where
  "duration_ok nanos \<longleftrightarrow> \<bar>nanos\<bar> \<le> (2 ^ 63 - 1) * 1000000"

definition timestamp_from_proto :: "(int \<Rightarrow> bool) \<Rightarrow> pb_timestamp \<Rightarrow> (membership_error + int) option" where
  "timestamp_from_proto date_ok t =
     (if \<not> duration_ok (pt_seconds t * 1000000000) then None
      else let d = pt_seconds t * 1000000000 + pt_nanos t
        in Some (if duration_ok d \<and> date_ok d then Inr d else Inl TimestampRange))"

definition status_to_proto :: "NodeStatus \<Rightarrow> pb_node_status option" where
  "status_to_proto n =
     Option.bind (timestamp_to_proto (ns_last_update n)) (\<lambda>ts.
     Some \<lparr>pns_version = ns_version n, pns_generation = Some (generation_to_proto (na_generation (ns_address n))),
       pns_region_id = ns_region_id n, pns_last_update = Some ts,
       pns_state = (case ns_state n of Dead \<Rightarrow> PbDead | Alive \<Rightarrow> PbAlive),
       pns_deployed_stacks = map (\<lambda>i. case i of SolanaPublicKey k \<Rightarrow> Some (PbSolana k)) (ns_deployed_stacks n)\<rparr>)"

definition stack_id_from_proto :: "pb_stack_id option \<Rightarrow> membership_error + StackID" where
  "stack_id_from_proto i =
     (case i of None \<Rightarrow> Inl EmptyStackId
      | Some (PbSolana k) \<Rightarrow> if length k = 32 then Inr (SolanaPublicKey k) else Inl BadStackIdLength)"

definition state_from_proto :: "pb_node_state \<Rightarrow> membership_error + NodeState" where
  "state_from_proto s = (case s of PbAlive \<Rightarrow> Inr Alive | PbDead \<Rightarrow> Inr Dead | PbUnknownState _ \<Rightarrow> Inl UnknownNodeState)"

text \<open>A result inside a computation that may panic.\<close>

definition panic_bind :: "('e + 'a) option \<Rightarrow> ('a \<Rightarrow> ('e + 'b) option) \<Rightarrow> ('e + 'b) option" where
  "panic_bind m f = Option.bind m (\<lambda>r. case r of Inl e \<Rightarrow> Some (Inl e) | Inr x \<Rightarrow> f x)"

definition status_from_proto ::
  "(int \<Rightarrow> bool) \<Rightarrow> pb_node_address \<Rightarrow> pb_node_status \<Rightarrow> (membership_error + NodeStatus) option" where
  "status_from_proto date_ok address status =
     panic_bind (Some (address_from_proto address)) (\<lambda>(ip, port).
     panic_bind (Some (ok_or EmptyGeneration (pns_generation status))) (\<lambda>g.
     panic_bind (Some (ok_or EmptyTimestamp (pns_last_update status))) (\<lambda>ts.
     panic_bind (timestamp_from_proto date_ok ts) (\<lambda>last_update.
     panic_bind (Some (state_from_proto (pns_state status))) (\<lambda>state.
     panic_bind (Some (collect_res stack_id_from_proto (pns_deployed_stacks status))) (\<lambda>stacks.
     Some (Inr \<lparr>ns_version = pns_version status,
       ns_address = \<lparr>na_address = ip, na_port = port, na_generation = generation_from_proto g\<rparr>,
       ns_region_id = pns_region_id status, ns_last_update = last_update, ns_state = state,
       ns_deployed_stacks = remdups stacks\<rparr>)))))))"

section \<open>The node collection\<close>

record NodeCollection =
  nc_nodes :: "(NodeHash, RemoteNodeInfo) hash_map"
  nc_by_addr :: "(addr_port, NodeHash) hash_map"

definition nodes_new :: "(NodeAddress \<Rightarrow> NodeHash) \<Rightarrow> RemoteNodeInfo list \<Rightarrow> NodeCollection option" where
  "nodes_new hash nodes =
     (let result =
        \<lparr>nc_nodes = hm_from_pairs (map (\<lambda>n. (hash (rn_address n), n)) nodes),
         nc_by_addr = hm_from_pairs (map (\<lambda>n. (addr_port_of (rn_address n), hash (rn_address n))) nodes)\<rparr>
      in if length (nc_nodes result) = length (nc_by_addr result) then Some result else None)"

definition get_nodes :: "NodeCollection \<Rightarrow> RemoteNodeInfo list" where
  "get_nodes c = map snd (nc_nodes c)"

definition get_node :: "NodeHash \<Rightarrow> NodeCollection \<Rightarrow> RemoteNodeInfo option" where
  "get_node h c = map_of (nc_nodes c) h"

definition get_by_address :: "addr_port \<Rightarrow> NodeCollection \<Rightarrow> RemoteNodeInfo option option" where
  "get_by_address a c =
     (case map_of (nc_by_addr c) a of
        None \<Rightarrow> Some None
      | Some h \<Rightarrow> (case map_of (nc_nodes c) h of None \<Rightarrow> None | Some n \<Rightarrow> Some (Some n)))"

definition nodes_insert :: "(NodeAddress \<Rightarrow> NodeHash) \<Rightarrow> RemoteNodeInfo \<Rightarrow> NodeCollection \<Rightarrow> bool \<times> NodeCollection" where
  "nodes_insert hash node c =
     (let h = hash (rn_address node); a = addr_port_of (rn_address node)
      in if map_of (nc_by_addr c) a \<noteq> None then (False, c)
         else (True, c\<lparr>nc_by_addr := AList.update a h (nc_by_addr c), nc_nodes := AList.update h node (nc_nodes c)\<rparr>))"

definition nodes_remove :: "NodeHash \<Rightarrow> NodeCollection \<Rightarrow> RemoteNodeInfo option \<times> NodeCollection" where
  "nodes_remove h c =
     (case map_of (nc_nodes c) h of
        Some node \<Rightarrow> (Some node, c\<lparr>nc_nodes := AList.delete h (nc_nodes c),
          nc_by_addr := AList.delete (addr_port_of (rn_address node)) (nc_by_addr c)\<rparr>)
      | None \<Rightarrow> (None, c))"

definition nodes_update ::
  "(NodeAddress \<Rightarrow> NodeHash) \<Rightarrow> NodeHash \<Rightarrow> (RemoteNodeInfo \<Rightarrow> RemoteNodeInfo) \<Rightarrow> NodeCollection \<Rightarrow> (bool \<times> NodeCollection) option" where
  "nodes_update hash h f c =
     (case nodes_remove h c of
        (None, c') \<Rightarrow> Some (False, c')
      | (Some node, c') \<Rightarrow> (case nodes_insert hash (f node) c' of (True, c'') \<Rightarrow> Some (True, c'') | (False, _) \<Rightarrow> None))"

definition update_in_place ::
  "(NodeAddress \<Rightarrow> NodeHash) \<Rightarrow> NodeHash \<Rightarrow> (RemoteNodeInfo \<Rightarrow> RemoteNodeInfo) \<Rightarrow> NodeCollection \<Rightarrow> (bool \<times> NodeCollection) option" where
  "update_in_place hash h f c =
     (case map_of (nc_nodes c) h of
        None \<Rightarrow> Some (False, c)
      | Some node \<Rightarrow>
          if hash (rn_address (f node)) \<noteq> h then None
          else Some (True, c\<lparr>nc_nodes := AList.update h (f node) (nc_nodes c)\<rparr>))"


section \<open>State and notifications\<close>

datatype MembershipNotification =
    MNodeDiscovered NodeAddress
  | MNodeDied NodeHash NodeDeadReason
  | MNodeStacksChanged NodeHash "StackID list" "StackID list"

record membership_state =
  me_nodes :: NodeCollection
  me_assume_dead_after :: int
  me_my_version :: u32
  me_my_address :: NodeAddress
  me_deployed_stacks :: "StackID hash_set"
  me_region_id :: bytes

text \<open>
  Libraries: the hash of an address, the bytes of protocol buffers, and the dates that can be
  represented.
\<close>

record membership_env =
  mv_hash :: "NodeAddress \<Rightarrow> NodeHash"
  mv_write_address :: "pb_node_address \<Rightarrow> bytes option"
  mv_parse_address :: "bytes \<Rightarrow> pb_node_address option"
  mv_write_status :: "pb_node_status \<Rightarrow> bytes option"
  mv_parse_status :: "bytes \<Rightarrow> pb_node_status option"
  mv_date_ok :: "int \<Rightarrow> bool"

type_synonym ('w, 'a) memop = "'w \<Rightarrow> ((membership_error + 'a) \<times> 'w) option"

definition mem_bind :: "('w, 'a) memop \<Rightarrow> ('a \<Rightarrow> ('w, 'b) memop) \<Rightarrow> ('w, 'b) memop" where
  "mem_bind m f w = Option.bind (m w) (\<lambda>(r, w'). case r of Inl e \<Rightarrow> Some (Inl e, w') | Inr x \<Rightarrow> f x w')"

definition mem_db :: "('w, 'a) dbop \<Rightarrow> ('w, 'a) memop" where
  "mem_db m w = map_option (apfst (map_err MembershipDb)) (m w)"

definition mem_pure :: "(membership_error + 'a) option \<Rightarrow> ('w, 'a) memop" where
  "mem_pure r w = map_option (\<lambda>x. (x, w)) r"

section \<open>Statuses in the database\<close>

definition DB_KEY_PREFIX :: bytes where
  "DB_KEY_PREFIX = [0, 77]"

definition DB_KEY_UPPER_BOUND :: bytes where
  "DB_KEY_UPPER_BOUND = [0, 78]"

definition serialize_key :: "membership_env \<Rightarrow> addr_port \<Rightarrow> membership_error + pb_node_address \<times> bytes" where
  "serialize_key env node_port =
     (let address = address_to_proto node_port
      in res_bind (ok_or SerializeAddress (mv_write_address env address)) (\<lambda>b. Inr (address, DB_KEY_PREFIX @ b)))"

definition status_write_to_bytes :: "membership_env \<Rightarrow> NodeStatus \<Rightarrow> (membership_error + bytes) option" where
  "status_write_to_bytes env s =
     Option.bind (status_to_proto s) (\<lambda>p. Some (ok_or SerializeStatus (mv_write_status env p)))"

definition deserialize_status ::
  "membership_env \<Rightarrow> pb_node_address \<Rightarrow> bytes \<Rightarrow> (membership_error + NodeStatus) option" where
  "deserialize_status env address value_bytes =
     panic_bind (Some (ok_or ParseStatus (mv_parse_status env value_bytes))) (\<lambda>status.
       status_from_proto (mv_date_ok env) address status)"

definition read_status_raw :: "'w tikv \<Rightarrow> bytes \<Rightarrow> ('w, bytes option) memop" where
  "read_status_raw kv key = mem_db (db_get_raw kv key)"

definition read_status :: "membership_env \<Rightarrow> 'w tikv \<Rightarrow> addr_port \<Rightarrow> ('w, NodeStatus option) memop" where
  "read_status env kv node_port =
     mem_bind (mem_pure (Some (serialize_key env node_port))) (\<lambda>(address, key).
     mem_bind (read_status_raw kv key) (\<lambda>raw. case raw of
       None \<Rightarrow> mem_pure (Some (Inr None))
     | Some r \<Rightarrow> mem_bind (mem_pure (deserialize_status env address r)) (\<lambda>s. mem_pure (Some (Inr (Some s))))))"

text \<open>One entry of the scan: \<open>&kv.0[2..]\<close> panics on a key of less than two bytes.\<close>

definition read_entry :: "membership_env \<Rightarrow> bytes \<times> bytes \<Rightarrow> (membership_error + addr_port \<times> NodeStatus) option" where
  "read_entry env kv =
     (if length (fst kv) < 2 then None
      else panic_bind (Some (ok_or ParseAddress (mv_parse_address env (drop 2 (fst kv))))) (\<lambda>address.
           panic_bind (deserialize_status env address (snd kv)) (\<lambda>status.
           Some (Inr (addr_port_of (ns_address status), status)))))"

fun read_entries :: "membership_env \<Rightarrow> (bytes \<times> bytes) list \<Rightarrow> (membership_error + (addr_port \<times> NodeStatus) list) option" where
  "read_entries env [] = Some (Inr [])"
| "read_entries env (kv # kvs) =
     panic_bind (read_entry env kv) (\<lambda>x. panic_bind (read_entries env kvs) (\<lambda>xs. Some (Inr (x # xs))))"

definition read_status_all :: "membership_env \<Rightarrow> 'w tikv \<Rightarrow> ('w, (addr_port, NodeStatus) hash_map) memop" where
  "read_status_all env kv =
     mem_bind (mem_db (db_scan_raw kv DB_KEY_PREFIX DB_KEY_UPPER_BOUND 10240)) (\<lambda>kvs.
     mem_bind (mem_pure (read_entries env kvs)) (\<lambda>xs. mem_pure (Some (Inr (hm_from_pairs xs)))))"

text \<open>The loop of \<open>write_status\<close>: read, compare generations, swap, until the swap succeeds.\<close>

partial_function (option) write_loop ::
  "membership_env \<Rightarrow> 'w tikv \<Rightarrow> pb_node_address \<Rightarrow> bytes \<Rightarrow> u128 \<Rightarrow> bytes \<Rightarrow> 'w \<Rightarrow> ((membership_error + unit) \<times> 'w) option" where
  "write_loop env kv address key my_generation status_bytes w =
     Option.bind (read_status_raw kv key w) (\<lambda>(r, w1).
       case r of Inl e \<Rightarrow> Some (Inl e, w1)
       | Inr existing_raw \<Rightarrow>
           Option.bind (case existing_raw of None \<Rightarrow> Some (Inr None)
             | Some e \<Rightarrow> panic_bind (deserialize_status env address e) (\<lambda>x. Some (Inr (Some (e, x))))) (\<lambda>d.
           case d of Inl e \<Rightarrow> Some (Inl e, w1)
           | Inr existing \<Rightarrow>
               if (case existing of Some (_, x) \<Rightarrow> my_generation < na_generation (ns_address x) | None \<Rightarrow> False)
               then Some (Inl NewerGeneration, w1)
               else Option.bind (mem_db (db_compare_and_swap_raw kv key (map_option fst existing) status_bytes) w1) (\<lambda>(q, w2).
                 case q of Inl e \<Rightarrow> Some (Inl e, w2)
                 | Inr (_, written) \<Rightarrow>
                     if written then Some (Inr (), w2) else write_loop env kv address key my_generation status_bytes w2)))"

declare write_loop.simps [code]

definition write_status :: "membership_env \<Rightarrow> 'w tikv \<Rightarrow> NodeStatus \<Rightarrow> ('w, unit) memop" where
  "write_status env kv status =
     mem_bind (mem_pure (Some (serialize_key env (addr_port_of (ns_address status))))) (\<lambda>(address, key).
     mem_bind (mem_pure (status_write_to_bytes env status)) (\<lambda>status_bytes.
       write_loop env kv address key (na_generation (ns_address status)) status_bytes))"

section \<open>An update\<close>

definition get_dead_reason :: "int \<Rightarrow> int \<Rightarrow> NodeStatus \<Rightarrow> NodeDeadReason option" where
  "get_dead_reason assume_dead_after now node =
     (case ns_state node of
        Dead \<Rightarrow> Some DeadState
      | Alive \<Rightarrow> if now - ns_last_update node < assume_dead_after then None else Some MissedUpdate)"

definition compare_deployed_stack_list :: "StackID hash_set \<Rightarrow> StackID hash_set \<Rightarrow> StackID list \<times> StackID list" where
  "compare_deployed_stack_list current incoming =
     (filter (\<lambda>i. i \<notin> set current) incoming, filter (\<lambda>i. i \<notin> set incoming) current)"

type_synonym update_step = "membership_state \<Rightarrow> (membership_state \<times> MembershipNotification list) option"

definition on_node_discovered :: "membership_env \<Rightarrow> NodeStatus \<Rightarrow> update_step" where
  "on_node_discovered env node st =
     (case nodes_insert (mv_hash env) \<lparr>rn_version = ns_version node, rn_address = ns_address node, rn_dead_reason = None,
          rn_deployed_stacks = ns_deployed_stacks node\<rparr> (me_nodes st) of
        (True, c) \<Rightarrow> Some (st\<lparr>me_nodes := c\<rparr>, [MNodeDiscovered (ns_address node)])
      | (False, _) \<Rightarrow> None)"

text \<open>The nodes that are no longer in the database.\<close>

definition drop_missing :: "membership_env \<Rightarrow> (addr_port, NodeStatus) hash_map \<Rightarrow> membership_state \<Rightarrow>
    membership_state \<times> MembershipNotification list" where
  "drop_missing env all_nodes st =
     (let missing = map (\<lambda>n. mv_hash env (rn_address n))
        (filter (\<lambda>n. map_of all_nodes (addr_port_of (rn_address n)) = None) (get_nodes (me_nodes st)))
      in (st\<lparr>me_nodes := fold (\<lambda>h c. snd (nodes_remove h c)) missing (me_nodes st)\<rparr>,
          map (\<lambda>h. MNodeDied h MissingFromDb) missing))"

text \<open>One node found in the database.\<close>

definition update_same_generation :: "membership_env \<Rightarrow> NodeStatus \<Rightarrow> NodeDeadReason option \<Rightarrow> RemoteNodeInfo \<Rightarrow> update_step" where
  "update_same_generation env new dead_reason existing st =
     (let hash = mv_hash env (ns_address new);
          (added, removed) = compare_deployed_stack_list (rn_deployed_stacks existing) (ns_deployed_stacks new);
          ns = (if dead_reason = None \<and> rn_dead_reason existing \<noteq> None then [MNodeDiscovered (ns_address new)] else [])
             @ (if added \<noteq> [] \<or> removed \<noteq> [] then [MNodeStacksChanged hash added removed] else [])
             @ (case dead_reason of
                  Some reason \<Rightarrow> if rn_dead_reason existing = None then [MNodeDied (mv_hash env (rn_address existing)) reason] else []
                | None \<Rightarrow> [])
      in Option.bind (update_in_place (mv_hash env) hash
             (\<lambda>node. node\<lparr>rn_dead_reason := dead_reason, rn_deployed_stacks := ns_deployed_stacks new\<rparr>) (me_nodes st)) (\<lambda>(_, c).
           Some (st\<lparr>me_nodes := c\<rparr>, ns)))"

definition update_new_generation :: "membership_env \<Rightarrow> NodeStatus \<Rightarrow> NodeDeadReason option \<Rightarrow> RemoteNodeInfo \<Rightarrow> update_step" where
  "update_new_generation env new dead_reason existing st =
     (let existing_hash = mv_hash env (rn_address existing);
          died = (if rn_dead_reason existing = None then [MNodeDied existing_hash ReplacedByNewGeneration] else []);
          st' = st\<lparr>me_nodes := snd (nodes_remove existing_hash (me_nodes st))\<rparr>
      in if dead_reason = None
         then Option.bind (on_node_discovered env new st') (\<lambda>(st'', ns). Some (st'', died @ ns))
         else Some (st', died))"

definition update_node :: "membership_env \<Rightarrow> int \<Rightarrow> addr_port \<times> NodeStatus \<Rightarrow> update_step" where
  "update_node env now new st =
     (let dead_reason = get_dead_reason (me_assume_dead_after st) now (snd new) in
      Option.bind (get_by_address (fst new) (me_nodes st)) (\<lambda>found.
        case found of
          None \<Rightarrow> if dead_reason = None then on_node_discovered env (snd new) st else Some (st, [])
        | Some existing \<Rightarrow>
            if na_generation (rn_address existing) = na_generation (ns_address (snd new))
            then update_same_generation env (snd new) dead_reason existing st
            else if na_generation (rn_address existing) < na_generation (ns_address (snd new))
            then update_new_generation env (snd new) dead_reason existing st
            else Some (st, [])))"

fun update_nodes :: "membership_env \<Rightarrow> int \<Rightarrow> (addr_port \<times> NodeStatus) list \<Rightarrow> update_step" where
  "update_nodes env now [] st = Some (st, [])"
| "update_nodes env now (new # rest) st =
     Option.bind (update_node env now new st) (\<lambda>(st', ns).
     Option.bind (update_nodes env now rest st') (\<lambda>(st'', ns'). Some (st'', ns @ ns')))"

text \<open>The part of \<open>perform_update\<close> after the statuses were read.\<close>

definition apply_statuses :: "membership_env \<Rightarrow> int \<Rightarrow> (addr_port, NodeStatus) hash_map \<Rightarrow> update_step" where
  "apply_statuses env now read st =
     (let all_nodes = filter (\<lambda>(_, v). ns_region_id v = me_region_id st \<and> ns_address v \<noteq> me_my_address st) read;
          (st', ns) = drop_missing env all_nodes st
      in Option.bind (update_nodes env now all_nodes st') (\<lambda>(st'', ns'). Some (st'', ns @ ns')))"

definition my_status :: "NodeState \<Rightarrow> int \<Rightarrow> membership_state \<Rightarrow> NodeStatus" where
  "my_status state now st =
     \<lparr>ns_version = me_my_version st, ns_address = me_my_address st, ns_region_id = me_region_id st, ns_last_update = now,
      ns_state = state, ns_deployed_stacks = (case state of Alive \<Rightarrow> me_deployed_stacks st | Dead \<Rightarrow> [])\<rparr>"

definition perform_update ::
  "membership_env \<Rightarrow> 'w tikv \<Rightarrow> int \<Rightarrow> membership_state \<Rightarrow> ('w, membership_state \<times> MembershipNotification list) memop" where
  "perform_update env kv now st =
     mem_bind (write_status env kv (my_status Alive now st)) (\<lambda>_.
     mem_bind (read_status_all env kv) (\<lambda>read. mem_pure (map_option Inr (apply_statuses env now read st))))"

definition mark_me_dead :: "membership_env \<Rightarrow> 'w tikv \<Rightarrow> int \<Rightarrow> membership_state \<Rightarrow> ('w, unit) memop" where
  "mark_me_dead env kv now st = write_status env kv (my_status Dead now st)"

section \<open>The mailbox\<close>

text \<open>The time that an update or the stop reads from the clock is part of the message.\<close>

datatype membership_message =
    StackDeployedLocally StackID
  | StackUndeployedLocally StackID
  | GetNodes
  | GetNode NodeHash
  | Update int
  | Stop int

datatype membership_out =
    MNotify MembershipNotification
  | MNodes "(NodeAddress \<times> StackID list) list"
  | MNode "NodeAddress option"

definition get_if_alive :: "RemoteNodeInfo \<Rightarrow> RemoteNodeInfo option" where
  "get_if_alive n = (if rn_dead_reason n = None then Some n else None)"

definition alive_nodes :: "NodeCollection \<Rightarrow> (NodeAddress \<times> StackID list) list" where
  "alive_nodes c = List.map_filter (\<lambda>n. map_option (\<lambda>n. (rn_address n, rn_deployed_stacks n)) (get_if_alive n)) (get_nodes c)"

fun membership_step ::
  "membership_env \<Rightarrow> 'w tikv \<Rightarrow> membership_message \<Rightarrow> membership_state \<times> 'w \<Rightarrow>
     ((membership_state \<times> 'w) \<times> membership_out list) option" where
  "membership_step env kv GetNodes (st, w) = Some ((st, w), [MNodes (alive_nodes (me_nodes st))])"
| "membership_step env kv (GetNode h) (st, w) =
     Some ((st, w), [MNode (Option.bind (get_node h (me_nodes st)) (\<lambda>n. map_option rn_address (get_if_alive n)))])"
| "membership_step env kv (StackDeployedLocally i) (st, w) =
     Some ((st\<lparr>me_deployed_stacks := List.insert i (me_deployed_stacks st)\<rparr>, w), [])"
| "membership_step env kv (StackUndeployedLocally i) (st, w) =
     Some ((st\<lparr>me_deployed_stacks := removeAll i (me_deployed_stacks st)\<rparr>, w), [])"
| "membership_step env kv (Update now) (st, w) =
     Option.bind (perform_update env kv now st w) (\<lambda>(r, w').
       case r of Inl _ \<Rightarrow> Some ((st, w'), []) | Inr (st', ns) \<Rightarrow> Some ((st', w'), map MNotify ns))"
| "membership_step env kv (Stop now) (st, w) =
     Option.bind (mark_me_dead env kv now st w) (\<lambda>(_, w'). Some ((st, w'), []))"

section \<open>Start\<close>

definition start_node :: "int \<Rightarrow> int \<Rightarrow> bytes \<Rightarrow> NodeAddress \<Rightarrow> NodeStatus \<Rightarrow> RemoteNodeInfo option" where
  "start_node assume_dead_after now region_id my_address v =
     (if ns_region_id v \<noteq> region_id then None
      else if addr_port_of (ns_address v) = addr_port_of my_address then None
      else Some \<lparr>rn_version = ns_version v, rn_address = ns_address v,
        rn_dead_reason = get_dead_reason assume_dead_after now v, rn_deployed_stacks = ns_deployed_stacks v\<rparr>)"

definition membership_start ::
  "membership_env \<Rightarrow> 'w tikv \<Rightarrow> u32 \<Rightarrow> NodeAddress \<Rightarrow> int \<Rightarrow> bytes \<Rightarrow> int \<Rightarrow>
     ('w, membership_state \<times> (NodeAddress \<times> StackID list) list) memop" where
  "membership_start env kv my_version my_address assume_dead_after region_id now =
     mem_bind (read_status_all env kv) (\<lambda>read.
       let all_nodes = List.map_filter (\<lambda>(_, v). start_node assume_dead_after now region_id my_address v) read;
           live_nodes = List.map_filter (\<lambda>n. map_option (\<lambda>n. (rn_address n, rn_deployed_stacks n)) (get_if_alive n)) all_nodes
       in mem_pure (Option.bind (nodes_new (mv_hash env) all_nodes) (\<lambda>c.
            Some (Inr (\<lparr>me_nodes = c, me_assume_dead_after = assume_dead_after, me_my_version = my_version,
              me_my_address = my_address, me_deployed_stacks = [], me_region_id = region_id\<rparr>, live_nodes)))))"

end
