(* ===== verification/Membership_Props.thy ===== *)
theory Membership_Props
  imports Membership Db_Client_Props
begin

text \<open>
  The node collection stays consistent through every update, the notifications of membership
  describe exactly how the set of live nodes changes, a node never overwrites the status of a
  newer generation of itself, and statuses round trip through protocol buffers.
\<close>

section \<open>The node collection\<close>

text \<open>A table \<open>N\<close> of entries by key and an index \<open>A\<close> of the keys by another attribute.\<close>

definition index_ok :: "('n \<Rightarrow> 'k) \<Rightarrow> ('n \<Rightarrow> 'a) \<Rightarrow> ('k \<rightharpoonup> 'n) \<Rightarrow> ('a \<rightharpoonup> 'k) \<Rightarrow> bool" where
  "index_ok key attr N A \<longleftrightarrow>
     (\<forall>k n. N k = Some n \<longrightarrow> key n = k \<and> A (attr n) = Some k) \<and> (\<forall>a k. A a = Some k \<longrightarrow> (\<exists>n. N k = Some n \<and> attr n = a))"

lemma index_entry: "index_ok key attr N A \<Longrightarrow> N k = Some n \<Longrightarrow> key n = k \<and> A (attr n) = Some k"
  unfolding index_ok_def by blast

lemma index_found: "index_ok key attr N A \<Longrightarrow> A a = Some k \<Longrightarrow> \<exists>n. N k = Some n \<and> attr n = a \<and> key n = k"
  unfolding index_ok_def by blast

lemma index_entry_insert:
  assumes "index_ok key attr N A" and "A (attr n) = None" and "N (key n) = None"
  shows "index_ok key attr (N(key n \<mapsto> n)) (A(attr n \<mapsto> key n))"
  using assms unfolding index_ok_def by (auto split: if_splits) (metis option.distinct(1))+

lemma index_delete:
  assumes "index_ok key attr N A" and "N k = Some n"
  shows "index_ok key attr (N(k := None)) (A(attr n := None))"
  using assms unfolding index_ok_def by (auto split: if_splits) (metis option.inject)+

lemma index_update:
  assumes "index_ok key attr N A" and "N k = Some n" and "key n' = key n" and "attr n' = attr n"
  shows "index_ok key attr (N(k \<mapsto> n')) A"
  using assms unfolding index_ok_def by (simp add: fun_upd_def) (metis option.inject)

definition nodes_inv :: "(NodeAddress \<Rightarrow> NodeHash) \<Rightarrow> NodeCollection \<Rightarrow> bool" where
  "nodes_inv hash c \<longleftrightarrow>
     index_ok (\<lambda>n. hash (rn_address n)) (\<lambda>n. addr_port_of (rn_address n)) (map_of (nc_nodes c)) (map_of (nc_by_addr c))
   \<and> distinct (map fst (nc_nodes c))"

definition live_in :: "(NodeHash \<rightharpoonup> RemoteNodeInfo) \<Rightarrow> NodeHash set" where
  "live_in N = {h. \<exists>n. N h = Some n \<and> rn_dead_reason n = None}"

abbreviation live :: "NodeCollection \<Rightarrow> NodeHash set" where
  "live c \<equiv> live_in (map_of (nc_nodes c))"

lemma live_update: "live_in (N(h \<mapsto> n)) = (if rn_dead_reason n = None then insert h (live_in N) else live_in N - {h})"
  by (auto simp: live_in_def)

lemma live_delete: "live_in (N(h := None)) = live_in N - {h}"
  by (auto simp: live_in_def)

lemma live_absent: "N h = None \<Longrightarrow> live_in N - {h} = live_in N"
  by (auto simp: live_in_def)

lemma nodes_inv_node:
  "nodes_inv hash c \<Longrightarrow> map_of (nc_nodes c) h = Some n \<Longrightarrow>
     hash (rn_address n) = h \<and> map_of (nc_by_addr c) (addr_port_of (rn_address n)) = Some h"
  unfolding nodes_inv_def by (elim conjE) (drule (1) index_entry, simp)

lemma get_by_address_inv:
  assumes "nodes_inv hash c"
  shows "\<exists>found. get_by_address a c = Some found
    \<and> (\<forall>n. found = Some n \<longrightarrow> addr_port_of (rn_address n) = a \<and> map_of (nc_nodes c) (hash (rn_address n)) = Some n)
    \<and> (found = None \<longrightarrow> map_of (nc_by_addr c) a = None)"
proof (cases "map_of (nc_by_addr c) a")
  case (Some h)
  with assms obtain n where "map_of (nc_nodes c) h = Some n" "addr_port_of (rn_address n) = a" "hash (rn_address n) = h"
    unfolding nodes_inv_def by (elim conjE) (drule (1) index_found, auto)
  with Some show ?thesis by (simp add: get_by_address_def)
qed (simp add: get_by_address_def)

lemma nodes_insert_inv:
  assumes inj: "inj hash" and c: "nodes_inv hash c" and a: "map_of (nc_by_addr c) (addr_port_of (rn_address n)) = None"
  shows "\<exists>c'. nodes_insert hash n c = (True, c') \<and> nodes_inv hash c'
    \<and> live c' = (if rn_dead_reason n = None then insert (hash (rn_address n)) (live c) else live c)"
proof -
  have fresh: "map_of (nc_nodes c) (hash (rn_address n)) = None"
  proof (rule ccontr)
    assume "map_of (nc_nodes c) (hash (rn_address n)) \<noteq> None"
    then obtain m where m: "map_of (nc_nodes c) (hash (rn_address n)) = Some m" by auto
    from nodes_inv_node [OF c m] inj have "rn_address m = rn_address n" by (simp add: inj_eq)
    with nodes_inv_node [OF c m] a show False by simp
  qed
  show ?thesis
    using a c index_entry_insert [OF conjunct1 [OF c [unfolded nodes_inv_def]], of n] fresh
    by (auto simp: nodes_insert_def Let_def nodes_inv_def update_conv' distinct_update live_update live_absent)
qed

lemma nodes_remove_inv:
  assumes c: "nodes_inv hash c"
  shows "nodes_inv hash (snd (nodes_remove h c)) \<and> live (snd (nodes_remove h c)) = live c - {h}
    \<and> map_of (nc_nodes (snd (nodes_remove h c))) = (map_of (nc_nodes c))(h := None)"
proof (cases "map_of (nc_nodes c) h")
  case None
  then have "(map_of (nc_nodes c))(h := None) = map_of (nc_nodes c)" by (rule fun_upd_idem)
  with None c show ?thesis by (simp add: nodes_remove_def live_absent)
next
  case (Some n)
  with c index_delete [OF conjunct1 [OF c [unfolded nodes_inv_def]] Some] show ?thesis
    by (simp add: nodes_remove_def nodes_inv_def delete_conv' distinct_delete live_delete)
qed

lemma nodes_remove_frees:
  "map_of (nc_nodes c) h = Some n \<Longrightarrow> map_of (nc_by_addr (snd (nodes_remove h c))) (addr_port_of (rn_address n)) = None"
  by (simp add: nodes_remove_def delete_conv')

lemma update_in_place_inv:
  assumes c: "nodes_inv hash c" and n: "map_of (nc_nodes c) h = Some n" and f: "rn_address (f n) = rn_address n"
  shows "\<exists>c'. update_in_place hash h f c = Some (True, c') \<and> nodes_inv hash c'
    \<and> live c' = (if rn_dead_reason (f n) = None then insert h (live c) else live c - {h})"
  using n f c nodes_inv_node [OF c n] index_update [OF conjunct1 [OF c [unfolded nodes_inv_def]] n, of "f n"]
  by (simp add: update_in_place_def nodes_inv_def update_conv' distinct_update live_update)


section \<open>Updates\<close>

lemma address_eq: "addr_port_of a = addr_port_of b \<Longrightarrow> na_generation a = na_generation b \<Longrightarrow> a = b"
  by (cases a; cases b) (simp add: addr_port_of_def)

text \<open>What a listener makes of the notifications: the set of nodes it believes to be alive.\<close>

fun observe :: "(NodeAddress \<Rightarrow> NodeHash) \<Rightarrow> MembershipNotification \<Rightarrow> NodeHash set \<Rightarrow> NodeHash set" where
  "observe hash (MNodeDiscovered a) S = insert (hash a) S"
| "observe hash (MNodeDied h _) S = S - {h}"
| "observe hash (MNodeStacksChanged _ _ _) S = S"

text \<open>A step that never panics, keeps the collection consistent and reports exactly what it changed.\<close>

definition faithful :: "membership_env \<Rightarrow> update_step \<Rightarrow> membership_state \<Rightarrow> bool" where
  "faithful env f st \<longleftrightarrow>
     (\<exists>c ns. f st = Some (st\<lparr>me_nodes := c\<rparr>, ns) \<and> nodes_inv (mv_hash env) c
        \<and> live c = fold (observe (mv_hash env)) ns (live (me_nodes st)))"

lemma faithfulI:
  assumes "f st = Some (st\<lparr>me_nodes := c\<rparr>, ns)" and "nodes_inv (mv_hash env) c"
    and "live c = fold (observe (mv_hash env)) ns (live (me_nodes st))"
  shows "faithful env f st"
  unfolding faithful_def using assms by blast

lemma on_node_discovered_faithful:
  assumes "inj (mv_hash env)" and "nodes_inv (mv_hash env) (me_nodes st)"
    and "map_of (nc_by_addr (me_nodes st)) (addr_port_of (ns_address node)) = None"
  shows "faithful env (on_node_discovered env node) st"
proof -
  let ?n = "\<lparr>rn_version = ns_version node, rn_address = ns_address node, rn_dead_reason = None, rn_deployed_stacks = ns_deployed_stacks node\<rparr>"
  obtain c' where "nodes_insert (mv_hash env) ?n (me_nodes st) = (True, c')" "nodes_inv (mv_hash env) c'"
    "live c' = insert (mv_hash env (ns_address node)) (live (me_nodes st))"
    using nodes_insert_inv [OF assms(1,2), of ?n] assms(3) by auto
  then show ?thesis by (intro faithfulI [where ns = "[MNodeDiscovered (ns_address node)]"]) (simp_all add: on_node_discovered_def)
qed

lemma update_same_generation_faithful:
  assumes c: "nodes_inv (mv_hash env) (me_nodes st)" and n: "map_of (nc_nodes (me_nodes st)) (mv_hash env (rn_address n)) = Some n"
    and same: "rn_address n = ns_address new"
  shows "faithful env (update_same_generation env new dead_reason n) st"
proof -
  let ?f = "\<lambda>node. node\<lparr>rn_dead_reason := dead_reason, rn_deployed_stacks := ns_deployed_stacks new\<rparr>"
  let ?h = "mv_hash env (ns_address new)"
  obtain c' where c': "update_in_place (mv_hash env) ?h ?f (me_nodes st) = Some (True, c')" "nodes_inv (mv_hash env) c'"
    "live c' = (if dead_reason = None then insert ?h (live (me_nodes st)) else live (me_nodes st) - {?h})"
    using update_in_place_inv [OF c n, of ?f] same by auto
  have alive: "?h \<in> live (me_nodes st) \<longleftrightarrow> rn_dead_reason n = None"
    using n same by (simp add: live_in_def)
  obtain added removed where ar: "compare_deployed_stack_list (rn_deployed_stacks n) (ns_deployed_stacks new) = (added, removed)"
    by fastforce
  show ?thesis
    using c' alive same ar unfolding faithful_def
    by (auto simp: update_same_generation_def Let_def insert_absorb split: option.splits if_splits)
qed

lemma update_new_generation_faithful:
  assumes inj: "inj (mv_hash env)" and c: "nodes_inv (mv_hash env) (me_nodes st)"
    and n: "map_of (nc_nodes (me_nodes st)) (mv_hash env (rn_address n)) = Some n"
    and same: "addr_port_of (rn_address n) = addr_port_of (ns_address new)"
  shows "faithful env (update_new_generation env new dead_reason n) st"
proof -
  let ?h = "mv_hash env (rn_address n)"
  let ?st = "st\<lparr>me_nodes := snd (nodes_remove ?h (me_nodes st))\<rparr>"
  have rm: "nodes_inv (mv_hash env) (me_nodes ?st)" "live (me_nodes ?st) = live (me_nodes st) - {?h}"
    using nodes_remove_inv [OF c, of ?h] by (simp_all add: live_delete)
  have alive: "?h \<in> live (me_nodes st) \<longleftrightarrow> rn_dead_reason n = None" using n by (simp add: live_in_def)
  show ?thesis
  proof (cases "dead_reason = None")
    case True
    have "map_of (nc_by_addr (me_nodes ?st)) (addr_port_of (ns_address new)) = None"
      using nodes_remove_frees [OF n] same by simp
    from on_node_discovered_faithful [OF inj rm(1) this] obtain c' ns where
      c': "on_node_discovered env new ?st = Some (st\<lparr>me_nodes := c'\<rparr>, ns)" "nodes_inv (mv_hash env) c'"
      and "live c' = fold (observe (mv_hash env)) ns (live (me_nodes ?st))" by (auto simp: faithful_def)
    then have "live c' = fold (observe (mv_hash env)) ns (live (me_nodes st) - {?h})" by (simp only: rm(2))
    with c' True alive show ?thesis
      by (intro faithfulI [where c = c' and ns = "(if rn_dead_reason n = None then [MNodeDied ?h ReplacedByNewGeneration] else []) @ ns"])
        (auto simp: update_new_generation_def Let_def)
  next
    case False
    with rm alive show ?thesis by (auto simp: faithful_def update_new_generation_def Let_def)
  qed
qed

lemma update_node_faithful:
  assumes inj: "inj (mv_hash env)" and c: "nodes_inv (mv_hash env) (me_nodes st)"
    and new: "addr_port_of (ns_address (snd new)) = fst new"
  shows "faithful env (update_node env now new) st"
proof -
  obtain found where f: "get_by_address (fst new) (me_nodes st) = Some found"
    and some: "\<And>n. found = Some n \<Longrightarrow> addr_port_of (rn_address n) = fst new
        \<and> map_of (nc_nodes (me_nodes st)) (mv_hash env (rn_address n)) = Some n"
    and none: "found = None \<Longrightarrow> map_of (nc_by_addr (me_nodes st)) (fst new) = None"
    using get_by_address_inv [OF c, of "fst new"] by blast
  let ?d = "get_dead_reason (me_assume_dead_after st) now (snd new)"
  show ?thesis
  proof (cases found)
    case None
    have "faithful env (\<lambda>st. Some (st, [])) st" using c by (auto simp: faithful_def intro: exI [of _ "me_nodes st"])
    with None f on_node_discovered_faithful [OF inj c] none new show ?thesis
      by (auto simp: update_node_def faithful_def Let_def)
  next
    case (Some n)
    have "faithful env (\<lambda>st. Some (st, [])) st" using c by (auto simp: faithful_def intro: exI [of _ "me_nodes st"])
    moreover have "na_generation (rn_address n) = na_generation (ns_address (snd new)) \<Longrightarrow> rn_address n = ns_address (snd new)"
      using some [OF Some] new address_eq by metis
    ultimately show ?thesis
      using f Some some [OF Some] new update_same_generation_faithful [OF c, of n "snd new" ?d]
        update_new_generation_faithful [OF inj c, of n "snd new" ?d]
      by (auto simp: update_node_def faithful_def Let_def)
  qed
qed


lemma update_nodes_faithful:
  assumes "inj (mv_hash env)" and "nodes_inv (mv_hash env) (me_nodes st)"
    and "\<forall>new \<in> set news. addr_port_of (ns_address (snd new)) = fst new"
  shows "faithful env (update_nodes env now news) st"
  using assms(2,3)
proof (induction news arbitrary: st)
  case Nil
  then show ?case by (intro faithfulI [where c = "me_nodes st" and ns = "[]"]) simp_all
next
  case (Cons new news)
  obtain c ns where one: "update_node env now new st = Some (st\<lparr>me_nodes := c\<rparr>, ns)" "nodes_inv (mv_hash env) c"
    "live c = fold (observe (mv_hash env)) ns (live (me_nodes st))"
    using update_node_faithful [OF assms(1) Cons.prems(1), of new now] Cons.prems(2) by (auto simp: faithful_def)
  obtain c' ns' where rest: "update_nodes env now news (st\<lparr>me_nodes := c\<rparr>) = Some (st\<lparr>me_nodes := c'\<rparr>, ns')"
    "nodes_inv (mv_hash env) c'" "live c' = fold (observe (mv_hash env)) ns' (live c)"
    using Cons.IH [of "st\<lparr>me_nodes := c\<rparr>"] one(2) Cons.prems(2) by (auto simp: faithful_def)
  show ?case
    by (rule faithfulI [where c = c' and ns = "ns @ ns'"]) (use one rest in simp_all)
qed

lemma drop_missing_faithful:
  assumes "nodes_inv (mv_hash env) (me_nodes st)"
  shows "faithful env (\<lambda>st. Some (drop_missing env all_nodes st)) st"
proof -
  have "nodes_inv (mv_hash env) (fold (\<lambda>h c. snd (nodes_remove h c)) hs c)
      \<and> live (fold (\<lambda>h c. snd (nodes_remove h c)) hs c)
        = fold (observe (mv_hash env)) (map (\<lambda>h. MNodeDied h MissingFromDb) hs) (live c)"
    if "nodes_inv (mv_hash env) c" for hs c
    using that
  proof (induction hs arbitrary: c)
    case (Cons h hs)
    from nodes_remove_inv [OF Cons.prems, of h]
    have "nodes_inv (mv_hash env) (snd (nodes_remove h c))" "live (snd (nodes_remove h c)) = live c - {h}" by (blast, blast)
    with Cons.IH [of "snd (nodes_remove h c)"] show ?case by simp
  qed simp
  with assms show ?thesis unfolding drop_missing_def Let_def by (intro faithfulI) (rule refl, blast+)
qed

lemma apply_statuses_faithful:
  assumes inj: "inj (mv_hash env)" and c: "nodes_inv (mv_hash env) (me_nodes st)"
    and read: "\<forall>new \<in> set read. addr_port_of (ns_address (snd new)) = fst new"
  shows "faithful env (apply_statuses env now read) st"
proof -
  let ?all = "filter (\<lambda>(_, v). ns_region_id v = me_region_id st \<and> ns_address v \<noteq> me_my_address st) read"
  obtain c1 ns1 where d: "drop_missing env ?all st = (st\<lparr>me_nodes := c1\<rparr>, ns1)" "nodes_inv (mv_hash env) c1"
    "live c1 = fold (observe (mv_hash env)) ns1 (live (me_nodes st))"
    using drop_missing_faithful [OF c] unfolding faithful_def by blast
  obtain c2 ns2 where u: "update_nodes env now ?all (st\<lparr>me_nodes := c1\<rparr>) = Some (st\<lparr>me_nodes := c2\<rparr>, ns2)"
    "nodes_inv (mv_hash env) c2" "live c2 = fold (observe (mv_hash env)) ns2 (live c1)"
    using update_nodes_faithful [OF inj, of "st\<lparr>me_nodes := c1\<rparr>" ?all now] d(2) read by (auto simp: faithful_def)
  show ?thesis
    by (rule faithfulI [where c = c2 and ns = "ns1 @ ns2"]) (use d u in \<open>simp_all add: apply_statuses_def Let_def\<close>)
qed

text \<open>Entries read from the database carry the address they are filed under.\<close>

lemma panic_bind_Inr: "panic_bind m f = Some (Inr y) \<longleftrightarrow> (\<exists>x. m = Some (Inr x) \<and> f x = Some (Inr y))"
  by (cases m) (auto simp: panic_bind_def split: sum.splits)

lemma read_entries_addr: "read_entries env kvs = Some (Inr xs) \<Longrightarrow> x \<in> set xs \<Longrightarrow> addr_port_of (ns_address (snd x)) = fst x"
  by (induction kvs arbitrary: xs) (auto simp: panic_bind_Inr read_entry_def split: if_splits)

lemma mem_bind_Inr: "mem_bind m f w = Some (Inr y, w'') \<longleftrightarrow> (\<exists>x w'. m w = Some (Inr x, w') \<and> f x w' = Some (Inr y, w''))"
  by (cases "m w") (auto simp: mem_bind_def split: sum.splits)

lemma read_status_all_addr:
  assumes "read_status_all env kv w = Some (Inr read, w')"
  shows "\<forall>new \<in> set read. addr_port_of (ns_address (snd new)) = fst new"
  using assms hm_from_pairs_subset
  by (fastforce simp: read_status_all_def mem_bind_Inr mem_pure_def dest!: read_entries_addr)


section \<open>Start\<close>

lemma index_of_list:
  assumes "distinct (map key ns)" and "distinct (map attr ns)"
  shows "index_ok key attr (map_of (map (\<lambda>n. (key n, n)) ns)) (map_of (map (\<lambda>n. (attr n, key n)) ns))"
proof -
  have "map_of (map (\<lambda>n. (key n, n)) ns) k = Some n \<longleftrightarrow> n \<in> set ns \<and> key n = k" for k n
    using assms(1) by (auto simp: map_of_eq_Some_iff comp_def)
  moreover have "map_of (map (\<lambda>n. (attr n, key n)) ns) a = Some k \<longleftrightarrow> (\<exists>n \<in> set ns. attr n = a \<and> key n = k)" for a k
    using assms(2) by (auto simp: map_of_eq_Some_iff comp_def image_iff)
  moreover have "n = m" if "n \<in> set ns" "m \<in> set ns" "key n = key m" for n m
    using assms(1) that by (auto simp: distinct_map inj_on_def)
  ultimately show ?thesis by (auto simp: index_ok_def)
qed

lemma nodes_new_inv:
  assumes inj: "inj hash" and d: "distinct (map (\<lambda>n. addr_port_of (rn_address n)) ns)"
  shows "\<exists>c. nodes_new hash ns = Some c \<and> nodes_inv hash c \<and> live c = (\<lambda>n. hash (rn_address n)) ` {n \<in> set ns. rn_dead_reason n = None}"
proof -
  from d have "inj_on (\<lambda>n. addr_port_of (rn_address n)) (set ns)" "distinct ns" by (simp_all only: distinct_map)
  moreover from this(1) have "inj_on (\<lambda>n. hash (rn_address n)) (set ns)"
    by (auto simp: inj_on_def dest: injD [OF inj])
  ultimately have h: "distinct (map (\<lambda>n. hash (rn_address n)) ns)" by (simp add: distinct_map)
  let ?N = "map (\<lambda>n. (hash (rn_address n), n)) ns" and ?A = "map (\<lambda>n. (addr_port_of (rn_address n), hash (rn_address n))) ns"
  have "hm_from_pairs ?N = ?N" "hm_from_pairs ?A = ?A"
    using h d by (auto intro!: hm_from_pairs_id simp: comp_def)
  moreover have "live_in (map_of ?N) = (\<lambda>n. hash (rn_address n)) ` {n \<in> set ns. rn_dead_reason n = None}"
    using h by (auto simp: live_in_def map_of_eq_Some_iff comp_def)
  ultimately show ?thesis
    using index_of_list [OF h d] h by (simp add: nodes_new_def Let_def nodes_inv_def comp_def)
qed

lemma map_filter_distinct:
  assumes "distinct (map f xs)" and "\<And>x y. x \<in> set xs \<Longrightarrow> p x = Some y \<Longrightarrow> g y = f x"
  shows "distinct (map g (List.map_filter p xs))"
  using assms
proof (induction xs)
  case (Cons x xs)
  then have IH: "distinct (map g (List.map_filter p xs))" by simp
  have "g ` set (List.map_filter p xs) \<subseteq> f ` set xs"
    using Cons.prems(2) by (fastforce simp: map_filter_def)
  moreover have "g y = f x" if "p x = Some y" for y using Cons.prems(2) [of x y] that by simp
  ultimately show ?case using IH Cons.prems(1) by (cases "p x") (auto simp: map_filter_simps)
qed (simp add: map_filter_simps)

lemma alive_filter_set:
  "set (List.map_filter (\<lambda>n. map_option f (get_if_alive n)) ns) = f ` {n \<in> set ns. rn_dead_reason n = None}"
  by (auto simp: map_filter_def get_if_alive_def image_iff)

lemma membership_start_faithful:
  assumes inj: "inj (mv_hash env)"
    and start: "membership_start env kv version me dead_after region now w = Some (Inr (st, live_nodes), w')"
  shows "nodes_inv (mv_hash env) (me_nodes st) \<and> live (me_nodes st) = mv_hash env ` fst ` set live_nodes"
proof -
  from start obtain read w1 where read: "read_status_all env kv w = Some (Inr read, w1)"
    and rest: "mem_pure (Option.bind (nodes_new (mv_hash env) (List.map_filter (\<lambda>(_, v). start_node dead_after now region me v) read))
         (\<lambda>c. Some (Inr (\<lparr>me_nodes = c, me_assume_dead_after = dead_after, me_my_version = version,
              me_my_address = me, me_deployed_stacks = [], me_region_id = region\<rparr>,
              List.map_filter (\<lambda>n. map_option (\<lambda>n. (rn_address n, rn_deployed_stacks n)) (get_if_alive n))
                (List.map_filter (\<lambda>(_, v). start_node dead_after now region me v) read))))) w1 = Some (Inr (st, live_nodes), w')"
    by (auto simp: membership_start_def mem_bind_Inr Let_def)
  let ?all = "List.map_filter (\<lambda>(_, v). start_node dead_after now region me v) read"
  have "distinct (map fst read)"
    using read by (auto simp: read_status_all_def mem_bind_Inr mem_pure_def)
  then have "distinct (map (\<lambda>n. addr_port_of (rn_address n)) ?all)"
    by (rule map_filter_distinct) (use read_status_all_addr [OF read] in \<open>force simp: start_node_def split: if_splits\<close>)
  from nodes_new_inv [OF inj this] obtain c where "nodes_new (mv_hash env) ?all = Some c" "nodes_inv (mv_hash env) c"
    and l: "live c = (\<lambda>n. mv_hash env (rn_address n)) ` {n \<in> set ?all. rn_dead_reason n = None}" by blast
  with rest have "me_nodes st = c" "nodes_inv (mv_hash env) (me_nodes st)"
    and "set live_nodes = (\<lambda>n. (rn_address n, rn_deployed_stacks n)) ` {n \<in> set ?all. rn_dead_reason n = None}"
    by (auto simp: mem_pure_def alive_filter_set)
  with l show ?thesis by (simp add: image_image)
qed


section \<open>Runs\<close>

fun membership_run ::
  "membership_env \<Rightarrow> 'w tikv \<Rightarrow> membership_message list \<Rightarrow> membership_state \<times> 'w \<Rightarrow>
     ((membership_state \<times> 'w) \<times> membership_out list) option" where
  "membership_run env kv [] s = Some (s, [])"
| "membership_run env kv (m # ms) s =
     Option.bind (membership_step env kv m s) (\<lambda>(s', out).
     Option.bind (membership_run env kv ms s') (\<lambda>(s'', out'). Some (s'', out @ out')))"

definition notified :: "membership_out list \<Rightarrow> MembershipNotification list" where
  "notified out = List.map_filter (\<lambda>x. case x of MNotify n \<Rightarrow> Some n | _ \<Rightarrow> None) out"

lemma notified_simps [simp]: "notified (a @ b) = notified a @ notified b" "notified (map MNotify ns) = ns" "notified [] = []"
  "notified [MNodes xs] = []" "notified [MNode x] = []"
  by (simp_all add: notified_def map_filter_def comp_def)

lemma perform_update_faithful:
  assumes "inj (mv_hash env)" and "nodes_inv (mv_hash env) (me_nodes st)"
    and "perform_update env kv now st w = Some (Inr (st', ns), w')"
  shows "nodes_inv (mv_hash env) (me_nodes st') \<and> live (me_nodes st') = fold (observe (mv_hash env)) ns (live (me_nodes st))"
proof -
  from assms(3) obtain read w1 w2 where read: "read_status_all env kv w1 = Some (Inr read, w2)"
    and run: "apply_statuses env now read st = Some (st', ns)"
    by (auto simp: perform_update_def mem_bind_Inr mem_pure_def)
  have "faithful env (apply_statuses env now read) st"
    by (rule apply_statuses_faithful [OF assms(1,2) read_status_all_addr [OF read]])
  with run show ?thesis by (force simp: faithful_def)
qed

lemma membership_step_faithful:
  assumes "inj (mv_hash env)" and "nodes_inv (mv_hash env) (me_nodes st)"
    and "membership_step env kv m (st, w) = Some ((st', w'), out)"
  shows "nodes_inv (mv_hash env) (me_nodes st')
    \<and> live (me_nodes st') = fold (observe (mv_hash env)) (notified out) (live (me_nodes st))"
proof (cases m)
  case (Update now)
  with assms(3) obtain r w1 where r: "perform_update env kv now st w = Some (r, w1)"
    by (auto simp: bind_eq_Some_conv)
  with Update assms(3) have "(\<exists>e. r = Inl e \<and> st' = st \<and> out = []) \<or> (\<exists>ns. r = Inr (st', ns) \<and> out = map MNotify ns)"
    by (cases r) auto
  then show ?thesis
  proof
    assume "\<exists>e. r = Inl e \<and> st' = st \<and> out = []"
    with assms(2) show ?thesis by auto
  next
    assume "\<exists>ns. r = Inr (st', ns) \<and> out = map MNotify ns"
    with r perform_update_faithful [OF assms(1,2), of kv now w st' _ w1] show ?thesis by auto
  qed
qed (use assms in \<open>auto simp: bind_eq_Some_conv\<close>)

lemma membership_run_faithful:
  assumes inj: "inj (mv_hash env)" and "nodes_inv (mv_hash env) (me_nodes (fst s))"
    and "membership_run env kv ms s = Some (s', out)"
  shows "nodes_inv (mv_hash env) (me_nodes (fst s'))
    \<and> live (me_nodes (fst s')) = fold (observe (mv_hash env)) (notified out) (live (me_nodes (fst s)))"
  using assms(2,3)
proof (induction ms arbitrary: s out)
  case (Cons m ms)
  obtain s1 o1 o2 where "membership_step env kv m s = Some (s1, o1)" "membership_run env kv ms s1 = Some (s', o2)" "out = o1 @ o2"
    using Cons.prems(2) by (auto simp: bind_eq_Some_conv)
  with Cons.IH [of s1 o2] Cons.prems(1) membership_step_faithful [OF inj, of "fst s" kv m "snd s" "fst s1" "snd s1" o1]
  show ?case by simp
qed simp

section \<open>Writing the own status\<close>

lemma db_raw_call [simp]:
  "read_status_raw kv key w = Some (map_err (MembershipDb \<circ> TikvErr) (fst (tk_get kv key w)), snd (tk_get kv key w))"
  "mem_db (db_compare_and_swap_raw kv key p v) w =
     Some (map_err (MembershipDb \<circ> TikvErr) (fst (tk_compare_and_swap kv key p v w)), snd (tk_compare_and_swap kv key p v w))"
  by (cases "tk_get kv key w"; cases "fst (tk_get kv key w)";
      simp add: read_status_raw_def mem_db_def db_get_raw_def db_call_def)
    (cases "tk_compare_and_swap kv key p v w"; cases "fst (tk_compare_and_swap kv key p v w)";
      simp add: mem_db_def db_compare_and_swap_raw_def db_call_def)

lemma write_loop_result:
  assumes c: "tikv_contract kv view" and parses: "\<And>e. view w key = Some e \<Longrightarrow> deserialize_status env address e \<noteq> None"
  shows "\<exists>r w'. write_loop env kv address key g bytes w = Some (r, w')
    \<and> (\<forall>b. b \<noteq> key \<longrightarrow> view w' b = view w b)
    \<and> (r = Inr () \<longrightarrow> view w' key = Some bytes
        \<and> (\<forall>e x. view w key = Some e \<and> deserialize_status env address e = Some (Inr x) \<longrightarrow> na_generation (ns_address x) \<le> g))
    \<and> ((\<exists>e x. view w key = Some e \<and> deserialize_status env address e = Some (Inr x) \<and> g < na_generation (ns_address x)) \<longrightarrow>
        view w' = view w)"
proof -
  obtain q w1 where q: "tk_get kv key w = (q, w1)" by fastforce
  note get = contract_get [OF c q]
  show ?thesis
  proof (cases q)
    case (Inl e)
    with q get show ?thesis by (subst write_loop.simps) simp
  next
    case (Inr v)
    with get have v: "v = view w key" and w1: "view w1 = view w" by simp_all
    have swap: ?thesis
      if step: "write_loop env kv address key g bytes w =
          Option.bind (mem_db (db_compare_and_swap_raw kv key v bytes) w1) (\<lambda>(q, w2).
            case q of Inl e \<Rightarrow> Some (Inl e, w2)
            | Inr (_, written) \<Rightarrow> if written then Some (Inr (), w2) else write_loop env kv address key g bytes w2)"
        and old: "\<And>e x. v = Some e \<Longrightarrow> deserialize_status env address e = Some (Inr x) \<Longrightarrow> na_generation (ns_address x) \<le> g"
    proof -
      obtain s w2 where s: "tk_compare_and_swap kv key v bytes w1 = (s, w2)" by fastforce
      note cas = contract_compare_and_swap [OF c s]
      show ?thesis
      proof (cases s)
        case (Inl e)
        with step s cas w1 v old show ?thesis by (auto simp: not_less [symmetric])
      next
        case (Inr p)
        with cas w1 v have "p = (v, True)" "view w2 key = Some bytes" by (cases p; auto)+
        with Inr step s cas w1 v old show ?thesis by (auto simp: not_less [symmetric])
      qed
    qed
    show ?thesis
    proof (cases v)
      case None
      show ?thesis by (rule swap) (subst write_loop.simps, use q Inr None in simp, simp add: None)
    next
      case (Some e)
      then obtain d where d: "deserialize_status env address e = Some d" using parses v by auto
      show ?thesis
      proof (cases d)
        case (Inl x)
        have "write_loop env kv address key g bytes w = Some (Inl x, w1)"
          by (subst write_loop.simps) (use q Inr Some d Inl in \<open>simp add: panic_bind_def\<close>)
        with w1 show ?thesis by simp
      next
        case d': (Inr x)
        show ?thesis
        proof (cases "g < na_generation (ns_address x)")
          case True
          have "write_loop env kv address key g bytes w = Some (Inl NewerGeneration, w1)"
            by (subst write_loop.simps) (use q Inr Some d d' True in \<open>simp add: panic_bind_def\<close>)
          with w1 show ?thesis by simp
        next
          case False
          show ?thesis
            by (rule swap) (subst write_loop.simps, use q Inr Some d d' False in \<open>simp add: panic_bind_def\<close>,
                use Some d d' False in auto)
        qed
      qed
    qed
  qed
qed


lemma membership_key_apart:
  "serialize_key env a = Inr (address, key) \<Longrightarrow> key \<noteq> key_blob k \<and> key \<noteq> table_list_blob l"
  by (cases "mv_write_address env (address_to_proto a)")
    (auto simp: serialize_key_def DB_KEY_PREFIX_def key_blob_def table_list_blob_def)


section \<open>Statuses and protocol buffers\<close>

definition ip_wf :: "IpAddr \<Rightarrow> bool" where
  "ip_wf ip = (case ip of V4 b \<Rightarrow> length b = 4 | V6 b \<Rightarrow> length b = 16)"

definition node_status_wf :: "(int \<Rightarrow> bool) \<Rightarrow> NodeStatus \<Rightarrow> bool" where
  "node_status_wf date_ok s \<longleftrightarrow> ip_wf (na_address (ns_address s)) \<and> 0 \<le> ns_last_update s \<and> duration_ok (ns_last_update s)
     \<and> date_ok (ns_last_update s) \<and> distinct (ns_deployed_stacks s) \<and> (\<forall>i \<in> set (ns_deployed_stacks s). stack_id_wf i)"

lemma address_roundtrip: "ip_wf (fst a) \<Longrightarrow> address_from_proto (address_to_proto a) = Inr a"
proof -
  have "ucast (snd a) < (65536 :: u32)" using unsigned_less [of "snd a", where 'a = nat]
    by (simp add: word_less_nat_alt unsigned_ucast_eq take_bit_nat_eq_self)
  moreover have "ucast (ucast (snd a) :: u32) = snd a" by (rule bit_word_eqI) (simp add: bit_simps)
  ultimately show "ip_wf (fst a) \<Longrightarrow> ?thesis"
    by (cases a) (auto simp: address_from_proto_def address_to_proto_def ip_wf_def split: IpAddr.splits)
qed

lemma generation_roundtrip: "generation_from_proto (generation_to_proto g) = g"
  by (rule bit_word_eqI)
    (auto simp: generation_from_proto_def generation_to_proto_def bit_simps)

lemma timestamp_roundtrip:
  assumes "0 \<le> t" and "duration_ok t" and "date_ok t"
  shows "\<exists>p. timestamp_to_proto t = Some p \<and> timestamp_from_proto date_ok p = Some (Inr t)"
proof -
  have t: "t \<le> (2 ^ 63 - 1) * 1000000" using assms(1,2) by (simp add: duration_ok_def)
  then have "t div 1000000000 < 2 ^ 63" by simp
  moreover have "duration_ok (t div 1000000000 * 1000000000)"
    using t assms(1) by (simp add: duration_ok_def)
  ultimately show ?thesis using assms by (simp add: timestamp_to_proto_def timestamp_from_proto_def)
qed

lemma stack_ids_roundtrip:
  "\<forall>i \<in> set is. stack_id_wf i \<Longrightarrow>
     collect_res stack_id_from_proto (map (\<lambda>i. case i of SolanaPublicKey k \<Rightarrow> Some (PbSolana k)) is) = Inr is"
  by (induction "is") (auto simp: stack_id_from_proto_def stack_id_wf_def pubkey_def SOLANA_PUBKEY_SIZE_def split: StackID.splits)

text \<open>
  C36. (\<open>node_status_roundtrip\<close>) The protocol buffers that a node writes for its address and its
  status decode to the same status, when its IP address has the length of its kind, its last
  update is a date from 1970 on that can be represented, and its stacks are distinct
  identifiers of 32 bytes.
\<close>

theorem node_status_roundtrip:
  assumes "node_status_wf date_ok s"
  shows "\<exists>p. status_to_proto s = Some p
    \<and> status_from_proto date_ok (address_to_proto (addr_port_of (ns_address s))) p = Some (Inr s)"
proof -
  obtain t where "timestamp_to_proto (ns_last_update s) = Some t" "timestamp_from_proto date_ok t = Some (Inr (ns_last_update s))"
    using timestamp_roundtrip assms unfolding node_status_wf_def by blast
  moreover have "address_from_proto (address_to_proto (addr_port_of (ns_address s)))
      = Inr (na_address (ns_address s), na_port (ns_address s))"
    using address_roundtrip [of "addr_port_of (ns_address s)"] assms by (simp add: addr_port_of_def node_status_wf_def)
  ultimately show ?thesis using assms
    by (simp add: status_to_proto_def status_from_proto_def panic_bind_def state_from_proto_def
        generation_roundtrip stack_ids_roundtrip node_status_wf_def split: NodeState.splits)
qed

lemma alive_nodes_live:
  assumes "nodes_inv hash c"
  shows "set (map (hash \<circ> fst) (alive_nodes c)) = live c"
proof -
  have "map_of (nc_nodes c) h = Some n \<longleftrightarrow> (h, n) \<in> set (nc_nodes c)" for h n
    using assms by (simp add: nodes_inv_def)
  moreover have "map_of (nc_nodes c) h = Some n \<Longrightarrow> hash (rn_address n) = h" for h n
    using assms index_entry unfolding nodes_inv_def by fast
  ultimately show ?thesis
    by (force simp: alive_nodes_def alive_filter_set get_nodes_def live_in_def image_iff)
qed

text \<open>
  C13. (\<open>membership_reports_live_nodes\<close>) Suppose that the hash of node addresses has no
  collisions. From the start on, whatever messages arrive and whatever the database holds, the
  nodes that membership considers live are those reported live by the start, plus the ones
  notified as discovered and less the ones notified as dead, in the order of the
  notifications; the collection of nodes and its index by address agree, so that applying the
  statuses read from the database cannot panic.
\<close>

theorem membership_reports_live_nodes:
  assumes "inj (mv_hash env)"
    and "membership_start env kv version me dead_after region now w = Some (Inr (st, live_nodes), w1)"
    and "membership_run env kv ms (st, w1) = Some ((st', w2), out)"
  shows "set (map (mv_hash env \<circ> fst) (alive_nodes (me_nodes st')))
      = fold (observe (mv_hash env)) (notified out) (set (map (mv_hash env \<circ> fst) live_nodes))
    \<and> nodes_inv (mv_hash env) (me_nodes st')
    \<and> (\<forall>t read. read_status_all env kv w2 = Some (Inr read, w3) \<longrightarrow> apply_statuses env t read st' \<noteq> None)"
proof -
  have i: "nodes_inv (mv_hash env) (me_nodes st)" "live (me_nodes st) = mv_hash env ` fst ` set live_nodes"
    using membership_start_faithful [OF assms(1,2)] by simp_all
  then have r: "nodes_inv (mv_hash env) (me_nodes st')"
    "live (me_nodes st') = fold (observe (mv_hash env)) (notified out) (mv_hash env ` fst ` set live_nodes)"
    using membership_run_faithful [OF assms(1) _ assms(3)] by simp_all
  have "set (map (mv_hash env \<circ> fst) (alive_nodes (me_nodes st'))) = live (me_nodes st')"
    by (rule alive_nodes_live [OF r(1)])
  moreover have "apply_statuses env t read st' \<noteq> None" if "read_status_all env kv w2 = Some (Inr read, w3)" for t read
    using apply_statuses_faithful [OF assms(1) r(1) read_status_all_addr [OF that], of t] by (auto simp: faithful_def)
  ultimately show ?thesis using r by (simp add: image_comp comp_def image_image)
qed

section \<open>A cluster of two nodes\<close>

definition demo_hash :: "NodeAddress \<Rightarrow> NodeHash" where
  "demo_hash a = replicate (unat (na_port a)) 0 @ 1 # replicate (unat (na_generation a)) 0 @ 1 #
     (case na_address a of V4 b \<Rightarrow> 4 # b | V6 b \<Rightarrow> 6 # b)"

lemma replicate_mark: "replicate m 0 @ 1 # xs = replicate n 0 @ 1 # ys \<Longrightarrow> m = n \<and> xs = (ys :: bytes)"
proof (induction m arbitrary: n)
  case 0 then show ?case by (cases n) simp_all
next
  case (Suc m) then show ?case by (cases n) auto
qed

lemma inj_demo_hash: "inj demo_hash"
proof (rule injI)
  fix a b assume "demo_hash a = demo_hash b"
  then have "unat (na_port a) = unat (na_port b)" "unat (na_generation a) = unat (na_generation b)"
    "(case na_address a of V4 b \<Rightarrow> 4 # b | V6 b \<Rightarrow> 6 # b) = (case na_address b of V4 b \<Rightarrow> (4::u8) # b | V6 b \<Rightarrow> 6 # b)"
    unfolding demo_hash_def by (metis replicate_mark)+
  then show "a = b" by (auto simp: word_unat_eq_iff [symmetric] intro!: NodeAddress.equality split: IpAddr.splits)
qed

definition demo_cluster_env :: membership_env where
  "demo_cluster_env =
     \<lparr>mv_hash = demo_hash,
      mv_write_address = (\<lambda>a. Some ((case pna_ip a of Some (Some (PbIpv4 b)) \<Rightarrow> b | _ \<Rightarrow> []) @ [ucast (pna_port a)])),
      mv_parse_address = (\<lambda>b. Some \<lparr>pna_ip = Some (Some (PbIpv4 (take 4 b))), pna_port = ucast (last b)\<rparr>),
      mv_write_status = (\<lambda>s. case pns_generation s of None \<Rightarrow> None | Some g \<Rightarrow>
        (case pns_last_update s of None \<Rightarrow> None | Some t \<Rightarrow> Some [ucast (pg_lower g), of_int (pt_seconds t)])),
      mv_parse_status = (\<lambda>b. case b of [g, t] \<Rightarrow> Some \<lparr>pns_version = 1, pns_generation = Some \<lparr>pg_upper = 0, pg_lower = ucast g\<rparr>,
          pns_region_id = [], pns_last_update = Some \<lparr>pt_seconds = uint t, pt_nanos = 0\<rparr>, pns_state = PbAlive,
          pns_deployed_stacks = []\<rparr>
        | _ \<Rightarrow> None),
      mv_date_ok = (\<lambda>_. True)\<rparr>"

definition demo_me :: NodeAddress where
  "demo_me = \<lparr>na_address = V4 [10, 0, 0, 1], na_port = 7, na_generation = 3\<rparr>"

definition demo_peer :: NodeAddress where
  "demo_peer = \<lparr>na_address = V4 [10, 0, 0, 2], na_port = 7, na_generation = 5\<rparr>"

definition demo_status :: NodeStatus where
  "demo_status = \<lparr>ns_version = 1, ns_address = demo_me, ns_region_id = [], ns_last_update = 9000000000, ns_state = Alive,
     ns_deployed_stacks = [demo_stack_id]\<rparr>"

definition demo_cluster :: "(bytes \<times> bytes) list" where
  "demo_cluster = [([0, 77, 10, 0, 0, 1, 7], [3, 2]), ([0, 77, 10, 0, 0, 2, 7], [5, 4])]"

text \<open>The database of the cluster, the own status in it, and a peer that stops to update.\<close>

lemma demo_write_inputs:
  "serialize_key demo_cluster_env (addr_port_of (ns_address demo_status)) = Inr (address_to_proto (addr_port_of demo_me), [0, 77, 10, 0, 0, 1, 7])"
  "status_write_to_bytes demo_cluster_env demo_status = Some (Inr [3, 9])"
  "deserialize_status demo_cluster_env (address_to_proto (addr_port_of demo_me)) [3, 2] \<noteq> None"
  by code_simp+


theorem node_status_roundtrip_witness:
  "\<exists>p. status_to_proto demo_status = Some p
    \<and> status_from_proto (\<lambda>_. True) (address_to_proto (addr_port_of (ns_address demo_status))) p = Some (Inr demo_status)"
proof (rule node_status_roundtrip)
  show "node_status_wf (\<lambda>_. True) demo_status" by code_simp
qed

definition demo_started :: membership_state where
  "demo_started = fst (projr (fst (the (membership_start demo_cluster_env mem_tikv 1 demo_me 10000000000 [] 5000000000 demo_cluster))))"

lemma demo_start: "membership_start demo_cluster_env mem_tikv 1 demo_me 10000000000 [] 5000000000 demo_cluster
    = Some (Inr (demo_started, [(demo_peer, [])]), demo_cluster)"
  by code_simp

lemma demo_run: "case membership_run demo_cluster_env mem_tikv [Update 6000000000, Update 20000000000] (demo_started, demo_cluster) of
     None \<Rightarrow> False | Some (s', out) \<Rightarrow> notified out = [MNodeDied (demo_hash demo_peer) MissedUpdate]"
  by code_simp

theorem membership_reports_live_nodes_witness:
  "\<exists>s' out. membership_run demo_cluster_env mem_tikv [Update 6000000000, Update 20000000000] (demo_started, demo_cluster) = Some (s', out)
    \<and> alive_nodes (me_nodes (fst s')) = []"
proof -
  obtain st' w2 out where run: "membership_run demo_cluster_env mem_tikv [Update 6000000000, Update 20000000000] (demo_started, demo_cluster)
      = Some ((st', w2), out)" "notified out = [MNodeDied (demo_hash demo_peer) MissedUpdate]"
    using demo_run by (auto split: option.splits)
  have "mv_hash demo_cluster_env = demo_hash" by (simp add: demo_cluster_env_def)
  with membership_reports_live_nodes [OF _ demo_start run(1)] inj_demo_hash run(2)
  have "set (map (demo_hash \<circ> fst) (alive_nodes (me_nodes st'))) = {}" by simp
  then have "alive_nodes (me_nodes (fst (st', w2))) = []" by simp
  with run(1) show ?thesis by blast
qed

end
