(* ===== verification/Rpc_Routing.thy ===== *)
theory Rpc_Routing
  imports Membership Stack_Proto
begin

text \<open>
  Remote function calls, \<open>src/executor/src/network/rpc_handler.rs\<close> with
  \<open>rpc_handler/protos.rs\<close>, the handler of \<open>src/executor/src/lib.rs\<close>, and the routing of
  requests, \<open>src/executor/src/request_routing.rs\<close>: a request is served by the local runtime or
  sent to a node where the stack is deployed, which runs it in its own runtime. Byte encodings
  of protocol buffers are the parameter \<open>rpc_codec\<close>.
\<close>

section \<open>Messages\<close>

record pb_key_value =
  pkv_key :: string
  pkv_value :: string

record pb_function_id =
  pf_stack_id :: "pb_stack_id option option"
  pf_assembly_name :: string
  pf_function_name :: string

record pb_request =
  pq_method :: enum_or_unknown
  pq_path_params :: "pb_key_value list"
  pq_query_params :: "pb_key_value list"
  pq_headers :: "pb_key_value list"
  pq_body :: bytes

record pb_response =
  pr_status :: int
  pr_headers :: "pb_key_value list"
  pr_body :: bytes

record pb_execute_function =
  pe_function_id :: "pb_function_id option"
  pe_request :: "pb_request option"

datatype pb_execute_result = PbOk pb_response | PbError string

datatype rpc_error =
    EmptyStackID | IncorrectStackIDLength | UnknownHttpMethod int | StatusCode | StatusOutOfRange | ParseRequest
  | EmptyRpcRequest | EmptyFunctionID | EmptyRequest | SerializeRequest | SendFailed string | ParseResponse | EmptyResponse
  | RemoteError string

definition function_id_to_proto :: "FunctionID \<Rightarrow> pb_function_id" where
  "function_id_to_proto i =
     (case aid_stack_id (fid_assembly_id i) of SolanaPublicKey pk \<Rightarrow>
        \<lparr>pf_stack_id = Some (Some (PbSolana pk)), pf_assembly_name = aid_assembly_name (fid_assembly_id i),
         pf_function_name = fid_function_name i\<rparr>)"

definition function_id_from_proto :: "pb_function_id \<Rightarrow> rpc_error + FunctionID" where
  "function_id_from_proto i =
     res_bind (ok_or EmptyStackID (pf_stack_id i)) (\<lambda>stack_id.
     res_bind (case stack_id of
         Some (PbSolana b) \<Rightarrow> if length b = 32 then Inr (SolanaPublicKey b) else Inl IncorrectStackIDLength
       | None \<Rightarrow> Inl EmptyStackID) (\<lambda>stack_id.
     Inr \<lparr>fid_assembly_id = \<lparr>aid_stack_id = stack_id, aid_assembly_name = pf_assembly_name i\<rparr>,
       fid_function_name = pf_function_name i\<rparr>))"

definition header_to_proto :: "Header \<Rightarrow> pb_key_value" where
  "header_to_proto h = \<lparr>pkv_key = hd_name h, pkv_value = hd_value h\<rparr>"

definition header_from_proto :: "pb_key_value \<Rightarrow> Header" where
  "header_from_proto h = \<lparr>hd_name = pkv_key h, hd_value = pkv_value h\<rparr>"

fun rpc_method_to_proto :: "HttpMethod \<Rightarrow> enum_or_unknown" where
  "rpc_method_to_proto Get = pb_method_value GET"
| "rpc_method_to_proto Post = pb_method_value POST"
| "rpc_method_to_proto Patch = pb_method_value PATCH"
| "rpc_method_to_proto Put = pb_method_value PUT"
| "rpc_method_to_proto Delete = pb_method_value DELETE"
| "rpc_method_to_proto Head = pb_method_value HEAD"
| "rpc_method_to_proto Options = pb_method_value OPTIONS"

definition rpc_method_from_proto :: "enum_or_unknown \<Rightarrow> rpc_error + HttpMethod" where
  "rpc_method_from_proto m =
     (case pb_method_enum_value m of
        Inl i \<Rightarrow> Inl (UnknownHttpMethod i)
      | Inr e \<Rightarrow> Inr (case e of GET \<Rightarrow> Get | POST \<Rightarrow> Post | PATCH \<Rightarrow> Patch | PUT \<Rightarrow> Put | DELETE \<Rightarrow> Delete
          | HEAD \<Rightarrow> Head | OPTIONS \<Rightarrow> Options))"

definition convert_key_value_pair :: "string \<times> string \<Rightarrow> pb_key_value" where
  "convert_key_value_pair p = (case p of (k, v) \<Rightarrow> \<lparr>pkv_key = k, pkv_value = v\<rparr>)"

definition convert_key_value :: "pb_key_value \<Rightarrow> string \<times> string" where
  "convert_key_value p = (pkv_key p, pkv_value p)"

definition request_to_proto :: "Request \<Rightarrow> pb_request" where
  "request_to_proto r =
     \<lparr>pq_method = rpc_method_to_proto (rq_method r),
      pq_path_params = map convert_key_value_pair (rq_path_params r),
      pq_query_params = map convert_key_value_pair (rq_query_params r),
      pq_headers = map header_to_proto (rq_headers r),
      pq_body = rq_body r\<rparr>"

definition request_from_proto :: "pb_request \<Rightarrow> rpc_error + Request" where
  "request_from_proto r =
     res_bind (rpc_method_from_proto (pq_method r)) (\<lambda>m.
     Inr \<lparr>rq_method = m,
       rq_path_params = hm_from_pairs (map convert_key_value (pq_path_params r)),
       rq_query_params = hm_from_pairs (map convert_key_value (pq_query_params r)),
       rq_headers = map header_from_proto (pq_headers r),
       rq_body = pq_body r\<rparr>)"

definition response_to_proto :: "Response \<Rightarrow> pb_response" where
  "response_to_proto r =
     \<lparr>pr_status = uint (rs_status r), pr_headers = map header_to_proto (rs_headers r), pr_body = rs_body r\<rparr>"

definition response_from_proto :: "pb_response \<Rightarrow> rpc_error + Response" where
  "response_from_proto r =
     res_bind (if 0 \<le> pr_status r \<and> pr_status r < 65536 then Inr (word_of_int (pr_status r)) else Inl StatusCode) (\<lambda>status_code.
     if (status_code :: u16) < 100 \<and> status_code > 600 then Inl StatusOutOfRange
     else Inr \<lparr>rs_status = status_code, rs_headers = map header_from_proto (pr_headers r), rs_body = pr_body r\<rparr>)"

section \<open>The calling and the serving side\<close>

text \<open>
  A missing request or result is an absent alternative of the \<open>oneof\<close> of the message.
  \<open>rc_describe\<close> is the text that \<open>anyhow\<close> gives an error with the context added to it.
\<close>

record rpc_codec =
  rc_write_request :: "pb_execute_function option \<Rightarrow> bytes option"
  rc_parse_request :: "bytes \<Rightarrow> pb_execute_function option option"
  rc_write_response :: "pb_execute_result option \<Rightarrow> bytes option"
  rc_describe :: "string \<Rightarrow> string"
  rc_parse_response :: "bytes \<Rightarrow> pb_execute_result option option"

type_synonym ConnectionID = u32
type_synonym RequestID = u32
type_synonym 'w invoke_function = "FunctionID \<Rightarrow> Request \<Rightarrow> ('w, string, Response) act"

definition decode_rpc_request :: "rpc_codec \<Rightarrow> bytes \<Rightarrow> rpc_error + FunctionID \<times> Request" where
  "decode_rpc_request codec request_data =
     res_bind (ok_or ParseRequest (rc_parse_request codec request_data)) (\<lambda>rpc_request.
     res_bind (ok_or EmptyRpcRequest rpc_request) (\<lambda>request.
     res_bind (ok_or EmptyFunctionID (pe_function_id request)) (\<lambda>function_id.
     res_bind (function_id_from_proto function_id) (\<lambda>function_id.
     res_bind (ok_or EmptyRequest (pe_request request)) (\<lambda>request.
     res_bind (request_from_proto request) (\<lambda>request.
     Inr (function_id, request)))))))"

text \<open>The handler that the executor installs: it runs the function in the local runtime.\<close>

definition rpc_request_handler :: "rpc_codec \<Rightarrow> 'w invoke_function \<Rightarrow> FunctionID \<Rightarrow> Request \<Rightarrow> ('w, string, Response) act" where
  "rpc_request_handler codec invoke function_id request = act_map_err (rc_describe codec) (invoke function_id request)"

definition send_execute_function_reply ::
  "rpc_codec \<Rightarrow> (ConnectionID \<Rightarrow> RequestID \<Rightarrow> bytes \<Rightarrow> ('w, string, unit) act) \<Rightarrow> string + Response \<Rightarrow>
     ConnectionID \<Rightarrow> RequestID \<Rightarrow> 'w \<Rightarrow> 'w" where
  "send_execute_function_reply codec send_reply response connection_id request_id w =
     (case rc_write_response codec (Some (case response of Inr r \<Rightarrow> PbOk (response_to_proto r) | Inl f \<Rightarrow> PbError f)) of
        None \<Rightarrow> w
      | Some response_data \<Rightarrow> snd (send_reply connection_id request_id response_data w))"

text \<open>A request that cannot be decoded is only logged: no reply is sent.\<close>

definition request_received ::
  "rpc_codec \<Rightarrow> 'w invoke_function \<Rightarrow> (ConnectionID \<Rightarrow> RequestID \<Rightarrow> bytes \<Rightarrow> ('w, string, unit) act) \<Rightarrow>
     ConnectionID \<Rightarrow> RequestID \<Rightarrow> bytes \<Rightarrow> 'w \<Rightarrow> 'w" where
  "request_received codec invoke send_reply connection_id request_id request_data w =
     (case decode_rpc_request codec request_data of
        Inl _ \<Rightarrow> w
      | Inr (function_id, request) \<Rightarrow>
          (case rpc_request_handler codec invoke function_id request w of
             (response, w') \<Rightarrow> send_execute_function_reply codec send_reply response connection_id request_id w'))"

definition send_execute_function ::
  "rpc_codec \<Rightarrow> (ConnectionID \<Rightarrow> bytes \<Rightarrow> ('w, string, bytes) act) \<Rightarrow> ConnectionID \<Rightarrow> FunctionID \<Rightarrow> Request \<Rightarrow>
     ('w, rpc_error, Response) act" where
  "send_execute_function codec send_req_rep connection_id function_id request =
     act_bind (act_res (ok_or SerializeRequest (rc_write_request codec
         (Some \<lparr>pe_function_id = Some (function_id_to_proto function_id), pe_request = Some (request_to_proto request)\<rparr>)))) (\<lambda>data.
     act_bind (act_map_err SendFailed (send_req_rep connection_id data)) (\<lambda>reply.
     act_bind (act_res (ok_or ParseResponse (rc_parse_response codec reply))) (\<lambda>response.
     act_res (case response of
         None \<Rightarrow> Inl EmptyResponse
       | Some (PbError f) \<Rightarrow> Inl (RemoteError f)
       | Some (PbOk r) \<Rightarrow> response_from_proto r))))"

section \<open>Routing\<close>

datatype RoutingTarget = RouteNotDeployed | RouteLocal | RouteRemote NodeAddress

datatype routing_error =
    SchedulerFailed string | NoDeploymentTargets | MembershipFailed string | HashNotKnown NodeHash
  | StackNotDeployed | InvokeFailedLocally string | ConnectFailed string | RemoteInvocation rpc_error

text \<open>
  The components that routing calls; the scheduler is absent until the executor has started it.
  \<open>ro_choose\<close> is the random choice of an element.
\<close>

record 'w router =
  ro_scheduler :: "(StackID \<Rightarrow> ('w, string, StackDeploymentStatus) act) option"
  ro_get_node :: "NodeHash \<Rightarrow> ('w, string, NodeAddress option) act"
  ro_choose :: "NodeHash list \<Rightarrow> NodeHash option"
  ro_connect :: "IpAddr \<Rightarrow> u16 \<Rightarrow> ('w, string, ConnectionID) act"
  ro_send_req_rep :: "ConnectionID \<Rightarrow> bytes \<Rightarrow> ('w, string, bytes) act"
  ro_disconnect :: "ConnectionID \<Rightarrow> ('w, string, unit) act"
  ro_codec :: rpc_codec
  ro_invoke :: "'w invoke_function"

definition get_route :: "'w router \<Rightarrow> (StackID \<Rightarrow> ('w, string, StackDeploymentStatus) act) \<Rightarrow> StackID \<Rightarrow> ('w, routing_error, RoutingTarget) act" where
  "get_route ro get_deployment_status stack_id =
     act_bind (act_map_err SchedulerFailed (get_deployment_status stack_id)) (\<lambda>deployment_status.
       case deployment_status of
         StatusUnknown \<Rightarrow> act_ok RouteNotDeployed
       | StatusNotDeployed \<Rightarrow> act_ok RouteNotDeployed
       | StatusDeployedToSelf _ \<Rightarrow> act_ok RouteLocal
       | StatusDeployedToOthers deployed_to \<Rightarrow>
           act_bind (act_res (ok_or NoDeploymentTargets (ro_choose ro deployed_to))) (\<lambda>invocation_target.
           act_bind (act_map_err MembershipFailed (ro_get_node ro invocation_target)) (\<lambda>address.
           act_res (case address of None \<Rightarrow> Inl (HashNotKnown invocation_target) | Some a \<Rightarrow> Inr (RouteRemote a)))))"

definition route_remote :: "'w router \<Rightarrow> NodeAddress \<Rightarrow> FunctionID \<Rightarrow> Request \<Rightarrow> ('w, routing_error, Response) act" where
  "route_remote ro address function_id request =
     act_bind (act_map_err ConnectFailed (ro_connect ro (na_address address) (na_port address))) (\<lambda>connection_id w.
       case act_map_err RemoteInvocation
           (send_execute_function (ro_codec ro) (ro_send_req_rep ro) connection_id function_id request) w of
         (response, w') \<Rightarrow> (response, snd (ro_disconnect ro connection_id w')))"

text \<open>\<open>None\<close> is the panic when the scheduler was not started yet.\<close>

definition route_request :: "'w router \<Rightarrow> FunctionID \<Rightarrow> Request \<Rightarrow> ('w, routing_error, Response) act option" where
  "route_request ro function_id request =
     map_option (\<lambda>get_deployment_status.
       act_bind (get_route ro get_deployment_status (aid_stack_id (fid_assembly_id function_id))) (\<lambda>route.
         case route of
           RouteNotDeployed \<Rightarrow> act_res (Inl StackNotDeployed)
         | RouteLocal \<Rightarrow> act_map_err InvokeFailedLocally (ro_invoke ro function_id request)
         | RouteRemote address \<Rightarrow> route_remote ro address function_id request)) (ro_scheduler ro)"

end
