(* ===== verification/Rpc_Props.thy ===== *)
theory Rpc_Props
  imports Rpc_Routing
begin

text \<open>
  A remote function call does what the local call does on the node where the stack is deployed:
  function identifiers, requests and responses survive the way through protocol buffers, and
  every outcome of the invocation reaches the caller.
\<close>

section \<open>Conversions\<close>

lemma function_id_roundtrip:
  "stack_id_wf (function_id_stack_id i) \<Longrightarrow> function_id_from_proto (function_id_to_proto i) = Inr i"
  by (cases "aid_stack_id (fid_assembly_id i)")
    (simp add: function_id_to_proto_def function_id_from_proto_def function_id_stack_id_def stack_id_wf_def pubkey_def
      SOLANA_PUBKEY_SIZE_def)

lemma header_roundtrip [simp]: "header_from_proto (header_to_proto h) = h"
  by (simp add: header_from_proto_def header_to_proto_def)

lemma method_roundtrip [simp]: "rpc_method_from_proto (rpc_method_to_proto m) = Inr m"
  by (cases m) (simp_all add: rpc_method_from_proto_def pb_method_enum_value_def)

lemma key_value_roundtrip [simp]: "convert_key_value (convert_key_value_pair p) = p"
  by (cases p) (simp add: convert_key_value_def convert_key_value_pair_def)

definition request_wf :: "Request \<Rightarrow> bool" where
  "request_wf r \<longleftrightarrow> distinct (map fst (rq_path_params r)) \<and> distinct (map fst (rq_query_params r))"

lemma request_roundtrip: "request_wf r \<Longrightarrow> request_from_proto (request_to_proto r) = Inr r"
  by (simp add: request_from_proto_def request_to_proto_def request_wf_def comp_def hm_from_pairs_id)

lemma response_roundtrip: "response_from_proto (response_to_proto r) = Inr r"
proof -
  have "uint (rs_status r) < 65536" using unsigned_less [of "rs_status r", where 'a = int] by simp
  then show ?thesis by (auto simp: response_from_proto_def response_to_proto_def comp_def word_less_alt)
qed

section \<open>A call over the network\<close>

definition codec_laws :: "rpc_codec \<Rightarrow> bool" where
  "codec_laws codec \<longleftrightarrow>
     (\<forall>m b. rc_write_request codec m = Some b \<longrightarrow> rc_parse_request codec b = Some m)
   \<and> (\<forall>m b. rc_write_response codec m = Some b \<longrightarrow> rc_parse_response codec b = Some m)"

definition request_message :: "FunctionID \<Rightarrow> Request \<Rightarrow> pb_execute_function" where
  "request_message f r = \<lparr>pe_function_id = Some (function_id_to_proto f), pe_request = Some (request_to_proto r)\<rparr>"

definition response_message :: "string + Response \<Rightarrow> pb_execute_result" where
  "response_message r = (case r of Inr r \<Rightarrow> PbOk (response_to_proto r) | Inl f \<Rightarrow> PbError f)"

lemma decode_request_message:
  assumes "codec_laws codec" and "stack_id_wf (function_id_stack_id f)" and "request_wf r"
    and "rc_write_request codec (Some (request_message f r)) = Some data"
  shows "decode_rpc_request codec data = Inr (f, r)"
proof -
  have "rc_parse_request codec data = Some (Some (request_message f r))" using assms(1,4) by (simp add: codec_laws_def)
  then show ?thesis
    using assms(2,3) by (simp add: decode_rpc_request_def request_message_def function_id_roundtrip request_roundtrip)
qed

text \<open>
  A peer reached over a network that delivers: the data are handed to the peer's handler, and
  the reply that it sends is the reply to the request.
\<close>

definition collect_reply :: "ConnectionID \<Rightarrow> RequestID \<Rightarrow> bytes \<Rightarrow> ('w \<times> bytes list, string, unit) act" where
  "collect_reply c r data = (\<lambda>(w, replies). (Inr (), (w, replies @ [data])))"

definition ask_peer :: "rpc_codec \<Rightarrow> 'w invoke_function \<Rightarrow> bytes \<Rightarrow> ('w, string, bytes) act" where
  "ask_peer codec invoke data = (\<lambda>w.
     case request_received codec (\<lambda>f r. act_fst (invoke f r)) collect_reply 0 0 data (w, []) of
       (w', [reply]) \<Rightarrow> (Inr reply, w')
     | (w', _) \<Rightarrow> (Inl ''no reply'', w'))"

lemma ask_peer_replies:
  assumes "decode_rpc_request codec data = Inr (f, r)" and "invoke f r w = (q, w')"
    and "rc_write_response codec (Some (response_message (map_err (rc_describe codec) q))) = Some reply"
  shows "ask_peer codec invoke data w = (Inr reply, w')"
  using assms
  by (simp add: ask_peer_def request_received_def rpc_request_handler_def act_map_err_def act_fst_def
      send_execute_function_reply_def collect_reply_def response_message_def)

lemma send_execute_function_there:
  assumes codec: "codec_laws codec" and "stack_id_wf (function_id_stack_id f)" and "request_wf r"
    and data: "rc_write_request codec (Some (request_message f r)) = Some data"
    and "invoke f r w = (q, w')"
    and reply: "rc_write_response codec (Some (response_message (map_err (rc_describe codec) q))) = Some reply"
    and ask: "send_req_rep c = ask_peer codec invoke"
  shows "send_execute_function codec send_req_rep c f r w = (map_err (RemoteError \<circ> rc_describe codec) q, w')"
proof -
  have "ask_peer codec invoke data w = (Inr reply, w')"
    using decode_request_message [OF assms(1-4)] assms(5) reply by (rule ask_peer_replies [where invoke = invoke])
  moreover have "rc_parse_response codec reply = Some (Some (response_message (map_err (rc_describe codec) q)))"
    using codec reply by (simp add: codec_laws_def)
  ultimately show ?thesis
    using data ask by (cases q) (simp_all add: send_execute_function_def act_bind_def act_map_err_def request_message_def
        response_message_def response_roundtrip)
qed

text \<open>
  C16. (\<open>remote_request_runs_there\<close>) Suppose that the scheduler reports a stack as deployed on
  other nodes, that membership knows the address of the chosen one and that the connection to
  it delivers. A well-formed request to a function of the stack is then executed exactly once,
  by the runtime of that node: its response is the response to the request, its failure is
  reported as a remote error with its text, and in both cases the connection is closed.
\<close>

theorem remote_request_runs_there:
  assumes "codec_laws (ro_codec ro)" and "stack_id_wf (function_id_stack_id f)" and "request_wf r"
    and "ro_scheduler ro = Some status"
    and "status (function_id_stack_id f) w = (Inr (StatusDeployedToOthers hs), w1)" and "ro_choose ro hs = Some h"
    and "ro_get_node ro h w1 = (Inr (Some a), w2)" and "ro_connect ro (na_address a) (na_port a) w2 = (Inr c, w3)"
    and "ro_send_req_rep ro c = ask_peer (ro_codec ro) invoke_there"
    and "rc_write_request (ro_codec ro) (Some (request_message f r)) = Some data"
    and "invoke_there f r w3 = (q, w4)"
    and "rc_write_response (ro_codec ro) (Some (response_message (map_err (rc_describe (ro_codec ro)) q))) = Some reply"
  shows "map_option (\<lambda>run. run w) (route_request ro f r) =
    Some (map_err (RemoteInvocation \<circ> RemoteError \<circ> rc_describe (ro_codec ro)) q, snd (ro_disconnect ro c w4))"
proof -
  have "send_execute_function (ro_codec ro) (ro_send_req_rep ro) c f r w3 =
      (map_err (RemoteError \<circ> rc_describe (ro_codec ro)) q, w4)"
    using assms(1-3,10-12,9) by (rule send_execute_function_there [where invoke = invoke_there and c = c])
  then have "route_remote ro a f r w2 =
      (map_err (RemoteInvocation \<circ> RemoteError \<circ> rc_describe (ro_codec ro)) q, snd (ro_disconnect ro c w4))"
    using assms(8) by (cases q) (simp_all add: route_remote_def act_bind_def act_map_err_def)
  moreover have "get_route ro status (aid_stack_id (fid_assembly_id f)) w = (Inr (RouteRemote a), w2)"
    using assms(5-7) by (simp add: get_route_def act_bind_def act_map_err_def function_id_stack_id_def)
  ultimately show ?thesis using assms(4) by (simp add: route_request_def act_bind_def)
qed

section \<open>Two nodes\<close>

definition rpc_demo_function :: FunctionID where
  "rpc_demo_function = \<lparr>fid_assembly_id = \<lparr>aid_stack_id = demo_stack_id, aid_assembly_name = ''a''\<rparr>, fid_function_name = ''f''\<rparr>"

definition rpc_demo_request :: Request where
  "rpc_demo_request = \<lparr>rq_method = Put, rq_path_params = [(''id'', ''7'')], rq_query_params = [], rq_headers = [], rq_body = [1, 2]\<rparr>"

definition rpc_demo_response :: Response where
  "rpc_demo_response = \<lparr>rs_status = 201, rs_headers = [\<lparr>hd_name = ''x'', hd_value = ''y''\<rparr>], rs_body = [3]\<rparr>"

definition rpc_demo_codec :: rpc_codec where
  "rpc_demo_codec =
     \<lparr>rc_write_request = (\<lambda>m. if m = Some (request_message rpc_demo_function rpc_demo_request) then Some [1] else None),
      rc_parse_request = (\<lambda>b. if b = [1] then Some (Some (request_message rpc_demo_function rpc_demo_request)) else None),
      rc_write_response = (\<lambda>m. if m = Some (response_message (Inr rpc_demo_response)) then Some [2] else None),
      rc_describe = id,
      rc_parse_response = (\<lambda>b. if b = [2] then Some (Some (response_message (Inr rpc_demo_response))) else None)\<rparr>"

definition rpc_demo_node_address :: NodeAddress where
  "rpc_demo_node_address = \<lparr>na_address = V4 [10, 0, 0, 2], na_port = 7, na_generation = 5\<rparr>"

text \<open>The world counts the invocations of the peer and the open connections.\<close>

definition rpc_demo_invoke :: "(nat \<times> nat) invoke_function" where
  "rpc_demo_invoke f r = (\<lambda>(n, c). (if r = rpc_demo_request then Inr rpc_demo_response else Inl ''unexpected'', (n + 1, c)))"

definition rpc_demo_router :: "(nat \<times> nat) router" where
  "rpc_demo_router =
     \<lparr>ro_scheduler = Some (\<lambda>i. act_ok (StatusDeployedToOthers [[9]])),
      ro_get_node = (\<lambda>h. act_ok (if h = [9] then Some rpc_demo_node_address else None)),
      ro_choose = (\<lambda>hs. case hs of [] \<Rightarrow> None | h # _ \<Rightarrow> Some h),
      ro_connect = (\<lambda>ip port. \<lambda>(n, c). (Inr 4, (n, c + 1))),
      ro_send_req_rep = (\<lambda>c. ask_peer rpc_demo_codec rpc_demo_invoke),
      ro_disconnect = (\<lambda>i. \<lambda>(n, c). (Inr (), (n, c - 1))),
      ro_codec = rpc_demo_codec,
      ro_invoke = (\<lambda>f r. act_res (Inl ''not here''))\<rparr>"

theorem remote_request_runs_there_witness:
  "map_option (\<lambda>run. run (0, 0)) (route_request rpc_demo_router rpc_demo_function rpc_demo_request) = Some (Inr rpc_demo_response, (1, 0))"
proof -
  have c: "ro_codec rpc_demo_router = rpc_demo_codec" by (simp add: rpc_demo_router_def)
  have laws: "codec_laws (ro_codec rpc_demo_router)" by (auto simp: c codec_laws_def rpc_demo_codec_def)
  have i: "stack_id_wf (function_id_stack_id rpc_demo_function)" by code_simp
  have r: "request_wf rpc_demo_request" by (simp add: request_wf_def rpc_demo_request_def)
  have "map_option (\<lambda>run. run (0, 0)) (route_request rpc_demo_router rpc_demo_function rpc_demo_request) =
      Some (map_err (RemoteInvocation \<circ> RemoteError \<circ> rc_describe (ro_codec rpc_demo_router)) (Inr rpc_demo_response),
        snd (ro_disconnect rpc_demo_router 4 (1, 1)))"
    by (rule remote_request_runs_there [OF laws i r, where invoke_there = rpc_demo_invoke and h = "[9]" and hs = "[[9]]" and a = rpc_demo_node_address
          and status = "\<lambda>i. act_ok (StatusDeployedToOthers [[9]])" and ?w1.0 = "(0, 0)" and ?w2.0 = "(0, 0)" and ?w3.0 = "(0, 1)" and data = "[1]"
          and reply = "[2]"])
      (simp_all add: rpc_demo_router_def rpc_demo_codec_def rpc_demo_invoke_def)
  then show ?thesis by (simp add: rpc_demo_router_def)
qed

end
