(* ===== verification/Connection_Manager.thy ===== *)
theory Connection_Manager
  imports Rpc_Routing
begin

text \<open>
  The connection manager, \<open>src/executor/src/network/connection_manager.rs\<close>: connections to other
  nodes, and on each of them the streams on which requests arrive and are answered. The network
  library is the environment: what its futures yield is part of the events that drive the main
  loop, and a stream with its two codecs is a value of the type \<open>'c\<close>. What the code writes to and
  reads from streams, its replies and its notifications are the outputs. \<open>None\<close> is the panic of a
  counter that overflows when overflow checks are compiled in.
\<close>

section \<open>State\<close>

datatype ConnectionManagerNotification =
    NewConnectionAvailable ConnectionID
  | ConnectionClosed ConnectionID
  | DatagramReceived ConnectionID bytes
  | ReqRepReceived ConnectionID RequestID bytes

record 'c OpenConnection =
  oc_just_received :: "'c list"
  oc_pending_reads :: "(RequestID, 'c) hash_map"
  oc_pending_writes :: "(RequestID, 'c) hash_map"
  oc_next_request_id :: RequestID

record 'c cm_state =
  cm_next_connection_id :: u32
  cm_connections :: "(ConnectionID, 'c OpenConnection) hash_map"

datatype cm_error = UnknownConnection ConnectionID | NetworkError string | UnspecifiedAddress | FrameLength

datatype 'c cm_out =
    CmNotify ConnectionManagerNotification
  | CmConnected "cm_error + ConnectionID"
  | CmDatagram ConnectionID bytes
  | CmExchange ConnectionID bytes
  | CmReplied "cm_error + bytes"
  | CmRead ConnectionID RequestID 'c bytes
  | CmWrite ConnectionID RequestID 'c bytes
  | CmAnswered

definition get_and_increment :: "bool \<Rightarrow> u32 \<Rightarrow> (u32 \<times> u32) option" where
  "get_and_increment checks x = map_option (\<lambda>y. (x, y)) (arith_add checks x 1)"

definition new_open_connection :: "'c OpenConnection" where
  "new_open_connection = \<lparr>oc_just_received = [], oc_pending_reads = [], oc_pending_writes = [], oc_next_request_id = 0\<rparr>"

definition cm_body_start :: "'c cm_state" where
  "cm_body_start = \<lparr>cm_next_connection_id = 0, cm_connections = []\<rparr>"

definition is_unspecified :: "IpAddr \<Rightarrow> bool" where
  "is_unspecified a = (case a of V4 b \<Rightarrow> b = replicate 4 0 | V6 b \<Rightarrow> b = replicate 16 0)"

text \<open>\<open>endpoint\<close> is what configuring and starting the local endpoint yields.\<close>

definition cm_start :: "IpAddr \<Rightarrow> u128 \<Rightarrow> string + unit \<Rightarrow> cm_error + 'c cm_state" where
  "cm_start listen_address max_request_response_size endpoint =
     (if is_unspecified listen_address then Inl UnspecifiedAddress
      else res_bind (map_err NetworkError endpoint) (\<lambda>_.
        if unat max_request_response_size < 2 ^ 64 then Inr cm_body_start else Inl FrameLength))"

type_synonym 'c cm_result = "('c cm_state \<times> 'c cm_out list) option"

section \<open>Control messages\<close>

definition cm_connect :: "bool \<Rightarrow> string + unit \<Rightarrow> 'c cm_state \<Rightarrow> 'c cm_result" where
  "cm_connect checks established st =
     (case established of
        Inl f \<Rightarrow> Some (st, [CmConnected (Inl (NetworkError f))])
      | Inr _ \<Rightarrow> Option.bind (get_and_increment checks (cm_next_connection_id st)) (\<lambda>(i, n).
          Some (st\<lparr>cm_next_connection_id := n, cm_connections := AList.update i new_open_connection (cm_connections st)\<rparr>,
            [CmNotify (NewConnectionAvailable i), CmConnected (Inr i)])))"

definition send_datagram :: "ConnectionID \<Rightarrow> bytes \<Rightarrow> 'c cm_state \<Rightarrow> 'c cm_out list" where
  "send_datagram i data st = (case map_of (cm_connections st) i of Some _ \<Rightarrow> [CmDatagram i data] | None \<Rightarrow> [])"

text \<open>What the task that exchanges a request and its reply on a new stream meets.\<close>

datatype exchange = OpenFailed string | WriteFailed string | GotReply bytes | ReplyFailed string | StreamClosed

definition cm_send_req_rep :: "ConnectionID \<Rightarrow> bytes \<Rightarrow> exchange \<Rightarrow> 'c cm_state \<Rightarrow> 'c cm_out list" where
  "cm_send_req_rep i data e st =
     (case map_of (cm_connections st) i of
        Some _ \<Rightarrow> (case e of
            OpenFailed f \<Rightarrow> [CmReplied (Inl (NetworkError f))]
          | WriteFailed f \<Rightarrow> [CmReplied (Inl (NetworkError f))]
          | GotReply b \<Rightarrow> [CmExchange i data, CmReplied (Inr b)]
          | ReplyFailed f \<Rightarrow> [CmExchange i data, CmReplied (Inl (NetworkError f))]
          | StreamClosed \<Rightarrow> [CmExchange i data, CmReplied (Inl (NetworkError ''closed''))])
      | None \<Rightarrow> [CmReplied (Inl (UnknownConnection i))])"

definition cm_send_reply :: "ConnectionID \<Rightarrow> RequestID \<Rightarrow> bytes \<Rightarrow> 'c cm_state \<Rightarrow> 'c cm_state \<times> 'c cm_out list" where
  "cm_send_reply i req_id data st =
     (case map_of (cm_connections st) i of
        None \<Rightarrow> (st, [])
      | Some connection \<Rightarrow>
          (case map_of (oc_pending_writes connection) req_id of
             None \<Rightarrow> (st, [])
           | Some channel \<Rightarrow>
               (st\<lparr>cm_connections := AList.update i
                  (connection\<lparr>oc_pending_writes := AList.delete req_id (oc_pending_writes connection)\<rparr>) (cm_connections st)\<rparr>,
                [CmWrite i req_id channel data])))"

definition cm_disconnect :: "ConnectionID \<Rightarrow> 'c cm_state \<Rightarrow> 'c cm_state \<times> 'c cm_out list" where
  "cm_disconnect i st =
     (case map_of (cm_connections st) i of
        None \<Rightarrow> (st, [])
      | Some _ \<Rightarrow> (st\<lparr>cm_connections := AList.delete i (cm_connections st)\<rparr>, [CmNotify (ConnectionClosed i)]))"

section \<open>Incoming connections\<close>

text \<open>Whether the main loop goes on, and the rest; the endpoint yields nothing once it was stopped.\<close>

definition process_incoming :: "bool \<Rightarrow> (string + unit) option \<Rightarrow> 'c cm_state \<Rightarrow> (bool \<times> 'c cm_state \<times> 'c cm_out list) option" where
  "process_incoming checks maybe_connecting st =
     (case maybe_connecting of
        None \<Rightarrow> Some (False, st, [])
      | Some (Inl f) \<Rightarrow> Some (True, st, [])
      | Some (Inr _) \<Rightarrow> Option.bind (get_and_increment checks (cm_next_connection_id st)) (\<lambda>(i, n).
          Some (True, st\<lparr>cm_next_connection_id := n, cm_connections := AList.update i new_open_connection (cm_connections st)\<rparr>,
            [CmNotify (NewConnectionAvailable i)])))"

section \<open>Incoming messages\<close>

datatype 'a stream_item = Item 'a | ItemErr string | Ended

datatype 'c single_event =
    BiStream "'c stream_item"
  | ReadReady RequestID "bytes stream_item"
  | DatagramReady "bytes stream_item"

datatype cm_incoming = InDatagram ConnectionID bytes | InReqRep ConnectionID RequestID bytes

fun drain_loop :: "bool \<Rightarrow> 'c list \<Rightarrow> 'c OpenConnection \<Rightarrow> 'c OpenConnection option" where
  "drain_loop checks [] connection = Some connection"
| "drain_loop checks (channel # rest) connection =
     Option.bind (get_and_increment checks (oc_next_request_id connection)) (\<lambda>(req_id, n).
       drain_loop checks rest (connection\<lparr>oc_next_request_id := n,
         oc_pending_reads := AList.update req_id channel (oc_pending_reads connection)\<rparr>))"

definition drain :: "bool \<Rightarrow> 'c OpenConnection \<Rightarrow> 'c OpenConnection option" where
  "drain checks connection = drain_loop checks (oc_just_received connection) (connection\<lparr>oc_just_received := []\<rparr>)"

text \<open>Waiting on a connection once its new streams were given request identifiers.\<close>

definition can_happen :: "'c single_event \<Rightarrow> 'c OpenConnection \<Rightarrow> bool" where
  "can_happen e connection =
     (case e of ReadReady req_id _ \<Rightarrow> map_of (oc_pending_reads connection) req_id \<noteq> None | _ \<Rightarrow> True)"

fun single_ready :: "ConnectionID \<Rightarrow> 'c single_event \<Rightarrow> 'c OpenConnection \<Rightarrow> (ConnectionID + cm_incoming option) \<times> 'c OpenConnection" where
  "single_ready i (BiStream (Item channel)) connection =
     (Inr None, connection\<lparr>oc_just_received := oc_just_received connection @ [channel]\<rparr>)"
| "single_ready i (BiStream _) connection = (Inl i, connection)"
| "single_ready i (ReadReady req_id (Item b)) connection = (Inr (Some (InReqRep i req_id b)), connection)"
| "single_ready i (ReadReady req_id _) connection = (Inl i, connection)"
| "single_ready i (DatagramReady (Item b)) connection = (Inr (Some (InDatagram i b)), connection)"
| "single_ready i (DatagramReady _) connection = (Inl i, connection)"

text \<open>
  Polling the connections in \<open>polled\<close>: those that are not ready have at least taken over their new
  streams.
\<close>

definition poll_connection :: "bool \<Rightarrow> ConnectionID \<Rightarrow> 'c cm_state \<Rightarrow> 'c cm_state option" where
  "poll_connection checks i st =
     (case map_of (cm_connections st) i of
        None \<Rightarrow> Some st
      | Some connection \<Rightarrow> Option.bind (drain checks connection) (\<lambda>connection'.
          Some (st\<lparr>cm_connections := AList.update i connection' (cm_connections st)\<rparr>)))"

fun poll_connections :: "bool \<Rightarrow> ConnectionID list \<Rightarrow> 'c cm_state \<Rightarrow> 'c cm_state option" where
  "poll_connections checks [] st = Some st"
| "poll_connections checks (i # is) st = Option.bind (poll_connection checks i st) (poll_connections checks is)"

fun disconnect_all :: "ConnectionID list \<Rightarrow> 'c cm_state \<Rightarrow> 'c cm_state \<times> 'c cm_out list" where
  "disconnect_all [] st = (st, [])"
| "disconnect_all (i # is) st =
     (case cm_disconnect i st of (st', out) \<Rightarrow> (case disconnect_all is st' of (st'', out') \<Rightarrow> (st'', out @ out')))"

text \<open>
  One round of \<open>get_next_message\<close> is a list of connections polled and the event of the one that is
  ready. The rounds end when another branch of the main loop is ready first: the wait is then
  cancelled, and the connections found broken are forgotten. An event that cannot happen is
  taken as a cancellation.
\<close>

type_synonym 'c poll_round = "ConnectionID list \<times> ConnectionID \<times> 'c single_event"

fun message_loop ::
  "bool \<Rightarrow> nat \<Rightarrow> 'c poll_round list \<Rightarrow> ConnectionID list \<Rightarrow> 'c cm_state \<Rightarrow>
     (cm_incoming option \<times> 'c cm_state \<times> 'c cm_out list) option" where
  "message_loop checks num_connections [] to_disconnect st = Some (None, st, [])"
| "message_loop checks num_connections ((polled, i, e) # rounds) to_disconnect st =
     Option.bind (poll_connections checks (filter (\<lambda>k. k \<notin> set to_disconnect) (polled @ [i])) st) (\<lambda>st1.
       case map_of (cm_connections st1) i of
         None \<Rightarrow> Some (None, st1, [])
       | Some connection \<Rightarrow>
           if i \<in> set to_disconnect \<or> \<not> can_happen e connection then Some (None, st1, [])
           else (case single_ready i e connection of
               (r, connection') \<Rightarrow>
                 let st2 = st1\<lparr>cm_connections := AList.update i connection' (cm_connections st1)\<rparr> in
                 case r of
                   Inr (Some msg) \<Rightarrow> (case disconnect_all to_disconnect st2 of (st3, out) \<Rightarrow> Some (Some msg, st3, out))
                 | Inr None \<Rightarrow> message_loop checks num_connections rounds to_disconnect st2
                 | Inl k \<Rightarrow>
                     if length (to_disconnect @ [k]) = num_connections
                     then (case disconnect_all (to_disconnect @ [k]) st2 of (st3, out) \<Rightarrow> Some (None, st3, out))
                     else message_loop checks num_connections rounds (to_disconnect @ [k]) st2))"

definition get_next_message ::
  "bool \<Rightarrow> 'c poll_round list \<Rightarrow> 'c cm_state \<Rightarrow> (cm_incoming option \<times> 'c cm_state \<times> 'c cm_out list) option" where
  "get_next_message checks rounds st =
     (if cm_connections st = [] then Some (None, st, [])
      else message_loop checks (length (cm_connections st)) rounds [] st)"

text \<open>
  An error of \<open>process_message\<close> is only logged; it leaves the state as it is. The data of a request
  were read from its stream by the \<open>get_next_message\<close> just before: the read is an output here.
\<close>

definition process_message :: "cm_incoming \<Rightarrow> 'c cm_state \<Rightarrow> 'c cm_state \<times> 'c cm_out list" where
  "process_message m st =
     (case m of
        InDatagram i b \<Rightarrow> (st, [CmNotify (DatagramReceived i b)])
      | InReqRep i req_id b \<Rightarrow>
          (case map_of (cm_connections st) i of
             None \<Rightarrow> (st, [])
           | Some connection \<Rightarrow>
               (case map_of (oc_pending_reads connection) req_id of
                  None \<Rightarrow> (st, [])
                | Some channel \<Rightarrow>
                    (st\<lparr>cm_connections := AList.update i (connection\<lparr>
                        oc_pending_reads := AList.delete req_id (oc_pending_reads connection),
                        oc_pending_writes := AList.update req_id channel (oc_pending_writes connection)\<rparr>) (cm_connections st)\<rparr>,
                     [CmRead i req_id channel b, CmNotify (ReqRepReceived i req_id b)]))))"

section \<open>The main loop\<close>

datatype 'c cm_event =
    CmConnect IpAddr u16 "string + unit"
  | CmSendDatagram ConnectionID bytes
  | CmSendReqRep ConnectionID bytes exchange
  | CmSendReply ConnectionID RequestID bytes
  | CmDisconnect ConnectionID
  | CmStop
  | CmMailboxStopped
  | CmIncoming "(string + unit) option"
  | CmMessages "'c poll_round list"

fun cm_step :: "bool \<Rightarrow> 'c cm_event \<Rightarrow> 'c cm_state \<Rightarrow> (bool \<times> 'c cm_state \<times> 'c cm_out list) option" where
  "cm_step checks (CmConnect ip port r) st = map_option (Pair True) (cm_connect checks r st)"
| "cm_step checks (CmSendDatagram i b) st = Some (True, st, send_datagram i b st)"
| "cm_step checks (CmSendReqRep i b e) st = Some (True, st, cm_send_req_rep i b e st)"
| "cm_step checks (CmSendReply i req_id b) st = (case cm_send_reply i req_id b st of (st', out) \<Rightarrow> Some (True, st', out @ [CmAnswered]))"
| "cm_step checks (CmDisconnect i) st = (case cm_disconnect i st of (st', out) \<Rightarrow> Some (True, st', out @ [CmAnswered]))"
| "cm_step checks CmStop st = Some (False, st\<lparr>cm_connections := []\<rparr>, [CmAnswered])"
| "cm_step checks CmMailboxStopped st = Some (False, st\<lparr>cm_connections := []\<rparr>, [])"
| "cm_step checks (CmIncoming c) st = Option.bind (process_incoming checks c st) (\<lambda>(go_on, st', out).
     Some (go_on, if go_on then st' else st'\<lparr>cm_connections := []\<rparr>, out))"
| "cm_step checks (CmMessages rounds) st = Option.bind (get_next_message checks rounds st) (\<lambda>(msg, st', out).
     case msg of None \<Rightarrow> Some (True, st', out)
     | Some m \<Rightarrow> (case process_message m st' of (st'', out') \<Rightarrow> Some (True, st'', out @ out')))"

fun cm_run :: "bool \<Rightarrow> 'c cm_event list \<Rightarrow> 'c cm_state \<Rightarrow> ('c cm_state \<times> 'c cm_out list) option" where
  "cm_run checks [] st = Some (st, [])"
| "cm_run checks (e # es) st = Option.bind (cm_step checks e st) (\<lambda>(go_on, st', out).
     if go_on then Option.bind (cm_run checks es st') (\<lambda>(st'', out'). Some (st'', out @ out')) else Some (st', out))"

end
