(* ===== verification/Connection_Props.thy ===== *)
theory Connection_Props
  imports Connection_Manager
begin

text \<open>
  Requests that arrive over connections are told apart, and a reply reaches the stream that its
  request came from, at most once, whatever the interleaving of connections, streams, broken
  peers and control messages.
\<close>

section \<open>Counters\<close>

lemma get_and_increment_checked:
  assumes "get_and_increment True x = Some (r, n)"
  shows "r = x" and "y < n \<longleftrightarrow> y \<le> x"
proof -
  from assms have "\<not> 2 ^ LENGTH(32) \<le> unat x + unat (1 :: u32)" and r: "r = x" "n = x + 1"
    by (auto simp: get_and_increment_def arith_add_def split: if_splits)
  then have "unat n = unat x + 1" using arith_add_exact(2) [of x 1] by simp
  then show "y < n \<longleftrightarrow> y \<le> x" by (simp add: word_less_nat_alt word_le_nat_alt less_Suc_eq_le)
  show "r = x" by (rule r(1))
qed

lemma get_and_increment_unchecked: "get_and_increment True x = Some p \<Longrightarrow> get_and_increment False x = Some p"
  by (auto simp: get_and_increment_def arith_add_def split: if_splits)

section \<open>Runs with and without overflow checks\<close>

lemma drain_loop_unchecked: "drain_loop True chs c = Some c' \<Longrightarrow> drain_loop False chs c = Some c'"
  by (induction chs arbitrary: c) (auto simp: bind_eq_Some_conv dest: get_and_increment_unchecked)

lemma poll_connection_unchecked: "poll_connection True i st = Some st' \<Longrightarrow> poll_connection False i st = Some st'"
  by (auto simp: poll_connection_def drain_def bind_eq_Some_conv dest: drain_loop_unchecked split: option.splits)

lemma poll_connections_unchecked: "poll_connections True is st = Some st' \<Longrightarrow> poll_connections False is st = Some st'"
  by (induction "is" arbitrary: st) (auto simp: bind_eq_Some_conv dest: poll_connection_unchecked)

lemma message_loop_unchecked: "message_loop True n rounds td st = Some r \<Longrightarrow> message_loop False n rounds td st = Some r"
proof (induction rounds arbitrary: td st)
  case (Cons p rounds)
  obtain polled i e where p: "p = (polled, i, e)" by (cases p)
  with Cons.prems obtain st1 where "poll_connections True (filter (\<lambda>k. k \<notin> set td) (polled @ [i])) st = Some st1"
    by (auto simp: bind_eq_Some_conv)
  with poll_connections_unchecked [OF this] Cons p show ?case
    by (auto simp: Let_def split: option.splits if_splits prod.splits sum.splits)
qed simp

lemma connect_unchecked: "cm_connect True q st = Some r \<Longrightarrow> cm_connect False q st = Some r"
  unfolding cm_connect_def by (cases q) (auto simp: bind_eq_Some_conv dest: get_and_increment_unchecked)

lemma process_incoming_unchecked: "process_incoming True q st = Some r \<Longrightarrow> process_incoming False q st = Some r"
  unfolding process_incoming_def
  by (auto simp: bind_eq_Some_conv dest: get_and_increment_unchecked split: option.splits sum.splits)

lemma get_next_message_unchecked: "get_next_message True rounds st = Some r \<Longrightarrow> get_next_message False rounds st = Some r"
  by (auto simp: get_next_message_def dest: message_loop_unchecked split: if_splits)

lemma cm_step_unchecked: "cm_step True e st = Some r \<Longrightarrow> cm_step False e st = Some r"
proof (cases e)
  case (CmMessages rounds)
  moreover assume "cm_step True e st = Some r"
  ultimately show ?thesis
    by (cases "get_next_message True rounds st") (auto dest: get_next_message_unchecked)
next
  case (CmIncoming q)
  moreover assume "cm_step True e st = Some r"
  ultimately show ?thesis
    by (cases "process_incoming True q st") (auto dest: process_incoming_unchecked)
next
  case (CmConnect ip port q)
  moreover assume "cm_step True e st = Some r"
  ultimately show ?thesis
    by (cases "cm_connect True q st") (auto dest: connect_unchecked)
qed simp_all

lemma cm_run_unchecked: "cm_run True es st = Some r \<Longrightarrow> cm_run False es st = Some r"
  by (induction es arbitrary: st r) (auto simp: bind_eq_Some_conv dest!: cm_step_unchecked split: if_splits)

section \<open>The invariant\<close>

fun request_key :: "'c cm_out \<Rightarrow> (ConnectionID \<times> RequestID) option" where
  "request_key (CmRead i r ch b) = Some (i, r)"
| "request_key _ = None"

fun request_read :: "'c cm_out \<Rightarrow> (ConnectionID \<times> RequestID \<times> bytes) option" where
  "request_read (CmRead i r ch b) = Some (i, r, b)"
| "request_read _ = None"

fun request_notified :: "'c cm_out \<Rightarrow> (ConnectionID \<times> RequestID \<times> bytes) option" where
  "request_notified (CmNotify (ReqRepReceived i r b)) = Some (i, r, b)"
| "request_notified _ = None"

fun is_write :: "'c cm_out \<Rightarrow> bool" where
  "is_write (CmWrite i r ch d) \<longleftrightarrow> True"
| "is_write _ \<longleftrightarrow> False"

text \<open>A connection of the identifier \<open>i\<close> after the outputs \<open>tr\<close>.\<close>

definition conn_inv :: "'c cm_out list \<Rightarrow> ConnectionID \<Rightarrow> 'c OpenConnection \<Rightarrow> bool" where
  "conn_inv tr i c \<longleftrightarrow>
     (\<forall>r ch. map_of (oc_pending_reads c) r = Some ch \<longrightarrow> r < oc_next_request_id c)
   \<and> (\<forall>r ch. map_of (oc_pending_writes c) r = Some ch \<longrightarrow> (\<exists>b. CmRead i r ch b \<in> set tr) \<and> (\<forall>ch' d. CmWrite i r ch' d \<notin> set tr))
   \<and> (\<forall>r ch b. CmRead i r ch b \<in> set tr \<longrightarrow> r < oc_next_request_id c \<and> map_of (oc_pending_reads c) r = None)"

definition writes_ok :: "'c cm_out list \<Rightarrow> bool" where
  "writes_ok tr \<longleftrightarrow> (\<forall>pre i r ch d post. tr = pre @ CmWrite i r ch d # post \<longrightarrow>
     (\<exists>b. CmRead i r ch b \<in> set pre) \<and> (\<forall>ch' d'. CmWrite i r ch' d' \<notin> set pre))"

definition trace_ok :: "u32 \<Rightarrow> 'c cm_out list \<Rightarrow> bool" where
  "trace_ok n tr \<longleftrightarrow> (\<forall>i r ch b. CmRead i r ch b \<in> set tr \<longrightarrow> i < n) \<and> distinct (List.map_filter request_key tr)
     \<and> List.map_filter request_notified tr = List.map_filter request_read tr \<and> writes_ok tr"

definition cm_inv :: "'c cm_out list \<Rightarrow> 'c cm_state \<Rightarrow> bool" where
  "cm_inv tr st \<longleftrightarrow> trace_ok (cm_next_connection_id st) tr
     \<and> (\<forall>i c. map_of (cm_connections st) i = Some c \<longrightarrow> i < cm_next_connection_id st \<and> conn_inv tr i c)"

text \<open>Outputs that concern no request.\<close>

definition quiet :: "'c cm_out list \<Rightarrow> bool" where
  "quiet out \<longleftrightarrow> (\<forall>x \<in> set out. request_key x = None \<and> request_notified x = None \<and> \<not> is_write x)"

lemma quiet_simps [simp]: "quiet []" "quiet (x # out) \<longleftrightarrow> request_key x = None \<and> request_notified x = None \<and> \<not> is_write x \<and> quiet out"
  "quiet (a @ b) \<longleftrightarrow> quiet a \<and> quiet b"
  by (auto simp: quiet_def)

lemma quiet_no_request:
  assumes "quiet out"
  shows "CmRead i r ch b \<in> set (tr @ out) \<longleftrightarrow> CmRead i r ch b \<in> set tr"
    and "CmWrite i r ch b \<in> set (tr @ out) \<longleftrightarrow> CmWrite i r ch b \<in> set tr"
  using assms by (force simp: quiet_def)+

lemma quiet_filters:
  assumes "quiet out"
  shows "List.map_filter request_key (tr @ out) = List.map_filter request_key tr"
    and "List.map_filter request_notified (tr @ out) = List.map_filter request_notified tr"
    and "List.map_filter request_read (tr @ out) = List.map_filter request_read tr"
proof -
  have "request_read x = None" if "x \<in> set out" for x using assms that by (cases x) (auto simp: quiet_def)
  then show "List.map_filter request_read (tr @ out) = List.map_filter request_read tr"
    by (auto simp: map_filter_def filter_empty_conv)
qed (use assms in \<open>auto simp: quiet_def map_filter_def filter_empty_conv\<close>)

lemma quiet_writes:
  assumes "quiet out" and "writes_ok tr"
  shows "writes_ok (tr @ out)"
  unfolding writes_ok_def
proof (intro allI impI)
  fix pre i r ch d post assume split: "tr @ out = pre @ CmWrite i r ch d # post"
  have "CmWrite i r ch d \<notin> set out" using assms(1) by (auto simp: quiet_def)
  with split obtain us where "tr = pre @ CmWrite i r ch d # us"
    by (auto simp: append_eq_append_conv2 append_eq_Cons_conv)
  with assms(2) show "(\<exists>b. CmRead i r ch b \<in> set pre) \<and> (\<forall>ch' d'. CmWrite i r ch' d' \<notin> set pre)"
    by (auto simp: writes_ok_def)
qed

lemma cm_inv_quiet: "cm_inv tr st \<Longrightarrow> quiet out \<Longrightarrow> cm_inv (tr @ out) st"
  unfolding cm_inv_def trace_ok_def conn_inv_def
  by (simp add: quiet_no_request quiet_filters quiet_writes del: set_append Un_iff)

text \<open>Steps that touch one connection and no request, and steps that remove connections.\<close>

lemma cm_inv_update:
  assumes "cm_inv tr st" and "map_of (cm_connections st) i = Some c" and "conn_inv tr i c'"
  shows "cm_inv tr (st\<lparr>cm_connections := AList.update i c' (cm_connections st)\<rparr>)"
  using assms by (auto simp: cm_inv_def hm_simps)

lemma cm_inv_remove:
  assumes "cm_inv tr st" and "\<And>i c. map_of m i = Some c \<Longrightarrow> map_of (cm_connections st) i = Some c"
  shows "cm_inv tr (st\<lparr>cm_connections := m\<rparr>)"
  using assms by (auto simp: cm_inv_def)

lemma cm_inv_connection: "cm_inv tr st \<Longrightarrow> map_of (cm_connections st) i = Some c \<Longrightarrow> conn_inv tr i c"
  by (simp add: cm_inv_def)

lemma conn_inv_just_received: "conn_inv tr i (c\<lparr>oc_just_received := js\<rparr>) = conn_inv tr i c"
  by (simp add: conn_inv_def)

lemma cm_inv_open:
  assumes inv: "cm_inv tr st" and n: "get_and_increment True (cm_next_connection_id st) = Some (i, n)"
  shows "cm_inv tr (st\<lparr>cm_next_connection_id := n, cm_connections := AList.update i new_open_connection (cm_connections st)\<rparr>)"
proof -
  have i: "i = cm_next_connection_id st" and n: "j < n \<longleftrightarrow> j \<le> cm_next_connection_id st" for j
    using get_and_increment_checked [OF n] by blast+
  have "conn_inv tr i new_open_connection"
    using inv i by (auto simp: conn_inv_def new_open_connection_def cm_inv_def trace_ok_def)
  with inv i show ?thesis by (fastforce simp: cm_inv_def trace_ok_def n hm_simps)
qed

section \<open>Every step keeps the invariant\<close>

lemma drain_loop_inv:
  "conn_inv tr i c \<Longrightarrow> drain_loop True chs c = Some c' \<Longrightarrow> conn_inv tr i c'"
proof (induction chs arbitrary: c)
  case (Cons ch chs)
  then obtain r n where n: "get_and_increment True (oc_next_request_id c) = Some (r, n)"
    and rest: "drain_loop True chs (c\<lparr>oc_next_request_id := n, oc_pending_reads := AList.update r ch (oc_pending_reads c)\<rparr>) = Some c'"
    by (auto simp: bind_eq_Some_conv)
  have r: "r = oc_next_request_id c" and n': "j < n \<longleftrightarrow> j \<le> oc_next_request_id c" for j
    using get_and_increment_checked [OF n] by blast+
  have "conn_inv tr i (c\<lparr>oc_next_request_id := n, oc_pending_reads := AList.update r ch (oc_pending_reads c)\<rparr>)"
    using Cons.prems(1) unfolding conn_inv_def by (simp add: r n' hm_simps) (metis order.strict_implies_order order.irrefl)
  then show ?case using rest by (rule Cons.IH)
qed simp

lemma poll_connection_inv:
  assumes "cm_inv tr st" and "poll_connection True i st = Some st'"
  shows "cm_inv tr st'"
proof (cases "map_of (cm_connections st) i")
  case (Some c)
  with assms(2) obtain c' where d: "drain True c = Some c'"
    and st': "st' = st\<lparr>cm_connections := AList.update i c' (cm_connections st)\<rparr>"
    by (auto simp: poll_connection_def bind_eq_Some_conv)
  have "conn_inv tr i c'"
    using d cm_inv_connection [OF assms(1) Some] unfolding drain_def
    by (intro drain_loop_inv [OF _ d [unfolded drain_def]]) (simp add: conn_inv_just_received)
  then show ?thesis unfolding st' by (rule cm_inv_update [OF assms(1) Some])
qed (use assms in \<open>simp add: poll_connection_def\<close>)

lemma poll_connections_inv: "cm_inv tr st \<Longrightarrow> poll_connections True is st = Some st' \<Longrightarrow> cm_inv tr st'"
  by (induction "is" arbitrary: st) (auto simp: bind_eq_Some_conv intro: poll_connection_inv)

lemma disconnect_inv: "cm_inv tr st \<Longrightarrow> cm_disconnect i st = (st', out) \<Longrightarrow> cm_inv tr st' \<and> quiet out"
  by (auto simp: cm_disconnect_def hm_simps split: option.splits if_splits intro!: cm_inv_remove)

lemma disconnect_all_inv: "cm_inv tr st \<Longrightarrow> disconnect_all is st = (st', out) \<Longrightarrow> cm_inv tr st' \<and> quiet out"
proof (induction "is" arbitrary: st out)
  case (Cons i "is")
  obtain st1 o1 where d: "cm_disconnect i st = (st1, o1)" by fastforce
  obtain st2 o2 where a: "disconnect_all is st1 = (st2, o2)" by fastforce
  from disconnect_inv [OF Cons.prems(1) d] Cons.IH [of st1 o2] a d Cons.prems(2) show ?case by auto
qed simp

lemma single_ready_inv: "conn_inv tr i c \<Longrightarrow> single_ready i e c = (r, c') \<Longrightarrow> conn_inv tr i c'"
  by (cases "(i, e, c)" rule: single_ready.cases) (auto simp: conn_inv_just_received)

lemma message_loop_inv:
  "cm_inv tr st \<Longrightarrow> message_loop True n rounds td st = Some (m, st', out) \<Longrightarrow> cm_inv tr st' \<and> quiet out"
proof (induction rounds arbitrary: td st)
  case (Cons p rounds)
  obtain polled i e where p: "p = (polled, i, e)" by (cases p)
  with Cons.prems(2) obtain st1 where poll: "poll_connections True (filter (\<lambda>k. k \<notin> set td) (polled @ [i])) st = Some st1"
    by (auto simp: bind_eq_Some_conv)
  note inv1 = poll_connections_inv [OF Cons.prems(1) poll]
  show ?case
  proof (cases "map_of (cm_connections st1) i")
    case None
    with Cons.prems(2) p poll inv1 show ?thesis by simp
  next
    case (Some c)
    obtain r c' where ready: "single_ready i e c = (r, c')" by fastforce
    let ?st2 = "st1\<lparr>cm_connections := AList.update i c' (cm_connections st1)\<rparr>"
    have inv2: "cm_inv tr ?st2"
      by (rule cm_inv_update [OF inv1 Some single_ready_inv [OF cm_inv_connection [OF inv1 Some] ready]])
    have all: "cm_inv tr st3 \<and> quiet o3" if "disconnect_all is ?st2 = (st3, o3)" for "is" st3 o3
      by (rule disconnect_all_inv [OF inv2 that])
    show ?thesis
    proof (cases "i \<in> set td \<or> \<not> can_happen e c")
      case True
      with Cons.prems(2) p poll Some inv1 show ?thesis by auto
    next
      case go: False
      consider k where "r = Inl k" | "r = Inr None" | msg where "r = Inr (Some msg)" by (cases r) auto
      then show ?thesis
      proof cases
        case 1
        then show ?thesis
          using Cons.prems(2) p poll Some go ready all Cons.IH [OF inv2, of "td @ [k]"]
          by (auto simp: Let_def split: if_splits prod.splits)
      next
        case 2
        then show ?thesis using Cons.prems(2) p poll Some go ready Cons.IH [OF inv2, of td] by (auto simp: Let_def)
      next
        case 3
        then show ?thesis using Cons.prems(2) p poll Some go ready all by (auto simp: Let_def split: prod.splits)
      qed
    qed
  qed
qed simp

lemma get_next_message_inv:
  "cm_inv tr st \<Longrightarrow> get_next_message True rounds st = Some (m, st', out) \<Longrightarrow> cm_inv tr st' \<and> quiet out"
  by (auto simp: get_next_message_def dest: message_loop_inv split: if_splits)

lemma writes_ok_read:
  assumes "writes_ok tr" and "CmWrite i r ch d \<in> set tr"
  shows "\<exists>b. CmRead i r ch b \<in> set tr"
proof -
  from assms(2) obtain pre post where "tr = pre @ CmWrite i r ch d # post" by (meson split_list)
  with assms(1) show ?thesis by (fastforce simp: writes_ok_def)
qed

lemma writes_ok_snoc:
  assumes "writes_ok tr" and "is_write x \<Longrightarrow> \<exists>i r ch d b. x = CmWrite i r ch d \<and> CmRead i r ch b \<in> set tr \<and> (\<forall>ch' d'. CmWrite i r ch' d' \<notin> set tr)"
  shows "writes_ok (tr @ [x])"
  unfolding writes_ok_def
proof (intro allI impI)
  fix pre i r ch d post assume split: "tr @ [x] = pre @ CmWrite i r ch d # post"
  show "(\<exists>b. CmRead i r ch b \<in> set pre) \<and> (\<forall>ch' d'. CmWrite i r ch' d' \<notin> set pre)"
  proof (cases post rule: rev_cases)
    case Nil
    with split assms(2) show ?thesis by auto
  next
    case (snoc post' y)
    with split have "tr = pre @ CmWrite i r ch d # post'" by simp
    with assms(1) show ?thesis by (auto simp: writes_ok_def)
  qed
qed

lemma trace_ok_read:
  assumes inv: "cm_inv tr st" and c: "map_of (cm_connections st) i = Some c"
    and new: "\<And>ch' b'. CmRead i r ch' b' \<notin> set tr" and out: "out = [CmRead i r ch b, CmNotify (ReqRepReceived i r b)]"
  shows "trace_ok (cm_next_connection_id st) (tr @ out)"
proof -
  have t: "trace_ok (cm_next_connection_id st) tr" and i: "i < cm_next_connection_id st" using inv c by (auto simp: cm_inv_def)
  have "(i, r) \<notin> set (List.map_filter request_key tr)"
    using new by (auto simp: map_filter_def elim!: request_key.elims)
  moreover have "writes_ok ((tr @ [CmRead i r ch b]) @ [CmNotify (ReqRepReceived i r b)])"
    using t by (intro writes_ok_snoc) (auto simp: trace_ok_def)
  ultimately show ?thesis using t i by (auto simp: trace_ok_def out map_filter_def)
qed

lemma cm_inv_request:
  assumes inv: "cm_inv tr st" and c: "map_of (cm_connections st) i = Some c" and "trace_ok (cm_next_connection_id st) (tr @ out)"
    and c': "conn_inv (tr @ out) i c'" and others: "\<And>j r ch b. j \<noteq> i \<Longrightarrow> CmRead j r ch b \<notin> set out \<and> CmWrite j r ch b \<notin> set out"
  shows "cm_inv (tr @ out) (st\<lparr>cm_connections := AList.update i c' (cm_connections st)\<rparr>)"
proof -
  have "conn_inv (tr @ out) j cj" if "map_of (cm_connections st) j = Some cj" "j \<noteq> i" for j cj
    using cm_inv_connection [OF inv that(1)] others [OF that(2)] by (simp add: conn_inv_def)
  with assms show ?thesis by (auto simp: cm_inv_def hm_simps split: if_splits)
qed

lemma process_message_inv:
  assumes inv: "cm_inv tr st" and run: "process_message m st = (st', out)"
  shows "cm_inv (tr @ out) st' \<and> (\<forall>x \<in> set out. \<not> is_write x)"
proof (cases "\<exists>i r b c ch. m = InReqRep i r b \<and> map_of (cm_connections st) i = Some c \<and> map_of (oc_pending_reads c) r = Some ch")
  case False
  then have "st' = st" and "quiet out"
    using run by (auto simp: process_message_def split: cm_incoming.splits option.splits)
  with inv show ?thesis using cm_inv_quiet [OF inv] by (auto simp: quiet_def)
next
  case True
  then obtain i r b c ch where m: "m = InReqRep i r b" and c: "map_of (cm_connections st) i = Some c"
    and ch: "map_of (oc_pending_reads c) r = Some ch" by blast
  let ?c = "c\<lparr>oc_pending_reads := AList.delete r (oc_pending_reads c), oc_pending_writes := AList.update r ch (oc_pending_writes c)\<rparr>"
  have out: "out = [CmRead i r ch b, CmNotify (ReqRepReceived i r b)]"
    and st': "st' = st\<lparr>cm_connections := AList.update i ?c (cm_connections st)\<rparr>"
    using run m c ch by (auto simp: process_message_def)
  note ci = cm_inv_connection [OF inv c]
  have new: "CmRead i r ch' b' \<notin> set tr" for ch' b'
    using ci ch unfolding conn_inv_def by (metis option.distinct(1))
  have t: "trace_ok (cm_next_connection_id st) (tr @ out)" by (rule trace_ok_read [OF inv c new out])
  have w: "CmWrite i r ch' d \<notin> set tr" for ch' d
    using inv new writes_ok_read [of tr i r ch' d] by (auto simp: cm_inv_def trace_ok_def)
  have "conn_inv (tr @ out) i ?c" using ci ch w by (auto simp: conn_inv_def out hm_simps)
  from cm_inv_request [OF inv c t this] show ?thesis by (auto simp: st' out)
qed

lemma send_reply_inv:
  assumes inv: "cm_inv tr st" and run: "cm_send_reply i r d st = (st', out)"
  shows "cm_inv (tr @ out) st' \<and> (\<forall>x \<in> set out. is_write x \<longrightarrow> (\<exists>ch. x = CmWrite i r ch d))"
proof (cases "\<exists>c ch. map_of (cm_connections st) i = Some c \<and> map_of (oc_pending_writes c) r = Some ch")
  case False
  then have "st' = st" and "out = []" using run by (auto simp: cm_send_reply_def split: option.splits)
  with inv show ?thesis by simp
next
  case True
  then obtain c ch where c: "map_of (cm_connections st) i = Some c" and ch: "map_of (oc_pending_writes c) r = Some ch" by blast
  let ?c = "c\<lparr>oc_pending_writes := AList.delete r (oc_pending_writes c)\<rparr>"
  have out: "out = [CmWrite i r ch d]" and st': "st' = st\<lparr>cm_connections := AList.update i ?c (cm_connections st)\<rparr>"
    using run c ch by (auto simp: cm_send_reply_def)
  note ci = cm_inv_connection [OF inv c]
  obtain b where b: "CmRead i r ch b \<in> set tr" and w: "\<forall>ch' d. CmWrite i r ch' d \<notin> set tr"
    using ci ch unfolding conn_inv_def by blast
  have t: "trace_ok (cm_next_connection_id st) (tr @ out)"
    using inv b w unfolding out by (auto simp: cm_inv_def trace_ok_def map_filter_def intro!: writes_ok_snoc)
  have "conn_inv (tr @ out) i ?c" using ci by (auto simp: conn_inv_def out hm_simps)
  from cm_inv_request [OF inv c t this] show ?thesis by (auto simp: st' out)
qed

lemma process_incoming_inv:
  "cm_inv tr st \<Longrightarrow> process_incoming True q st = Some (go_on, st', out) \<Longrightarrow> cm_inv tr st' \<and> quiet out"
  by (auto simp: process_incoming_def bind_eq_Some_conv intro: cm_inv_open split: option.splits sum.splits)

definition writes_from :: "'c cm_event \<Rightarrow> 'c cm_out list \<Rightarrow> bool" where
  "writes_from e out \<longleftrightarrow> (\<forall>i r ch d. CmWrite i r ch d \<in> set out \<longrightarrow> e = CmSendReply i r d)"

lemma quiet_writes_from: "quiet out \<Longrightarrow> writes_from e out"
  by (force simp: quiet_def writes_from_def)

lemma cm_inv_quiet_step:
  "cm_inv tr st' \<Longrightarrow> quiet out \<Longrightarrow> cm_inv (tr @ out) st' \<and> writes_from e out"
  by (simp add: cm_inv_quiet quiet_writes_from)

lemma cm_step_inv:
  assumes inv: "cm_inv tr st" and run: "cm_step True e st = Some (go_on, st', out)"
  shows "cm_inv (tr @ out) st' \<and> writes_from e out"
proof (cases e)
  case (CmConnect ip port q)
  with run inv have "cm_inv tr st' \<and> quiet out"
    by (auto simp: cm_connect_def bind_eq_Some_conv intro: cm_inv_open split: sum.splits)
  then show ?thesis by (simp add: cm_inv_quiet quiet_writes_from)
next
  case (CmSendDatagram i b)
  with run inv show ?thesis
    by (intro cm_inv_quiet_step) (auto simp: send_datagram_def split: option.splits)
next
  case (CmSendReqRep i b x)
  with run inv show ?thesis
    by (intro cm_inv_quiet_step) (auto simp: cm_send_req_rep_def split: option.splits exchange.splits)
next
  case (CmSendReply i r d)
  obtain st1 o1 where r: "cm_send_reply i r d st = (st1, o1)" by fastforce
  with CmSendReply run have "st' = st1" "out = o1 @ [CmAnswered]" by simp_all
  with send_reply_inv [OF inv r] CmSendReply show ?thesis
    using cm_inv_quiet [of "tr @ o1" st1 "[CmAnswered]"] by (force simp: writes_from_def)
next
  case (CmDisconnect i)
  obtain st1 o1 where r: "cm_disconnect i st = (st1, o1)" by fastforce
  with CmDisconnect run disconnect_inv [OF inv r] show ?thesis by (intro cm_inv_quiet_step) auto
next
  case CmStop
  with run inv show ?thesis by (intro cm_inv_quiet_step) (auto intro!: cm_inv_remove)
next
  case CmMailboxStopped
  with run inv show ?thesis by (intro cm_inv_quiet_step) (auto intro!: cm_inv_remove)
next
  case (CmIncoming q)
  with run obtain st1 where p: "process_incoming True q st = Some (go_on, st1, out)"
    and st': "st' = (if go_on then st1 else st1\<lparr>cm_connections := []\<rparr>)" by (auto simp: bind_eq_Some_conv)
  then have "cm_inv tr st' \<and> quiet out"
    using process_incoming_inv [OF inv p] cm_inv_remove [of tr st1 "[]"] by auto
  then show ?thesis by (simp add: cm_inv_quiet quiet_writes_from)
next
  case (CmMessages rounds)
  with run obtain m st1 o1 where g: "get_next_message True rounds st = Some (m, st1, o1)" by (auto simp: bind_eq_Some_conv)
  note i1 = get_next_message_inv [OF inv g]
  show ?thesis
  proof (cases m)
    case None
    with CmMessages run g i1 show ?thesis by (intro cm_inv_quiet_step) auto
  next
    case (Some msg)
    obtain st2 o2 where p: "process_message msg st1 = (st2, o2)" by fastforce
    with Some CmMessages run g have "st' = st2" "out = o1 @ o2" by auto
    with process_message_inv [OF cm_inv_quiet [OF conjunct1 [OF i1] conjunct2 [OF i1]] p] i1 show ?thesis
      by (force simp: writes_from_def quiet_def)
  qed
qed

lemma cm_run_inv:
  assumes "cm_inv tr st" and "cm_run True es st = Some (st', out)"
  shows "cm_inv (tr @ out) st' \<and> (\<forall>i r ch d. CmWrite i r ch d \<in> set out \<longrightarrow> CmSendReply i r d \<in> set es)"
  using assms
proof (induction es arbitrary: tr st out)
  case (Cons e es)
  then obtain go_on st1 o1 where s: "cm_step True e st = Some (go_on, st1, o1)" by (auto simp: bind_eq_Some_conv)
  note i1 = cm_step_inv [OF Cons.prems(1) s]
  show ?case
  proof (cases go_on)
    case False
    with Cons.prems(2) s i1 show ?thesis by (auto simp: writes_from_def)
  next
    case True
    with Cons.prems(2) s obtain o2 where "cm_run True es st1 = Some (st', o2)" "out = o1 @ o2" by (auto simp: bind_eq_Some_conv)
    with Cons.IH [of "tr @ o1" st1 o2] i1 show ?thesis by (auto simp: writes_from_def)
  qed
qed simp


text \<open>Two requests on one connection, answered in the other order, and a connection that breaks.\<close>

definition demo_cm_events :: "nat cm_event list" where
  "demo_cm_events =
     [CmIncoming (Some (Inr ())), CmMessages [([], 0, BiStream (Item 10)), ([0], 0, BiStream (Item 11))],
      CmMessages [([], 0, ReadReady 1 (Item [5]))], CmMessages [([0], 0, ReadReady 0 (Item [6]))],
      CmSendReply 0 1 [7], CmSendReply 0 0 [8], CmSendReply 0 0 [9], CmMessages [([], 0, DatagramReady Ended)]]"

lemma demo_cm_run:
  "map_option snd (cm_run True demo_cm_events cm_body_start) =
     Some [CmNotify (NewConnectionAvailable 0), CmRead 0 1 11 [5], CmNotify (ReqRepReceived 0 1 [5]),
       CmRead 0 0 10 [6], CmNotify (ReqRepReceived 0 0 [6]), CmWrite 0 1 11 [7], CmAnswered, CmWrite 0 0 10 [8], CmAnswered,
       CmAnswered, CmNotify (ConnectionClosed 0)]"
  by (simp add: demo_cm_events_def cm_body_start_def get_and_increment_def arith_add_def process_incoming_def
      new_open_connection_def get_next_message_def poll_connection_def drain_def can_happen_def process_message_def
      cm_send_reply_def cm_disconnect_def)


end
