(* ===== verification/Spec2Isabelle.thy ===== *)
theory Spec2Isabelle
  imports Mailbox Stack_Proto Marketplace_Tokens Monitor_Guarantees Scheduler_Props Stack_Data Instance_Props Membership_Props Rpc_Props Connection_Props
begin

text \<open>
  Verification of the mu executor (repository \<open>src/\<close>).

  The program. Users of mu deploy \<^emph>\<open>stacks\<close> (databases, object storages, functions, gateways)
  through a Solana program, the marketplace, and pay providers from escrow accounts. A provider
  runs a cluster of executors. An executor watches the blockchain, learns which stacks exist and
  whose escrow is filled, agrees with the other nodes which stacks it runs, installs their
  tables, storages, functions and gateways, routes HTTP requests of the gateways to functions,
  meters them and reports the usage back to the marketplace.

  Theories and what they model.

  \<^item> \<open>Mu_Prelude\<close>, \<open>Rust_Str\<close>, \<open>Mu_Effects\<close>: machine integers with Rust's two arithmetic
    modes, results and the question mark, hash maps as association lists, strings as UTF-8,
    fallible actions on a world.
  \<^item> \<open>Mailbox\<close>: the mailbox processor every component is built on
    (\<open>rust-libs/mailbox_processor\<close>): first in first out, every message posted before the stop is
    answered.
  \<^item> \<open>Mu_Stack\<close>, \<open>Stack_Validation\<close>, \<open>Stack_Proto\<close>: the stack data model with its text and byte
    encodings, validation, and the conversion to and from protocol buffers (\<open>rust-libs/mu_stack\<close>).
  \<^item> \<open>Marketplace\<close>, \<open>Marketplace_Effects\<close>, \<open>Marketplace_Pricing\<close>, \<open>Marketplace_History\<close>,
    \<open>Marketplace_Tokens\<close>: the Solana program with the constraints of its account structs
    (\<open>marketplace/programs/marketplace\<close>). Effects of each instruction, prices, the invariant of
    all histories, who can take tokens out of an escrow account.
  \<^item> \<open>Stack_Collection\<close>, \<open>Request_Signer_Cache\<close>, \<open>Usage_Aggregator\<close>, \<open>Blockchain_Monitor\<close>,
    \<open>Monitor_Props\<close>, \<open>Monitor_Guarantees\<close>: the executor's view of the blockchain
    (\<open>executor/src/stack/blockchain_monitor*\<close> and its neighbours): which stacks are announced as
    available or removed, which request signers are valid, how usage is summed and reported.
  \<^item> \<open>Service_Registry\<close>, \<open>Http_Common\<close>, \<open>Gateway_Manager\<close>: the gateways of the deployed stacks,
    matching of paths, the handling of a request (\<open>rust-libs/gateway\<close>, \<open>sdk/common\<close>).
  \<^item> \<open>Function_Messages\<close>, \<open>Runtime_Registry\<close>, \<open>Runtime_Instance\<close>, \<open>Instance_Props\<close>: the function
    runtime (\<open>rust-libs/runtime\<close>): loading and caching of modules, running a function, serving
    its database, storage and HTTP requests, metering.
  \<^item> \<open>Db_Keys\<close>, \<open>Db_Client\<close>, \<open>Db_Client_Props\<close>: keys, ranges and operations of the database client
    over TiKV (\<open>rust-libs/db\<close>).
  \<^item> \<open>Storage\<close>, \<open>Storage_Props\<close>: object storage over an S3 bucket (\<open>rust-libs/storage\<close>).
  \<^item> \<open>Stack_Deploy\<close>, \<open>Stack_Data\<close>: deploying and undeploying a stack, and what that does to its
    data (\<open>executor/src/stack/deploy.rs\<close>).
  \<^item> \<open>Scheduler\<close>, \<open>Scheduler_Props\<close>: which node runs which stack
    (\<open>executor/src/stack/scheduler.rs\<close>).

  State and effects. Each component's state is a record with the fields of the Rust struct; its
  message handler is a step function on that record. Effects outside the component are actions
  on a world \<open>'w\<close> (\<open>Mu_Effects\<close>), errors are values of sum types, a panic or a call that never
  returns is \<open>None\<close>. Hash maps are lists, and theorems hold for every order of the list.

  Interfaces. What the repository only calls is a parameter, with its documented behaviour as a
  named hypothesis: TiKV (\<open>tikv_contract\<close>), the S3 bucket (\<open>bucket_contract\<close>), base 58 (\<open>b58_ok\<close>,
  \<open>base58_contract\<close>), address derivation and the SPL token program of Solana (the record
  \<open>solana\<close>), the WebAssembly engine (\<open>wasm_env\<close>), a running WebAssembly module (\<open>guest\<close>), the
  services of the host (\<open>host_contract\<close>). Each has an instance in memory that satisfies the
  hypothesis and on which the witnesses run. Contracts between the components themselves are
  locales, interpreted on the components' own definitions.

  Bounds and fuel. Machine integers keep their width. Loops that the source leaves unbounded are
  partial functions into \<open>option\<close>: emptying a table (\<open>delete_loop\<close>, shown to end on every finite
  store) and serving a function (\<open>run_loop\<close>, shown to end when the function is metered). The page
  sizes of the source (10000 table entries, 128 listed tables, a thousand objects) are kept, and
  appear as hypotheses where a theorem needs them.

  Not modelled. Logging and metrics, tracing, delays between retries, configuration files,
  process start and shutdown, TLS and QUIC connections, the command line tools (\<open>cli\<close>, the
  airdrop service, the frontend) and the sample functions; embedded database and storage
  servers (\<open>db-embedded-tikv\<close>, \<open>storage_embedded_juicefs\<close>), which only start other programs; the
  code that the protocol buffer and Borsh libraries generate; rent and lamports of Solana
  accounts.
\<close>

end
